theory Spec2Isabelle
  imports Main "HOL-Library.Char_ord" "HOL-Library.List_Lexorder"
begin

section \<open>The incremental archive updater (update\_jqdb.py)\<close>

text \<open>
  A shallow embedding of the updater's core: fiscal years, the file repository, the atomic
  writer and the per-instrument update engine. Python \<open>str\<close> is \<^typ>\<open>string\<close>; a
  \<^typ>\<open>char\<close> stands for the code point of the same number, so the model covers the strings
  whose code points lie below 256 (ASCII and Latin-1). Strings are compared as Python compares
  them: lexicographically by code point, a proper prefix being smaller.
\<close>

subsection \<open>Dates and fiscal years\<close>

text \<open>A \<open>datetime\<close> object, reduced to the calendar fields the updater reads.\<close>

record date_obj =
  year :: int
  month :: int
  day :: int

text \<open>\<open>get_current_fy\<close>: the Japanese fiscal year of a date.\<close>

definition get_current_fy :: "date_obj \<Rightarrow> int" where
  "get_current_fy date_obj =
     (if month date_obj \<ge> 4 then year date_obj else year date_obj - 1)"

text \<open>The dates a \<open>datetime\<close> can hold: the proleptic Gregorian calendar, years 1 to 9999.\<close>

definition is_leap :: "int \<Rightarrow> bool" where
  "is_leap y \<longleftrightarrow> y mod 4 = 0 \<and> (y mod 100 \<noteq> 0 \<or> y mod 400 = 0)"

definition days_in_month :: "int \<Rightarrow> int \<Rightarrow> int" where
  "days_in_month y m =
     (if m = 2 then (if is_leap y then 29 else 28)
      else if m \<in> {4, 6, 9, 11} then 30 else 31)"

definition valid_date :: "date_obj \<Rightarrow> bool" where
  "valid_date d \<longleftrightarrow>
     1 \<le> year d \<and> year d \<le> 9999 \<and> 1 \<le> month d \<and> month d \<le> 12 \<and>
     1 \<le> day d \<and> day d \<le> days_in_month (year d) (month d)"

text \<open>Chronological order on dates, as \<open>datetime\<close> compares them.\<close>

definition date_le :: "date_obj \<Rightarrow> date_obj \<Rightarrow> bool" where
  "date_le a b \<longleftrightarrow>
     year a < year b \<or> (year a = year b \<and>
       (month a < month b \<or> (month a = month b \<and> day a \<le> day b)))"

definition mk_date :: "int \<Rightarrow> int \<Rightarrow> int \<Rightarrow> date_obj" where
  "mk_date y m d = \<lparr>year = y, month = m, day = d\<rparr>"

subsection \<open>Python string operations\<close>

datatype pyexc = ValueError | OSError | OverflowError | KeyError | IndexError | RuntimeError

text \<open>\<open>s.split(c)\<close> for a one-character separator: never empty, never raises.\<close>

fun split_on :: "char \<Rightarrow> string \<Rightarrow> string list" where
  "split_on c [] = [[]]"
| "split_on c (x # xs) =
     (if x = c then [] # split_on c xs
      else (case split_on c xs of [] \<Rightarrow> [[x]] | p # ps \<Rightarrow> (x # p) # ps))"

definition endswith :: "string \<Rightarrow> string \<Rightarrow> bool" where
  "endswith s sfx \<longleftrightarrow>
     length sfx \<le> length s \<and> drop (length s - length sfx) s = sfx"

text \<open>\<open>parts[-1]\<close> and \<open>parts[0]\<close>, raising \<open>IndexError\<close> on an empty list.\<close>

definition last_item :: "'a list \<Rightarrow> pyexc + 'a" where
  "last_item xs = (case rev xs of [] \<Rightarrow> Inl IndexError | x # _ \<Rightarrow> Inr x)"

definition first_item :: "'a list \<Rightarrow> pyexc + 'a" where
  "first_item xs = (case xs of [] \<Rightarrow> Inl IndexError | x # _ \<Rightarrow> Inr x)"

text \<open>
  \<open>str.isdigit\<close> is true of a non-empty string whose characters all have the Unicode
  property Digit or Decimal. Below code point 256 these are the ASCII digits and the
  superscripts U+00B2, U+00B3 and U+00B9. \<open>int\<close> accepts decimal digits only, with
  surrounding whitespace, a sign and single underscores between digits; anything else is a
  \<open>ValueError\<close>.
\<close>

definition is_dec :: "char \<Rightarrow> bool" where
  "is_dec c \<longleftrightarrow> CHR ''0'' \<le> c \<and> c \<le> CHR ''9''"

definition digit_val :: "char \<Rightarrow> nat" where
  "digit_val c = of_char c - 48"

definition isdigit_char :: "char \<Rightarrow> bool" where
  "isdigit_char c \<longleftrightarrow> is_dec c \<or> c = CHR 0xB2 \<or> c = CHR 0xB3 \<or> c = CHR 0xB9"

definition isdigit :: "string \<Rightarrow> bool" where
  "isdigit s \<longleftrightarrow> s \<noteq> [] \<and> list_all isdigit_char s"

definition is_space :: "char \<Rightarrow> bool" where
  "is_space c \<longleftrightarrow>
     c \<in> {CHR 0x09, CHR 0x0A, CHR 0x0B, CHR 0x0C, CHR 0x0D, CHR 0x1C, CHR 0x1D, CHR 0x1E,
       CHR 0x1F, CHR 0x20, CHR 0x85, CHR 0xA0}"

definition strip :: "string \<Rightarrow> string" where
  "strip s = rev (dropWhile is_space (rev (dropWhile is_space s)))"

fun dec_digits :: "nat \<Rightarrow> string \<Rightarrow> nat option" where
  "dec_digits acc [] = Some acc"
| "dec_digits acc [c] = (if is_dec c then Some (10 * acc + digit_val c) else None)"
| "dec_digits acc (c # d # cs) =
     (if is_dec c then dec_digits (10 * acc + digit_val c) (d # cs)
      else if c = CHR ''_'' \<and> is_dec d then dec_digits (10 * acc + digit_val d) cs
      else None)"

definition dec_literal :: "string \<Rightarrow> nat option" where
  "dec_literal s = (case s of [] \<Rightarrow> None | c # cs \<Rightarrow> if is_dec c then dec_digits 0 s else None)"

definition py_int :: "string \<Rightarrow> pyexc + int" where
  "py_int s =
     (case strip s of
        [] \<Rightarrow> Inl ValueError
      | c # cs \<Rightarrow>
          if c = CHR ''-'' then
            (case dec_literal cs of None \<Rightarrow> Inl ValueError | Some n \<Rightarrow> Inr (- int n))
          else if c = CHR ''+'' then
            (case dec_literal cs of None \<Rightarrow> Inl ValueError | Some n \<Rightarrow> Inr (int n))
          else
            (case dec_literal (c # cs) of None \<Rightarrow> Inl ValueError | Some n \<Rightarrow> Inr (int n)))"

text \<open>\<open>str(n)\<close> of an integer, as an f-string inserts it.\<close>

definition digit_char :: "nat \<Rightarrow> char" where
  "digit_char n = char_of (48 + n)"

fun dec_of_nat :: "nat \<Rightarrow> string" where
  "dec_of_nat n = (if n < 10 then [digit_char n] else dec_of_nat (n div 10) @ [digit_char (n mod 10)])"

declare dec_of_nat.simps [simp del]

definition py_str :: "int \<Rightarrow> string" where
  "py_str i = (if i < 0 then CHR ''-'' # dec_of_nat (nat (- i)) else dec_of_nat (nat i))"

text \<open>\<open>s.replace("-", "")\<close> and \<open>s.replace("fy", "")\<close>.\<close>

definition remove_dashes :: "string \<Rightarrow> string" where
  "remove_dashes s = filter (\<lambda>c. c \<noteq> CHR ''-'') s"

fun remove_fy :: "string \<Rightarrow> string" where
  "remove_fy (a # b # r) =
     (if a = CHR ''f'' \<and> b = CHR ''y'' then remove_fy r else a # remove_fy (b # r))"
| "remove_fy s = s"

text \<open>
  \<open>os.path.basename\<close> and \<open>os.path.join\<close> of two components, in the POSIX flavour: the
  separator is a slash.
\<close>

definition os_path_basename :: "string \<Rightarrow> string" where
  "os_path_basename p = rev (takeWhile (\<lambda>c. c \<noteq> CHR ''/'') (rev p))"

definition os_path_join :: "string \<Rightarrow> string \<Rightarrow> string" where
  "os_path_join a p =
     (case p of
        [] \<Rightarrow> (if a = [] \<or> endswith a ''/'' then a else a @ ''/'')
      | c # _ \<Rightarrow>
          if c = CHR ''/'' then p
          else if a = [] \<or> endswith a ''/'' then a @ p
          else a @ ''/'' @ p)"

subsection \<open>The file repository\<close>

text \<open>
  \<open>FileRepository.file_map\<close> is a dictionary from instrument code to the list of its
  partition paths. \<open>os.walk\<close> is given as the list of its \<open>(root, files)\<close> results.
\<close>

type_synonym file_map = "string \<rightharpoonup> string list"

definition index_file :: "string \<Rightarrow> file_map \<Rightarrow> string \<Rightarrow> file_map" where
  "index_file root fm filename =
     (if endswith filename ''.csv'' then
        (case split_on CHR ''_'' filename of
           code # _ # _ \<Rightarrow>
             (let full_path = os_path_join root filename;
                  fm' = (if fm code = None then fm(code \<mapsto> []) else fm)
              in fm'(code \<mapsto> (case fm' code of None \<Rightarrow> [] | Some l \<Rightarrow> l) @ [full_path]))
         | _ \<Rightarrow> fm)
      else fm)"

definition scan_files :: "(string \<times> string list) list \<Rightarrow> file_map" where
  "scan_files walk =
     fold (\<lambda>(root, files) fm. fold (\<lambda>filename fm'. index_file root fm' filename) files fm)
       walk Map.empty"

text \<open>The local \<open>sort_key\<close> of \<open>get_latest_file\<close>.\<close>

definition sort_key_path :: "string \<Rightarrow> pyexc + int" where
  "sort_key_path filepath =
     (let filename = os_path_basename filepath;
          parts = split_on CHR ''_'' filename
      in case last_item parts of
           Inl e \<Rightarrow> Inl e
         | Inr lp \<Rightarrow>
             (case first_item (split_on CHR ''.'' lp) of
                Inl e \<Rightarrow> Inl e
              | Inr last_part \<Rightarrow>
                  if isdigit last_part \<and> length last_part = 8 then py_int last_part
                  else Inr 0))"

text \<open>
  \<open>sorted(files, key=sort_key, reverse=True)\<close>: every key is computed first, left to right,
  and the first exception propagates; the sort is stable, also when reversed.
\<close>

fun with_keys :: "('a \<Rightarrow> pyexc + int) \<Rightarrow> 'a list \<Rightarrow> pyexc + (int \<times> 'a) list" where
  "with_keys k [] = Inr []"
| "with_keys k (x # xs) =
     (case k x of
        Inl e \<Rightarrow> Inl e
      | Inr v \<Rightarrow> (case with_keys k xs of Inl e \<Rightarrow> Inl e | Inr r \<Rightarrow> Inr ((v, x) # r)))"

definition sorted_reverse :: "(int \<times> 'a) list \<Rightarrow> 'a list" where
  "sorted_reverse kxs = map snd (rev (sort_key fst (rev kxs)))"

definition get_latest_file :: "file_map \<Rightarrow> string \<Rightarrow> pyexc + string option" where
  "get_latest_file fm code =
     (case fm code of
        None \<Rightarrow> Inr None
      | Some files \<Rightarrow>
          if files = [] then Inr None
          else (case with_keys sort_key_path files of
                  Inl e \<Rightarrow> Inl e
                | Inr kfs \<Rightarrow>
                    (case sorted_reverse kfs of [] \<Rightarrow> Inr None | f # _ \<Rightarrow> Inr (Some f))))"

definition add_file :: "file_map \<Rightarrow> string \<Rightarrow> string \<Rightarrow> file_map" where
  "add_file fm code filepath =
     (let fm' = (if fm code = None then fm(code \<mapsto> []) else fm)
      in case fm' code of
           None \<Rightarrow> fm'
         | Some l \<Rightarrow> if filepath \<notin> set l then fm'(code \<mapsto> l @ [filepath]) else fm')"

definition remove_file :: "file_map \<Rightarrow> string \<Rightarrow> string \<Rightarrow> file_map" where
  "remove_file fm code filepath =
     (case fm code of
        None \<Rightarrow> fm
      | Some l \<Rightarrow> if filepath \<in> set l then fm(code \<mapsto> remove1 filepath l) else fm)"

text \<open>The invariant of the scan: every indexed path ends in \<open>.csv\<close>.\<close>

definition csv_only :: "file_map \<Rightarrow> bool" where
  "csv_only fm \<longleftrightarrow> (\<forall>code l. fm code = Some l \<longrightarrow> (\<forall>p \<in> set l. endswith p ''.csv''))"

subsection \<open>Date strings\<close>

text \<open>
  \<open>datetime.strptime\<close> for the formats \<open>%Y%m%d\<close> and \<open>%Y-%m-%d\<close>, written
  \<open>strptime sep s\<close> with the separator \<open>sep\<close> between the fields. The standard library
  matches the regular expression
  \<open>(\d\d\d\d)sep(1[0-2]|0[1-9]|[1-9])sep(3[0-1]|[1-2]\d|0[1-9]|[1-9]| [1-9])\<close>
  at the start of the string, alternatives tried in this order with backtracking, raises
  \<open>ValueError\<close> when nothing matches or when input remains after the match, and then
  when the fields are no calendar date.
\<close>

definition in_range :: "char \<Rightarrow> char \<Rightarrow> char \<Rightarrow> bool" where
  "in_range lo hi c \<longleftrightarrow> lo \<le> c \<and> c \<le> hi"

definition re_year :: "string \<Rightarrow> (int \<times> string) option" where
  "re_year s =
     (case s of
        a # b # c # d # r \<Rightarrow>
          if is_dec a \<and> is_dec b \<and> is_dec c \<and> is_dec d
          then Some (int (1000 * digit_val a + 100 * digit_val b + 10 * digit_val c + digit_val d), r)
          else None
      | _ \<Rightarrow> None)"

definition re_month :: "string \<Rightarrow> (int \<times> string) list" where
  "re_month s =
     (case s of
        a # b # r \<Rightarrow>
          (if a = CHR ''1'' \<and> in_range CHR ''0'' CHR ''2'' b then [(int (10 + digit_val b), r)] else []) @
          (if a = CHR ''0'' \<and> in_range CHR ''1'' CHR ''9'' b then [(int (digit_val b), r)] else [])
      | _ \<Rightarrow> []) @
     (case s of
        a # r \<Rightarrow> if in_range CHR ''1'' CHR ''9'' a then [(int (digit_val a), r)] else []
      | [] \<Rightarrow> [])"

definition re_day :: "string \<Rightarrow> (int \<times> string) option" where
  "re_day s =
     (case s of
        [] \<Rightarrow> None
      | [a] \<Rightarrow> if in_range CHR ''1'' CHR ''9'' a then Some (int (digit_val a), []) else None
      | a # b # r \<Rightarrow>
          if a = CHR ''3'' \<and> in_range CHR ''0'' CHR ''1'' b then Some (int (30 + digit_val b), r)
          else if in_range CHR ''1'' CHR ''2'' a \<and> is_dec b
            then Some (int (10 * digit_val a + digit_val b), r)
          else if a = CHR ''0'' \<and> in_range CHR ''1'' CHR ''9'' b then Some (int (digit_val b), r)
          else if in_range CHR ''1'' CHR ''9'' a then Some (int (digit_val a), b # r)
          else if a = CHR '' '' \<and> in_range CHR ''1'' CHR ''9'' b then Some (int (digit_val b), r)
          else None)"

definition strip_prefix :: "string \<Rightarrow> string \<Rightarrow> string option" where
  "strip_prefix pre s = (if take (length pre) s = pre then Some (drop (length pre) s) else None)"

text \<open>The first month alternative after which the separator and a day match.\<close>

fun first_month_day :: "string \<Rightarrow> (int \<times> string) list \<Rightarrow> (int \<times> int \<times> string) option" where
  "first_month_day sep [] = None"
| "first_month_day sep ((m, r) # alts) =
     (case strip_prefix sep r of
        None \<Rightarrow> first_month_day sep alts
      | Some r' \<Rightarrow>
          (case re_day r' of
             None \<Rightarrow> first_month_day sep alts
           | Some (d, rest) \<Rightarrow> Some (m, d, rest)))"

definition strptime :: "string \<Rightarrow> string \<Rightarrow> pyexc + date_obj" where
  "strptime sep s =
     (case re_year s of
        None \<Rightarrow> Inl ValueError
      | Some (y, r1) \<Rightarrow>
          (case strip_prefix sep r1 of
             None \<Rightarrow> Inl ValueError
           | Some r2 \<Rightarrow>
               (case first_month_day sep (re_month r2) of
                  None \<Rightarrow> Inl ValueError
                | Some (m, d, rest) \<Rightarrow>
                    if rest \<noteq> [] then Inl ValueError
                    else if valid_date (mk_date y m d) then Inr (mk_date y m d)
                    else Inl ValueError)))"

text \<open>\<open>dt + timedelta(days=1)\<close>: the next calendar day, \<open>OverflowError\<close> past year 9999.\<close>

definition add_one_day :: "date_obj \<Rightarrow> pyexc + date_obj" where
  "add_one_day d =
     (if day d < days_in_month (year d) (month d) then Inr (mk_date (year d) (month d) (day d + 1))
      else if month d < 12 then Inr (mk_date (year d) (month d + 1) 1)
      else if year d < 9999 then Inr (mk_date (year d + 1) 1 1)
      else Inl OverflowError)"

text \<open>
  \<open>strftime\<close> for the same two formats. Month and day take two digits. The year is
  printed as the C library of Linux prints \<open>%Y\<close>: in decimal without leading zeros, so a
  year below 1000 takes fewer than four characters.
\<close>

definition pad2 :: "int \<Rightarrow> string" where
  "pad2 i = [digit_char (nat i div 10 mod 10), digit_char (nat i mod 10)]"

definition strftime :: "string \<Rightarrow> date_obj \<Rightarrow> string" where
  "strftime sep d = py_str (year d) @ sep @ pad2 (month d) @ sep @ pad2 (day d)"

text \<open>
  The rendering with a year of four digits, which is the one \<open>strptime\<close> reads back;
  \<open>strftime\<close> agrees with it from the year 1000 on.
\<close>

definition pad4 :: "int \<Rightarrow> string" where
  "pad4 i = [digit_char (nat i div 1000 mod 10), digit_char (nat i div 100 mod 10),
             digit_char (nat i div 10 mod 10), digit_char (nat i mod 10)]"

definition zero_padded :: "string \<Rightarrow> date_obj \<Rightarrow> string" where
  "zero_padded sep d = pad4 (year d) @ sep @ pad2 (month d) @ sep @ pad2 (day d)"

text \<open>
  Lines 278 to 280 of \<open>update_file_for_code\<close>: the start of the fetch window, one day after
  the last archived date.
\<close>

definition from_date_str :: "string \<Rightarrow> pyexc + string" where
  "from_date_str last_updated_date_str =
     (case strptime [] last_updated_date_str of
        Inl e \<Rightarrow> Inl e
      | Inr last_dt \<Rightarrow>
          (case add_one_day last_dt of
             Inl e \<Rightarrow> Inl e
           | Inr from_dt \<Rightarrow> Inr (strftime [] from_dt)))"

text \<open>An eight-digit string \<open>YYYYMMDD\<close> that names a calendar date.\<close>

definition valid_yyyymmdd :: "string \<Rightarrow> bool" where
  "valid_yyyymmdd s \<longleftrightarrow>
     (case s of
        [a, b, c, d, e, f, g, h] \<Rightarrow>
          list_all is_dec s \<and>
          valid_date
            (mk_date (int (1000 * digit_val a + 100 * digit_val b + 10 * digit_val c + digit_val d))
               (int (10 * digit_val e + digit_val f)) (int (10 * digit_val g + digit_val h)))
      | _ \<Rightarrow> False)"

subsection \<open>Tables\<close>

text \<open>
  A \<open>DataFrame\<close> of daily records is the list of its rows, each the \<open>Date\<close> string
  paired with the remaining columns. Every table has a \<open>Date\<close> column holding strings
  (the partition files are read with \<open>dtype={"Date": str}\<close>); the tables that are read
  from a file or returned by the API have a date in every row.
\<close>

type_synonym 'a table = "(string \<times> 'a) list"

text \<open>\<open>df.sort_values("Date")\<close>, \<open>df.drop_duplicates(subset=["Date"], keep="last")\<close> and
  \<open>df["Date"].max()\<close>.\<close>

definition sort_values :: "'a table \<Rightarrow> 'a table" where
  "sort_values df = sort_key fst df"

fun drop_duplicates_last :: "'a table \<Rightarrow> 'a table" where
  "drop_duplicates_last [] = []"
| "drop_duplicates_last (r # rs) =
     (if fst r \<in> fst ` set rs then drop_duplicates_last rs else r # drop_duplicates_last rs)"

definition max_date :: "'a table \<Rightarrow> string" where
  "max_date df = foldr max (map fst df) []"

subsection \<open>The environment: file system, upstream API and date parser\<close>

text \<open>
  A file holds a table or something \<open>read_csv\<close> cannot parse. The world is the set of
  directories, the files by path, the repository's \<open>file_map\<close> and the trace of the
  operations performed so far. The environment decides what the upstream API returns, which
  file operations fail, and what \<open>pd.to_datetime(col).dt.strftime("%Y-%m-%d")\<close> makes of a
  column that is not one of ISO dates (see below).
\<close>

datatype 'a content = Csv "'a table" | Unreadable

datatype event =
  Stat string | Read string | Write string | Rename string string | Remove string
  | Fetch string string string | Sleep

datatype 'a write_outcome = Written | Fails_clean | Fails_leaving "'a content"

record 'a env =
  get_daily_quotes :: "string \<Rightarrow> string \<Rightarrow> string \<Rightarrow> pyexc + 'a table"
  to_csv_outcome :: "string \<Rightarrow> 'a write_outcome"
  replace_fails :: "string \<Rightarrow> bool"
  remove_fails :: "string \<Rightarrow> bool"
  to_datetime :: "string list \<Rightarrow> pyexc + string list"

record 'a world =
  dirs :: "string set"
  files :: "string \<rightharpoonup> 'a content"
  file_map :: file_map
  trace :: "event list"

definition log :: "event \<Rightarrow> 'a world \<Rightarrow> 'a world" where
  "log e w = w\<lparr>trace := trace w @ [e]\<rparr>"

definition os_path_exists :: "'a world \<Rightarrow> string \<Rightarrow> bool \<times> 'a world" where
  "os_path_exists w p = (p \<in> dirs w \<or> files w p \<noteq> None, log (Stat p) w)"

definition read_csv :: "'a world \<Rightarrow> string \<Rightarrow> (pyexc + 'a table) \<times> 'a world" where
  "read_csv w p =
     (case files w p of
        None \<Rightarrow> (Inl OSError, log (Read p) w)
      | Some Unreadable \<Rightarrow> (Inl ValueError, log (Read p) w)
      | Some (Csv t) \<Rightarrow> (Inr t, log (Read p) w))"

definition to_csv :: "'a env \<Rightarrow> 'a table \<Rightarrow> string \<Rightarrow> 'a world \<Rightarrow> (pyexc + unit) \<times> 'a world" where
  "to_csv env df p w =
     (case to_csv_outcome env p of
        Written \<Rightarrow> (Inr (), log (Write p) (w\<lparr>files := (files w)(p \<mapsto> Csv df)\<rparr>))
      | Fails_clean \<Rightarrow> (Inl OSError, log (Write p) w)
      | Fails_leaving c \<Rightarrow> (Inl OSError, log (Write p) (w\<lparr>files := (files w)(p \<mapsto> c)\<rparr>)))"

text \<open>\<open>os.replace\<close> and \<open>os.rename\<close> move the source over the target in one step or fail
  and change nothing; \<open>os.remove\<close> deletes a file or fails.\<close>

definition os_replace :: "'a env \<Rightarrow> string \<Rightarrow> string \<Rightarrow> 'a world \<Rightarrow> (pyexc + unit) \<times> 'a world" where
  "os_replace env src dst w =
     (if replace_fails env src \<or> files w src = None
      then (Inl OSError, log (Rename src dst) w)
      else (Inr (), log (Rename src dst) (w\<lparr>files := ((files w)(dst := files w src))(src := None)\<rparr>)))"

text \<open>\<open>os.rename\<close> is called only when nothing exists at the target, where it behaves as
  \<open>os.replace\<close> does.\<close>

definition os_rename :: "'a env \<Rightarrow> string \<Rightarrow> string \<Rightarrow> 'a world \<Rightarrow> (pyexc + unit) \<times> 'a world" where
  "os_rename env src dst w = os_replace env src dst w"

definition os_remove :: "'a env \<Rightarrow> string \<Rightarrow> 'a world \<Rightarrow> (pyexc + unit) \<times> 'a world" where
  "os_remove env p w =
     (if remove_fails env p \<or> files w p = None then (Inl OSError, log (Remove p) w)
      else (Inr (), log (Remove p) (w\<lparr>files := (files w)(p := None)\<rparr>)))"

subsection \<open>Date normalisation\<close>

text \<open>
  An ISO date: \<open>YYYY-MM-DD\<close> with zero-padded fields, naming a calendar date of the years
  1678 to 2261, each day of which a nanosecond \<open>Timestamp\<close> of pandas can hold. These are
  the strings that \<open>strptime\<close> reads and \<open>strftime\<close> prints back unchanged.
\<close>

definition iso_date :: "string \<Rightarrow> bool" where
  "iso_date s \<longleftrightarrow>
     (case strptime ''-'' s of
        Inl e \<Rightarrow> False
      | Inr d \<Rightarrow> strftime ''-'' d = s \<and> 1678 \<le> year d \<and> year d \<le> 2261)"

text \<open>
  \<open>pd.to_datetime(df["Date"]).dt.strftime("%Y-%m-%d")\<close> (lines 380 to 382 and 401 to
  403), applied to a whole column. A column of ISO dates comes back unchanged. What pandas
  does with any other column (the formats it infers and accepts, the exceptions it raises,
  the entries it turns into a missing value) is not defined here: the result is the
  environment's. A missing value in the result is given as the empty string, which is what
  \<open>to_csv\<close> writes for it; the result has as many entries as the column.
\<close>

definition to_datetime_strftime :: "'a env \<Rightarrow> string list \<Rightarrow> pyexc + string list" where
  "to_datetime_strftime env col = (if list_all iso_date col then Inr col else to_datetime env col)"

definition normalize_dates :: "'a env \<Rightarrow> 'a table \<Rightarrow> pyexc + 'a table" where
  "normalize_dates env df =
     (case to_datetime_strftime env (map fst df) of
        Inl e \<Rightarrow> Inl e
      | Inr col \<Rightarrow> Inr (zip col (map snd df)))"

text \<open>
  \<open>df.sort_values("Date")\<close> on a normalised column: the rows with a missing date (the
  empty string, which no date is printed as) go last, in their order.
\<close>

definition sort_values_na_last :: "'a table \<Rightarrow> 'a table" where
  "sort_values_na_last df =
     sort_values (filter (\<lambda>r. fst r \<noteq> []) df) @ filter (\<lambda>r. fst r = []) df"

subsection \<open>The atomic writer\<close>

definition temp_path :: "string \<Rightarrow> string" where
  "temp_path filepath = filepath @ ''.tmp''"

text \<open>The \<open>except\<close> block of \<open>atomic_save\<close>: remove the temporary file if it exists,
  ignoring an \<open>OSError\<close> of the removal.\<close>

definition cleanup :: "'a env \<Rightarrow> string \<Rightarrow> 'a world \<Rightarrow> 'a world" where
  "cleanup env tp w =
     (let (ex, w1) = os_path_exists w tp
      in if ex then snd (os_remove env tp w1) else w1)"

definition atomic_save :: "'a env \<Rightarrow> 'a table \<Rightarrow> string \<Rightarrow> 'a world \<Rightarrow> (pyexc + unit) \<times> 'a world" where
  "atomic_save env df filepath w =
     (let tp = temp_path filepath;
          (r1, w1) = to_csv env df tp w
      in case r1 of
           Inl e \<Rightarrow> (Inl e, cleanup env tp w1)
         | Inr _ \<Rightarrow>
             (let (ex, w2) = os_path_exists w1 filepath;
                  (r2, w3) = (if ex then os_replace env tp filepath w2
                              else os_rename env tp filepath w2)
              in case r2 of
                   Inl e \<Rightarrow> (Inl e, cleanup env tp w3)
                 | Inr _ \<Rightarrow> (Inr (), w3)))"

subsection \<open>The update engine\<close>

datatype outcome =
  DIR_NOT_FOUND | FILENAME_FORMAT_ERROR | FILE_NOT_FOUND | ALREADY_LATEST | DATE_CALC_ERROR
  | UPDATED | NO_NEW_DATA | ERROR

text \<open>
  Lines 243 to 265: the last archived date of the current partition. A file name of three or
  more underscore-separated parts carries the date; otherwise the file is opened and the
  largest \<open>Date\<close> taken, a failure of the read being ignored. The outer handler turns
  an exception of the name parsing into \<open>FILENAME_FORMAT_ERROR\<close>.
\<close>

definition last_updated_of :: "'a world \<Rightarrow> string \<Rightarrow> (outcome + string option) \<times> 'a world" where
  "last_updated_of w current_file_path =
     (let filename = os_path_basename current_file_path;
          parts = split_on CHR ''_'' filename
      in if length parts \<ge> 3 then
           (case last_item parts of
              Inl e \<Rightarrow> (Inl FILENAME_FORMAT_ERROR, w)
            | Inr lp \<Rightarrow>
                (case first_item (split_on CHR ''.'' lp) of
                   Inl e \<Rightarrow> (Inl FILENAME_FORMAT_ERROR, w)
                 | Inr s \<Rightarrow> (Inr (Some s), w)))
         else
           (let (r, w1) = read_csv w current_file_path
            in case r of
                 Inl e \<Rightarrow> (Inr None, w1)
               | Inr df_temp \<Rightarrow>
                   if df_temp \<noteq> [] then (Inr (Some (remove_dashes (max_date df_temp))), w1)
                   else (Inr None, w1)))"

text \<open>Lines 416 to 422 and 368 to 376: delete the old partition and synchronise the
  repository; an \<open>OSError\<close> of the removal is logged and ignored.\<close>

definition remove_old :: "'a env \<Rightarrow> string \<Rightarrow> string \<Rightarrow> 'a world \<Rightarrow> 'a world" where
  "remove_old env code current_file_path w =
     (let (r, w1) = os_remove env current_file_path w
      in case r of
           Inl e \<Rightarrow> w1
         | Inr _ \<Rightarrow> w1\<lparr>file_map := remove_file (file_map w1) code current_file_path\<rparr>)"

definition repo_add :: "string \<Rightarrow> string \<Rightarrow> 'a world \<Rightarrow> 'a world" where
  "repo_add code filepath w = w\<lparr>file_map := add_file (file_map w) code filepath\<rparr>"

text \<open>Lines 337 to 395: the rollover branch.\<close>

definition rollover_update ::
  "'a env \<Rightarrow> string \<Rightarrow> string \<Rightarrow> string \<Rightarrow> int \<Rightarrow> int \<Rightarrow> string \<Rightarrow> 'a table \<Rightarrow> 'a table \<Rightarrow>
   'a world \<Rightarrow> (pyexc + outcome) \<times> 'a world" where
  "rollover_update env code sector_dir current_file_path current_file_fy new_fy
       latest_data_date_str df_old df_new w =
     (if new_fy < 1 \<or> new_fy > 9999 then (Inl ValueError, w)
      else
        let new_fy_start_date = strftime ''-'' (mk_date new_fy 4 1);
            df_curr_fy_new_data = filter (\<lambda>r. fst r < new_fy_start_date) df_new;
            df_next_fy_new_data = filter (\<lambda>r. fst r \<ge> new_fy_start_date) df_new;
            df_old_updated =
              (if df_curr_fy_new_data \<noteq> []
               then sort_values (drop_duplicates_last (df_old @ df_curr_fy_new_data))
               else df_old);
            archive_filename = code @ ''_'' @ py_str current_file_fy @ ''fy.csv'';
            archive_path = os_path_join sector_dir archive_filename;
            (r1, w1) = atomic_save env df_old_updated archive_path w
        in case r1 of
             Inl e \<Rightarrow> (Inl e, w1)
           | Inr _ \<Rightarrow>
               (let w2 = (if current_file_path \<noteq> archive_path
                          then remove_old env code current_file_path w1 else w1);
                    w3 = repo_add code archive_path w2
                in if df_next_fy_new_data \<noteq> [] then
                     (case normalize_dates env df_next_fy_new_data of
                        Inl e \<Rightarrow> (Inl e, w3)
                      | Inr df_next \<Rightarrow>
                          (let latest_date_plain = remove_dashes latest_data_date_str;
                               new_filename =
                                 code @ ''_'' @ py_str new_fy @ ''fy_'' @ latest_date_plain @ ''.csv'';
                               new_file_path = os_path_join sector_dir new_filename;
                               (r2, w4) = atomic_save env df_next new_file_path w3
                           in case r2 of
                                Inl e \<Rightarrow> (Inl e, w4)
                              | Inr _ \<Rightarrow> (Inr UPDATED, repo_add code new_file_path w4)))
                   else (Inr UPDATED, w3)))"

text \<open>Lines 397 to 426: the update within one fiscal year.\<close>

definition normal_update ::
  "'a env \<Rightarrow> string \<Rightarrow> string \<Rightarrow> string \<Rightarrow> int \<Rightarrow> string \<Rightarrow> 'a table \<Rightarrow> 'a table \<Rightarrow>
   'a world \<Rightarrow> (pyexc + outcome) \<times> 'a world" where
  "normal_update env code sector_dir current_file_path current_file_fy
       latest_data_date_str df_old df_new w =
     (case normalize_dates env (df_old @ df_new) of
        Inl e \<Rightarrow> (Inl e, w)
      | Inr df_norm \<Rightarrow>
          (let df_combined = sort_values_na_last (drop_duplicates_last df_norm);
               latest_date_plain = remove_dashes latest_data_date_str;
               new_filename =
                 code @ ''_'' @ py_str current_file_fy @ ''fy_'' @ latest_date_plain @ ''.csv'';
               new_file_path = os_path_join sector_dir new_filename;
               (r1, w1) = atomic_save env df_combined new_file_path w
           in case r1 of
                Inl e \<Rightarrow> (Inl e, w1)
              | Inr _ \<Rightarrow>
                  (let w2 = (if new_file_path \<noteq> current_file_path
                             then remove_old env code current_file_path w1 else w1)
                   in (Inr UPDATED, repo_add code new_file_path w2))))"

text \<open>
  Lines 329 to 335: the fiscal year of the current partition, read from the second part of
  its file name; when that is no integer, the fiscal year of the new data is taken.
\<close>

definition current_fy_of :: "string \<Rightarrow> int \<Rightarrow> pyexc + int" where
  "current_fy_of current_file_path new_fy =
     (case split_on CHR ''_'' (os_path_basename current_file_path) of
        _ # p1 # _ \<Rightarrow> Inr (case py_int (remove_fy p1) of Inl e \<Rightarrow> new_fy | Inr n \<Rightarrow> n)
      | _ \<Rightarrow> Inl IndexError)"

text \<open>Lines 288 to 426: the body of the \<open>try\<close> statement; \<open>Inl\<close> is an exception raised
  inside it.\<close>

definition try_body ::
  "'a env \<Rightarrow> string \<Rightarrow> string \<Rightarrow> string \<Rightarrow> bool \<Rightarrow> string \<Rightarrow> string \<Rightarrow> 'a world \<Rightarrow>
   (pyexc + outcome) \<times> 'a world" where
  "try_body env code sector_dir latest_biz_date test_mode current_file_path from_date w =
     (if test_mode then (Inr UPDATED, w)
      else
        let w1 = log (Fetch code from_date latest_biz_date) (log Sleep w)
        in case get_daily_quotes env code from_date latest_biz_date of
             Inl e \<Rightarrow> (Inl e, w1)
           | Inr fetched \<Rightarrow>
               if fetched = [] then (Inr NO_NEW_DATA, w1)
               else
                 let df_new = sort_values fetched;
                     (r, w2) = read_csv w1 current_file_path
                 in case r of
                      Inl e \<Rightarrow> (Inl e, w2)
                    | Inr df_old \<Rightarrow>
                        (case last_item df_new of
                           Inl e \<Rightarrow> (Inl e, w2)
                         | Inr last_row \<Rightarrow>
                             (let latest_data_date_str = fst last_row
                              in case strptime ''-'' latest_data_date_str of
                                   Inl e \<Rightarrow> (Inl e, w2)
                                 | Inr latest_data_date \<Rightarrow>
                                     (let new_fy = get_current_fy latest_data_date
                                      in case current_fy_of current_file_path new_fy of
                                           Inl e \<Rightarrow> (Inl e, w2)
                                         | Inr current_file_fy \<Rightarrow>
                                             if new_fy > current_file_fy
                                             then rollover_update env code sector_dir
                                                    current_file_path current_file_fy new_fy
                                                    latest_data_date_str df_old df_new w2
                                             else normal_update env code sector_dir
                                                    current_file_path current_file_fy
                                                    latest_data_date_str df_old df_new w2))))"

text \<open>
  Lines 274 to 283: the freshness check and the fetch window. The result is an exception of
  the date arithmetic, an outcome returned at once, or the window's start date.
\<close>

definition fetch_window :: "string \<Rightarrow> string \<Rightarrow> pyexc + (outcome + string)" where
  "fetch_window last_updated_date_str latest_biz_date =
     (if last_updated_date_str \<ge> latest_biz_date then Inr (Inl ALREADY_LATEST)
      else
        (case from_date_str last_updated_date_str of
           Inl e \<Rightarrow> Inl e
         | Inr from_date \<Rightarrow>
             if from_date > latest_biz_date then Inr (Inl DATE_CALC_ERROR)
             else Inr (Inr from_date)))"

text \<open>
  \<open>update_file_for_code\<close>. The result is the outcome code returned, or the exception that
  leaves the function, together with the world afterwards. \<open>api_key\<close> and \<open>wait_time\<close>
  do not influence the result and are left out.
\<close>

definition update_file_for_code ::
  "'a env \<Rightarrow> string \<Rightarrow> string \<Rightarrow> string \<Rightarrow> string \<Rightarrow> bool \<Rightarrow> 'a world \<Rightarrow>
   (pyexc + outcome) \<times> 'a world" where
  "update_file_for_code env code sector_code daily_quotes_dir latest_biz_date test_mode w =
     (let sector_dir = os_path_join daily_quotes_dir sector_code;
          (ex, w1) = os_path_exists w sector_dir
      in if \<not> ex then (Inr DIR_NOT_FOUND, w1)
         else
           case get_latest_file (file_map w1) code of
             Inl e \<Rightarrow> (Inl e, w1)
           | Inr None \<Rightarrow> (Inr FILE_NOT_FOUND, w1)
           | Inr (Some current_file_path) \<Rightarrow>
               if current_file_path = [] then (Inr FILE_NOT_FOUND, w1)
               else
                 let (lu, w2) = last_updated_of w1 current_file_path
                 in case lu of
                      Inl r \<Rightarrow> (Inr r, w2)
                    | Inr None \<Rightarrow> (Inr FILE_NOT_FOUND, w2)
                    | Inr (Some last_updated_date_str) \<Rightarrow>
                        if last_updated_date_str = [] then (Inr FILE_NOT_FOUND, w2)
                        else
                          (case fetch_window last_updated_date_str latest_biz_date of
                             Inl e \<Rightarrow> (Inl e, w2)
                           | Inr (Inl r) \<Rightarrow> (Inr r, w2)
                           | Inr (Inr from_date) \<Rightarrow>
                               (case try_body env code sector_dir latest_biz_date test_mode
                                       current_file_path from_date w2 of
                                  (Inl e, w3) \<Rightarrow> (Inr ERROR, w3)
                                | (Inr r, w3) \<Rightarrow> (Inr r, w3))))"

text \<open>An environment is free of faults when every file operation succeeds in it, whatever
  the upstream API returns and the date parser does.\<close>

definition fault_free :: "'a env \<Rightarrow> bool" where
  "fault_free env \<longleftrightarrow>
     (\<forall>p. to_csv_outcome env p = Written \<and> \<not> replace_fails env p \<and> \<not> remove_fails env p)"

text \<open>The environment free of faults with a given upstream API and a date parser that
  rejects every column that is not one of ISO dates.\<close>

definition no_faults :: "(string \<Rightarrow> string \<Rightarrow> string \<Rightarrow> pyexc + 'a table) \<Rightarrow> 'a env" where
  "no_faults api =
     \<lparr>get_daily_quotes = api, to_csv_outcome = (\<lambda>_. Written),
      replace_fails = (\<lambda>_. False), remove_fails = (\<lambda>_. False),
      to_datetime = (\<lambda>_. Inl ValueError)\<rparr>"

subsection \<open>Example environments and worlds\<close>

text \<open>
  Concrete inputs for the statements below: the instrument \<open>72030\<close> of sector \<open>3050\<close>
  with one live partition of fiscal year 2024, dated 20 March 2025.
\<close>

definition one_file_world :: "int world" where
  "one_file_world =
     \<lparr>dirs = {''/q/3050''},
      files = [''/q/3050/72030_2024fy_20250320.csv'' \<mapsto>
                 Csv [(''2025-03-19'', 1), (''2025-03-20'', 2)]],
      file_map = [''72030'' \<mapsto> [''/q/3050/72030_2024fy_20250320.csv'']],
      trace = []\<rparr>"

text \<open>An upstream API with nothing to return.\<close>

definition api_empty :: "string \<Rightarrow> string \<Rightarrow> string \<Rightarrow> pyexc + int table" where
  "api_empty code from_date to_date = Inr []"

text \<open>An environment where writing fails half-way, leaving an unreadable file, and one where
  in addition the file cannot be removed (as when another process holds it open).\<close>

definition disk_full_env :: "int env" where
  "disk_full_env = (no_faults api_empty)\<lparr>to_csv_outcome := (\<lambda>p. Fails_leaving Unreadable)\<rparr>"

definition locked_temp_env :: "int env" where
  "locked_temp_env = disk_full_env\<lparr>remove_fails := (\<lambda>p. True)\<rparr>"

text \<open>An environment where the temporary file is written but cannot be moved over the
  target (as when the target is held open by another process).\<close>

definition rename_blocked_env :: "int env" where
  "rename_blocked_env = (no_faults api_empty)\<lparr>replace_fails := (\<lambda>p. True)\<rparr>"

text \<open>The file reads of lines 243 to 265: none when the file name carries the date, one
  otherwise.\<close>

definition locate_reads :: "string \<Rightarrow> event list" where
  "locate_reads p = (if length (split_on CHR ''_'' (os_path_basename p)) \<ge> 3 then [] else [Read p])"

text \<open>An instrument with only an archived partition, and one whose live partition carries a
  date suffix that is no calendar date.\<close>

definition archived_world :: "int world" where
  "archived_world =
     \<lparr>dirs = {''/q/3050''},
      files = [''/q/3050/72030_2024fy.csv'' \<mapsto> Csv [(''2025-03-19'', 1), (''2025-03-20'', 2)]],
      file_map = [''72030'' \<mapsto> [''/q/3050/72030_2024fy.csv'']],
      trace = []\<rparr>"

definition feb30_world :: "int world" where
  "feb30_world =
     \<lparr>dirs = {''/q/3050''},
      files = [''/q/3050/72030_2024fy_20250230.csv'' \<mapsto> Csv [(''2025-02-27'', 1), (''2025-02-28'', 2)]],
      file_map = [''72030'' \<mapsto> [''/q/3050/72030_2024fy_20250230.csv'']],
      trace = []\<rparr>"


text \<open>An instrument whose live partition is dated 1 January 999.\<close>

definition year999_world :: "int world" where
  "year999_world =
     \<lparr>dirs = {''/q/3050''},
      files = [''/q/3050/72030_0998fy_09990101.csv'' \<mapsto> Csv [(''0999-01-01'', 1)]],
      file_map = [''72030'' \<mapsto> [''/q/3050/72030_0998fy_09990101.csv'']],
      trace = []\<rparr>"

text \<open>An upstream API whose rows overlap the archived ones on 20 March 2025.\<close>

definition api_overlap :: "string \<Rightarrow> string \<Rightarrow> string \<Rightarrow> pyexc + int table" where
  "api_overlap code from_date to_date = Inr [(''2025-03-21'', 3), (''2025-03-20'', 20)]"

text \<open>An upstream API whose rows straddle the start of fiscal year 2025.\<close>

definition api_rollover :: "string \<Rightarrow> string \<Rightarrow> string \<Rightarrow> pyexc + int table" where
  "api_rollover code from_date to_date =
     Inr [(''2025-03-28'', 4), (''2025-04-01'', 7), (''2025-04-03'', 9)]"


section \<open>Properties\<close>

subsection \<open>Fiscal year\<close>

text \<open>
  C8. The fiscal year of a date is its calendar year when the month is April or later and the
  calendar year minus one when the month is January through March. Hence a date has fiscal
  year \<open>Y\<close> exactly when it lies between April 1 of \<open>Y\<close> and March 31 of \<open>Y + 1\<close>.
\<close>

theorem get_current_fy_rule:
  "(4 \<le> month d \<longrightarrow> get_current_fy d = year d) \<and>
   (1 \<le> month d \<and> month d \<le> 3 \<longrightarrow> get_current_fy d = year d - 1) \<and>
   (valid_date d \<longrightarrow>
      (get_current_fy d = Y \<longleftrightarrow>
         date_le (mk_date Y 4 1) d \<and> date_le d (mk_date (Y + 1) 3 31)))"
  by (auto simp: get_current_fy_def valid_date_def date_le_def mk_date_def days_in_month_def
      split: if_splits)

theorem get_current_fy_rule_witness:
  "get_current_fy (mk_date 2025 4 1) = 2025 \<and> get_current_fy (mk_date 2025 3 31) = 2024 \<and>
   valid_date (mk_date 2025 3 31) \<and>
   date_le (mk_date 2024 4 1) (mk_date 2025 3 31) \<and>
   date_le (mk_date 2025 3 31) (mk_date (2024 + 1) 3 31)"
  using get_current_fy_rule [of "mk_date 2025 4 1" 2025]
    get_current_fy_rule [of "mk_date 2025 3 31" 2024]
  by (simp add: mk_date_def valid_date_def days_in_month_def date_le_def)

subsection \<open>The repository scan\<close>

lemma endswith_iff: "endswith s sfx \<longleftrightarrow> (\<exists>u. s = u @ sfx)"
proof
  assume "endswith s sfx"
  then have "s = take (length s - length sfx) s @ sfx"
    by (metis append_take_drop_id endswith_def)
  then show "\<exists>u. s = u @ sfx" ..
next
  assume "\<exists>u. s = u @ sfx"
  then show "endswith s sfx" by (auto simp: endswith_def)
qed

lemma endswith_append: "endswith p sfx \<Longrightarrow> endswith (x @ p) sfx"
  by (metis append.assoc endswith_iff)

lemma endswith_join:
  assumes e: "endswith f sfx" and ne: "f \<noteq> []"
  shows "endswith (os_path_join root f) sfx"
proof (cases f)
  case Nil
  with ne show ?thesis by simp
next
  case (Cons c cs)
  have "os_path_join root f = f \<or> os_path_join root f = root @ f \<or>
        os_path_join root f = (root @ ''/'') @ f"
    using Cons by (simp add: os_path_join_def)
  with e show ?thesis
    by (metis endswith_append)
qed

lemma csv_not_tmp: "endswith p ''.csv'' \<Longrightarrow> \<not> endswith p ''.tmp''"
  by (auto simp: endswith_iff)

lemma csv_only_index_file: "csv_only fm \<Longrightarrow> csv_only (index_file root fm filename)"
proof (cases "endswith filename ''.csv''")
  case False
  assume "csv_only fm"
  with False show ?thesis by (simp add: index_file_def)
next
  case True
  assume inv: "csv_only fm"
  from True have ne: "filename \<noteq> []" by (auto simp: endswith_def)
  from True ne have e: "endswith (os_path_join root filename) ''.csv''" by (rule endswith_join)
  show ?thesis
    using inv e True
    by (auto simp: index_file_def csv_only_def Let_def split: list.splits option.splits if_splits)
qed

lemma csv_only_files:
  "csv_only fm \<Longrightarrow> csv_only (fold (\<lambda>filename fm'. index_file root fm' filename) fs fm)"
  by (induction fs arbitrary: fm) (auto intro: csv_only_index_file)

lemma csv_only_walk:
  "csv_only fm \<Longrightarrow>
   csv_only (fold (\<lambda>(root, fs) fm. fold (\<lambda>filename fm'. index_file root fm' filename) fs fm) walk fm)"
  by (induction walk arbitrary: fm) (auto intro: csv_only_files)

lemma csv_only_scan: "csv_only (scan_files walk)"
  unfolding scan_files_def by (rule csv_only_walk) (simp add: csv_only_def)

text \<open>
  C9. Every path the repository scan puts into the index ends in \<open>.csv\<close>. No indexed
  path ends in \<open>.tmp\<close>, and none is the temporary path \<open>filepath + ".tmp"\<close> of an atomic
  save, whatever the target: a temporary file left behind by an interrupted save is never
  taken for a partition.
\<close>

theorem scan_files_indexes_csv_only:
  assumes "scan_files walk code = Some paths" and "p \<in> set paths"
  shows "endswith p ''.csv'' \<and> \<not> endswith p ''.tmp'' \<and> p \<noteq> temp_path filepath"
proof -
  have "csv_only (scan_files walk)" by (rule csv_only_scan)
  with assms have c: "endswith p ''.csv''" by (auto simp: csv_only_def)
  then have t: "\<not> endswith p ''.tmp''" by (rule csv_not_tmp)
  have "endswith (temp_path filepath) ''.tmp''" by (simp add: temp_path_def endswith_def)
  with t have "p \<noteq> temp_path filepath" by auto
  with c t show ?thesis by simp
qed

theorem scan_files_indexes_csv_only_witness:
  "scan_files [(''/q/3050'', [''72030_2024fy_20250115.csv'', ''72030_2024fy_20250116.csv.tmp''])]
       ''72030'' = Some [''/q/3050/72030_2024fy_20250115.csv''] \<and>
   ''/q/3050/72030_2024fy_20250115.csv'' \<in> set [''/q/3050/72030_2024fy_20250115.csv''] \<and>
   endswith ''/q/3050/72030_2024fy_20250115.csv'' ''.csv'' \<and>
   \<not> endswith ''/q/3050/72030_2024fy_20250115.csv'' ''.tmp'' \<and>
   ''/q/3050/72030_2024fy_20250115.csv'' \<noteq> temp_path ''/q/3050/72030_2024fy_20250116.csv''"
proof -
  have s: "scan_files [(''/q/3050'', [''72030_2024fy_20250115.csv'', ''72030_2024fy_20250116.csv.tmp''])]
       ''72030'' = Some [''/q/3050/72030_2024fy_20250115.csv'']"
    by (simp add: scan_files_def index_file_def endswith_def os_path_join_def)
  have m: "''/q/3050/72030_2024fy_20250115.csv'' \<in> set [''/q/3050/72030_2024fy_20250115.csv'']"
    by simp
  from scan_files_indexes_csv_only [OF s m, of "''/q/3050/72030_2024fy_20250116.csv''"] s m
  show ?thesis by simp
qed

subsection \<open>Latest-partition lookup\<close>

lemma with_keys_map:
  "with_keys k xs = Inr kxs \<Longrightarrow> map snd kxs = xs \<and> (\<forall>(v, x) \<in> set kxs. k x = Inr v)"
  by (induction xs arbitrary: kxs) (auto split: sum.splits)

lemma sorted_le_last:
  assumes "sorted (xs :: int list)" and "x \<in> set xs"
  shows "x \<le> last xs"
proof -
  from assms(2) have ne: "xs \<noteq> []" by auto
  then have "xs = butlast xs @ [last xs]" by simp
  then have "sorted (butlast xs @ [last xs])" and "x \<in> set (butlast xs @ [last xs])"
    using assms by simp_all
  then show ?thesis by (auto simp: sorted_append)
qed

lemma sorted_reverse_head:
  assumes "kxs \<noteq> []"
  shows "\<exists>k f rest. sorted_reverse kxs = f # rest \<and> (k, f) \<in> set kxs \<and>
           (\<forall>(k', g) \<in> set kxs. k' \<le> k)"
proof -
  let ?s = "sort_key fst (rev kxs)"
  have ne: "?s \<noteq> []" using assms by (metis length_0_conv length_rev length_sort)
  have srt: "sorted (map fst ?s)" by (rule sorted_sort_key)
  have st: "set ?s = set kxs" by simp
  obtain k f where l: "last ?s = (k, f)" by (cases "last ?s")
  have mem: "(k, f) \<in> set kxs" using last_in_set [OF ne] l st by metis
  have mx: "\<forall>(k', g) \<in> set kxs. k' \<le> k"
  proof (clarify)
    fix k' g assume "(k', g) \<in> set kxs"
    then have "k' \<in> set (map fst ?s)" using st by force
    moreover have "last (map fst ?s) = k" using ne l by (simp add: last_map)
    ultimately show "k' \<le> k" using srt ne
      by (metis sorted_le_last)
  qed
  obtain bl where bl: "?s = bl @ [(k, f)]" using ne l by (metis append_butlast_last_id)
  have "sorted_reverse kxs = f # map snd (rev bl)"
    unfolding sorted_reverse_def bl by simp
  with mem mx show ?thesis by blast
qed

text \<open>
  When every key can be computed, the lookup returns a partition of the instrument whose key
  is the largest; a name without an eight-digit suffix has key zero.
\<close>

lemma get_latest_file_maximal:
  assumes "fm code = Some fs" and "fs \<noteq> []"
    and "with_keys sort_key_path fs = Inr kfs"
  shows "\<exists>k f. get_latest_file fm code = Inr (Some f) \<and> f \<in> set fs \<and>
           sort_key_path f = Inr k \<and>
           (\<forall>g \<in> set fs. \<exists>k'. sort_key_path g = Inr k' \<and> k' \<le> k)"
proof -
  from with_keys_map [OF assms(3)]
  have m: "map snd kfs = fs" and ks: "\<forall>(v, x) \<in> set kfs. sort_key_path x = Inr v" by auto
  from m assms(2) have "kfs \<noteq> []" by auto
  from sorted_reverse_head [OF this] obtain k f rest where
    h: "sorted_reverse kfs = f # rest" "(k, f) \<in> set kfs" "\<forall>(k', g) \<in> set kfs. k' \<le> k"
    by blast
  have g: "get_latest_file fm code = Inr (Some f)"
    using assms h(1) by (simp add: get_latest_file_def)
  have fin: "f \<in> set fs" using h(2) m by force
  have kf: "sort_key_path f = Inr k" using ks h(2) by auto
  have "\<forall>g \<in> set fs. \<exists>k'. sort_key_path g = Inr k' \<and> k' \<le> k"
  proof
    fix g assume "g \<in> set fs"
    with m obtain k' where "(k', g) \<in> set kfs" by force
    with ks h(3) show "\<exists>k'. sort_key_path g = Inr k' \<and> k' \<le> k" by auto
  qed
  with g fin kf show ?thesis by blast
qed

lemma sort_key_path_archived: "sort_key_path ''/q/3050/72030_2024fy.csv'' = Inr 0"
  by (simp add: sort_key_path_def os_path_basename_def last_item_def first_item_def isdigit_def)

lemma sort_key_path_live: "sort_key_path ''/q/3050/72030_2024fy_20250115.csv'' = Inr 20250115"
  by (simp add: sort_key_path_def os_path_basename_def last_item_def first_item_def isdigit_def
      isdigit_char_def is_dec_def py_int_def strip_def is_space_def dec_literal_def digit_val_def)

lemma get_latest_file_prefers_live:
  "get_latest_file [''72030'' \<mapsto> [''/q/3050/72030_2024fy.csv'', ''/q/3050/72030_2024fy_20250115.csv'']]
     ''72030'' = Inr (Some ''/q/3050/72030_2024fy_20250115.csv'')"
  by (simp add: get_latest_file_def sort_key_path_archived sort_key_path_live sorted_reverse_def)

text \<open>
  C5. The lookup is to return the partition with the largest embedded date and never to
  throw on a malformed name. It does throw: \<open>sort_key\<close> guards \<open>int\<close> with
  \<open>str.isdigit\<close>, which also accepts the superscript digits that \<open>int\<close> rejects. For
  an instrument with a well-formed live partition and one file whose date suffix is eight
  times the character U+00B2, \<open>get_latest_file\<close> raises \<open>ValueError\<close>.
\<close>

theorem get_latest_file_raises_on_superscript_digits:
  "get_latest_file
     [''72030'' \<mapsto>
        [''/q/3050/72030_2024fy_20250115.csv'',
         ''/q/3050/72030_2024fy_'' @
           [CHR 0xB2, CHR 0xB2, CHR 0xB2, CHR 0xB2, CHR 0xB2, CHR 0xB2, CHR 0xB2, CHR 0xB2] @
           ''.csv'']]
     ''72030'' = Inl ValueError"
proof -
  have "sort_key_path (''/q/3050/72030_2024fy_'' @
           [CHR 0xB2, CHR 0xB2, CHR 0xB2, CHR 0xB2, CHR 0xB2, CHR 0xB2, CHR 0xB2, CHR 0xB2] @
           ''.csv'') = Inl ValueError"
    by (simp add: sort_key_path_def os_path_basename_def last_item_def first_item_def isdigit_def
        isdigit_char_def is_dec_def py_int_def strip_def is_space_def dec_literal_def)
  then show ?thesis
    by (simp add: get_latest_file_def sort_key_path_live)
qed

subsection \<open>Date strings and the fetch window\<close>

lemma of_char_digit_char: "n < 10 \<Longrightarrow> of_char (digit_char n) = (48 + n :: nat)"
  by (simp add: digit_char_def)

lemma digit_char_eq_iff: "n < 10 \<Longrightarrow> digit_char n = c \<longleftrightarrow> 48 + n = (of_char c :: nat)"
  by (metis of_char_digit_char of_char_eq_iff)

lemma digit_char_inj: "n < 10 \<Longrightarrow> m < 10 \<Longrightarrow> digit_char n = digit_char m \<longleftrightarrow> n = m"
  by (simp add: digit_char_eq_iff of_char_digit_char)

lemma digit_char_less: "n < 10 \<Longrightarrow> m < 10 \<Longrightarrow> digit_char n < digit_char m \<longleftrightarrow> n < m"
  by (simp add: less_char_def of_char_digit_char)

lemma is_dec_digit_char: "n < 10 \<Longrightarrow> is_dec (digit_char n)"
  by (simp add: is_dec_def less_eq_char_def of_char_digit_char)

lemma digit_val_digit_char: "n < 10 \<Longrightarrow> digit_val (digit_char n) = n"
  by (simp add: digit_val_def of_char_digit_char)

lemma digit_char_digit_val: "is_dec c \<Longrightarrow> digit_char (digit_val c) = c"
  by (simp add: digit_char_def digit_val_def is_dec_def less_eq_char_def char_of_eq_iff take_bit_eq_mod)

lemma digit_val_less: "is_dec c \<Longrightarrow> digit_val c < 10"
  by (auto simp: digit_val_def is_dec_def less_eq_char_def)

lemma in_range_digit_char:
  "n < 10 \<Longrightarrow> in_range lo hi (digit_char n) \<longleftrightarrow> of_char lo \<le> 48 + n \<and> 48 + n \<le> (of_char hi :: nat)"
  by (simp add: in_range_def less_eq_char_def of_char_digit_char)

lemma strip_prefix_append: "strip_prefix sep (sep @ r) = Some r"
  by (simp add: strip_prefix_def)


lemma digits2: "q < 100 \<Longrightarrow> 10 * (q div 10 mod 10) + q mod 10 = (q::nat)"
  by (simp add: less_mult_imp_div_less)

lemma digits4:
  assumes a: "n < 10000"
  shows "1000 * (n div 1000 mod 10) + 100 * (n div 100 mod 10) + 10 * (n div 10 mod 10) + n mod 10
           = (n::nat)"
proof -
  define q1 where "q1 = n div 10"
  define q2 where "q2 = q1 div 10"
  define q3 where "q3 = q2 div 10"
  have e1: "n = 10 * q1 + n mod 10" by (simp add: q1_def)
  have e2: "q1 = 10 * q2 + q1 mod 10" by (simp add: q2_def)
  have e3: "q2 = 10 * q3 + q2 mod 10" by (simp add: q3_def)
  have s1: "n div 100 = q2" by (simp add: q2_def q1_def div_mult2_eq)
  have s2: "n div 1000 = q3" by (simp add: q3_def q2_def q1_def div_mult2_eq)
  have s3: "q3 mod 10 = q3" using a by (simp add: s2 [symmetric] less_mult_imp_div_less)
  have "1000 * q3 + 100 * (q2 mod 10) + 10 * (q1 mod 10) + n mod 10 = n"
    using e1 e2 e3 by linarith
  then show ?thesis by (simp add: s1 s2 s3 q1_def [symmetric])
qed

lemma re_year_pad4:
  assumes "0 \<le> y" "y \<le> 9999"
  shows "re_year (pad4 y @ r) = Some (y, r)"
proof -
  have lt: "nat y < 10000" using assms by simp
  have "int (1000 * (nat y div 1000 mod 10) + 100 * (nat y div 100 mod 10) +
          10 * (nat y div 10 mod 10) + nat y mod 10) = int (nat y)"
    by (simp only: digits4 [OF lt])
  then have e: "int (1000 * (nat y div 1000 mod 10) + 100 * (nat y div 100 mod 10) +
          10 * (nat y div 10 mod 10) + nat y mod 10) = y"
    using assms by simp
  show ?thesis using e
    by (simp add: re_year_def pad4_def is_dec_digit_char digit_val_digit_char)
qed

lemma re_month_pad2:
  assumes "1 \<le> m" "m \<le> 12"
  shows "\<exists>rest. re_month (pad2 m @ r) = (m, r) # rest"
proof (cases "m < 10")
  case True
  then have "nat m div 10 mod 10 = 0" "nat m mod 10 = nat m" "nat m < 10" "1 \<le> nat m"
    using assms by auto
  then show ?thesis using assms
    by (simp add: re_month_def pad2_def in_range_digit_char digit_char_eq_iff digit_val_digit_char)
next
  case False
  define k where "k = nat m - 10"
  have m: "nat m = 10 + k" "k < 3" using False assms by (auto simp: k_def)
  have "nat m div 10 mod 10 = 1" "nat m mod 10 = k" using m by simp_all
  then show ?thesis using assms False m
    by (simp add: re_month_def pad2_def in_range_digit_char digit_char_eq_iff digit_val_digit_char)
qed

lemma re_day_pad2:
  assumes "1 \<le> d" "d \<le> 31"
  shows "re_day (pad2 d @ r) = Some (d, r)"
proof -
  define n where "n = nat d"
  define a where "a = n div 10"
  define b where "b = n mod 10"
  have n: "1 \<le> n" "n \<le> 31" "int n = d" using assms by (simp_all add: n_def)
  have nab: "n = 10 * a + b" by (simp add: a_def b_def)
  have b: "b < 10" by (simp add: b_def)
  have a3: "a \<le> 3" using n nab by linarith
  have am: "n div 10 mod 10 = a" using a3 by (simp add: a_def)
  have p: "pad2 d = [digit_char a, digit_char b]"
    by (simp add: pad2_def n_def [symmetric] am b_def)
  have val: "int (10 * a + b) = d" using n nab by simp
  consider "a = 3" | "a = 1 \<or> a = 2" | "a = 0" using a3 by linarith
  then show ?thesis
  proof cases
    case 1
    with n nab have "b \<le> 1" by linarith
    with 1 b val show ?thesis
      by (simp add: p re_day_def in_range_digit_char digit_char_eq_iff digit_val_digit_char
          is_dec_digit_char)
  next
    case 2
    with b val show ?thesis
      by (auto simp add: p re_day_def in_range_digit_char digit_char_eq_iff digit_val_digit_char
          is_dec_digit_char)
  next
    case 3
    with n nab have "1 \<le> b" by linarith
    with 3 b val show ?thesis
      by (simp add: p re_day_def in_range_digit_char digit_char_eq_iff digit_val_digit_char
          is_dec_digit_char)
  qed
qed

lemma strptime_zero_padded:
  assumes "valid_date d"
  shows "strptime sep (zero_padded sep d) = Inr d"
proof -
  from assms have y: "0 \<le> year d" "year d \<le> 9999" and m: "1 \<le> month d" "month d \<le> 12"
    and dd: "1 \<le> day d" "day d \<le> 31"
    by (auto simp: valid_date_def days_in_month_def split: if_splits)
  obtain rest where rm: "re_month (pad2 (month d) @ sep @ pad2 (day d)) = (month d, sep @ pad2 (day d)) # rest"
    using re_month_pad2 [OF m] by blast
  have rd: "re_day (pad2 (day d)) = Some (day d, [])" using re_day_pad2 [OF dd, of "[]"] by simp
  have ry: "re_year (zero_padded sep d) = Some (year d, sep @ pad2 (month d) @ sep @ pad2 (day d))"
    using re_year_pad4 [OF y] by (simp add: zero_padded_def)
  have md: "mk_date (year d) (month d) (day d) = d" by (simp add: mk_date_def)
  show ?thesis using assms
    by (simp add: strptime_def ry strip_prefix_append rm rd md)
qed

lemma lex2:
  "a1 < 10 \<Longrightarrow> a0 < 10 \<Longrightarrow> b1 < 10 \<Longrightarrow> b0 < 10 \<Longrightarrow>
   (a1 < b1 \<or> a1 = b1 \<and> a0 < b0) \<longleftrightarrow> (10 * a1 + a0 < 10 * b1 + (b0::nat))"
  by arith

lemma lex4:
  "a3 < 10 \<Longrightarrow> a2 < 10 \<Longrightarrow> a1 < 10 \<Longrightarrow> a0 < 10 \<Longrightarrow> b3 < 10 \<Longrightarrow> b2 < 10 \<Longrightarrow> b1 < 10 \<Longrightarrow> b0 < 10 \<Longrightarrow>
   (a3 < b3 \<or> a3 = b3 \<and> (a2 < b2 \<or> a2 = b2 \<and> (a1 < b1 \<or> a1 = b1 \<and> a0 < b0))) \<longleftrightarrow>
   (1000 * a3 + 100 * a2 + 10 * a1 + a0 < 1000 * b3 + 100 * b2 + 10 * b1 + (b0::nat))"
  by arith

lemma list_less_append:
  "length xs = length ys \<Longrightarrow> (xs @ u < ys @ v) = (xs < ys \<or> xs = ys \<and> u < (v :: 'a :: linorder list))"
  by (induction xs ys rule: list_induct2) auto

lemma list_le_append:
  "length xs = length ys \<Longrightarrow> (xs @ u \<le> ys @ v) = (xs < ys \<or> xs = ys \<and> u \<le> (v :: 'a :: linorder list))"
  by (induction xs ys rule: list_induct2) auto

lemma pad2_less:
  assumes "0 \<le> a" "a < 100" "0 \<le> b" "b < 100"
  shows "pad2 a < pad2 b \<longleftrightarrow> a < b" and "pad2 a = pad2 b \<longleftrightarrow> a = b"
proof -
  define na where "na = nat a"
  define nb where "nb = nat b"
  have r: "na < 100" "nb < 100" "a = int na" "b = int nb" using assms by (simp_all add: na_def nb_def)
  have da: "na div 10 mod 10 = na div 10" "na div 10 < 10" "na mod 10 < 10" using r by auto
  have db: "nb div 10 mod 10 = nb div 10" "nb div 10 < 10" "nb mod 10 < 10" using r by auto
  have ea: "10 * (na div 10) + na mod 10 = na" by simp
  have eb: "10 * (nb div 10) + nb mod 10 = nb" by simp
  have "pad2 a < pad2 b \<longleftrightarrow>
      (na div 10 < nb div 10 \<or> na div 10 = nb div 10 \<and> na mod 10 < nb mod 10)"
    by (simp add: pad2_def na_def [symmetric] nb_def [symmetric] da db digit_char_less digit_char_inj)
  also have "\<dots> \<longleftrightarrow> na < nb"
    using lex2 [OF da(2) da(3) db(2) db(3)] ea eb by simp
  finally show "pad2 a < pad2 b \<longleftrightarrow> a < b" using r by simp
  have "pad2 a = pad2 b \<longleftrightarrow> (na div 10 = nb div 10 \<and> na mod 10 = nb mod 10)"
    by (simp add: pad2_def na_def [symmetric] nb_def [symmetric] da db digit_char_inj)
  also have "\<dots> \<longleftrightarrow> na = nb" using ea eb by metis
  finally show "pad2 a = pad2 b \<longleftrightarrow> a = b" using r by simp
qed

lemma pad4_less:
  assumes "0 \<le> a" "a < 10000" "0 \<le> b" "b < 10000"
  shows "pad4 a < pad4 b \<longleftrightarrow> a < b" and "pad4 a = pad4 b \<longleftrightarrow> a = b"
proof -
  define na where "na = nat a"
  define nb where "nb = nat b"
  have r: "na < 10000" "nb < 10000" "a = int na" "b = int nb"
    using assms by (simp_all add: na_def nb_def)
  define a3 where "a3 = na div 1000 mod 10"
  define a2 where "a2 = na div 100 mod 10"
  define a1 where "a1 = na div 10 mod 10"
  define a0 where "a0 = na mod 10"
  define b3 where "b3 = nb div 1000 mod 10"
  define b2 where "b2 = nb div 100 mod 10"
  define b1 where "b1 = nb div 10 mod 10"
  define b0 where "b0 = nb mod 10"
  have la: "a3 < 10" "a2 < 10" "a1 < 10" "a0 < 10" by (simp_all add: a3_def a2_def a1_def a0_def)
  have lb: "b3 < 10" "b2 < 10" "b1 < 10" "b0 < 10" by (simp_all add: b3_def b2_def b1_def b0_def)
  have ea: "1000 * a3 + 100 * a2 + 10 * a1 + a0 = na"
    unfolding a3_def a2_def a1_def a0_def by (rule digits4 [OF r(1)])
  have eb: "1000 * b3 + 100 * b2 + 10 * b1 + b0 = nb"
    unfolding b3_def b2_def b1_def b0_def by (rule digits4 [OF r(2)])
  have pa: "pad4 a = [digit_char a3, digit_char a2, digit_char a1, digit_char a0]"
    by (simp add: pad4_def na_def a3_def a2_def a1_def a0_def)
  have pb: "pad4 b = [digit_char b3, digit_char b2, digit_char b1, digit_char b0]"
    by (simp add: pad4_def nb_def b3_def b2_def b1_def b0_def)
  have "pad4 a < pad4 b \<longleftrightarrow>
      (a3 < b3 \<or> a3 = b3 \<and> (a2 < b2 \<or> a2 = b2 \<and> (a1 < b1 \<or> a1 = b1 \<and> a0 < b0)))"
    by (simp add: pa pb la lb digit_char_less digit_char_inj)
  also have "\<dots> \<longleftrightarrow> na < nb"
    using lex4 [OF la lb] ea eb by simp
  finally show "pad4 a < pad4 b \<longleftrightarrow> a < b" using r by simp
  have "pad4 a = pad4 b \<longleftrightarrow> (a3 = b3 \<and> a2 = b2 \<and> a1 = b1 \<and> a0 = b0)"
    by (simp add: pa pb la lb digit_char_inj)
  also have "\<dots> \<longleftrightarrow> na = nb"
  proof
    assume "a3 = b3 \<and> a2 = b2 \<and> a1 = b1 \<and> a0 = b0"
    with ea eb show "na = nb" by simp
  next
    assume "na = nb"
    then show "a3 = b3 \<and> a2 = b2 \<and> a1 = b1 \<and> a0 = b0"
      by (simp add: a3_def a2_def a1_def a0_def b3_def b2_def b1_def b0_def)
  qed
  finally show "pad4 a = pad4 b \<longleftrightarrow> a = b" using r by simp
qed

lemma digits4_unique:
  assumes la: "a3 < 10" "a2 < 10" "a1 < 10" "a0 < 10" and lb: "b3 < 10" "b2 < 10" "b1 < 10" "b0 < 10"
    and eq: "1000 * a3 + 100 * a2 + 10 * a1 + a0 = 1000 * b3 + 100 * b2 + 10 * b1 + (b0::nat)"
  shows "a3 = b3 \<and> a2 = b2 \<and> a1 = b1 \<and> a0 = b0"
proof -
  have 1: "\<not> (a3 < b3 \<or> a3 = b3 \<and> (a2 < b2 \<or> a2 = b2 \<and> (a1 < b1 \<or> a1 = b1 \<and> a0 < b0)))"
    using lex4 [OF la lb] eq by simp
  have 2: "\<not> (b3 < a3 \<or> b3 = a3 \<and> (b2 < a2 \<or> b2 = a2 \<and> (b1 < a1 \<or> b1 = a1 \<and> b0 < a0)))"
    using lex4 [OF lb la] eq by simp
  from 1 2 have "a3 = b3" by auto
  moreover from 1 2 this have "a2 = b2" by auto
  moreover from 1 2 calculation have "a1 = b1" by auto
  moreover from 1 2 calculation have "a0 = b0" by auto
  ultimately show ?thesis by simp
qed

lemma pad4_digits:
  assumes "is_dec a" "is_dec b" "is_dec c" "is_dec d"
  shows "pad4 (int (1000 * digit_val a + 100 * digit_val b + 10 * digit_val c + digit_val d)) = [a, b, c, d]"
proof -
  define n where "n = 1000 * digit_val a + 100 * digit_val b + 10 * digit_val c + digit_val d"
  have l: "digit_val a < 10" "digit_val b < 10" "digit_val c < 10" "digit_val d < 10"
    using assms by (simp_all add: digit_val_less)
  then have n: "n < 10000" by (simp add: n_def)
  have m: "n div 1000 mod 10 < 10" "n div 100 mod 10 < 10" "n div 10 mod 10 < 10" "n mod 10 < 10"
    by simp_all
  have "1000 * (n div 1000 mod 10) + 100 * (n div 100 mod 10) + 10 * (n div 10 mod 10) + n mod 10 = n"
    by (rule digits4 [OF n])
  also have "n = 1000 * digit_val a + 100 * digit_val b + 10 * digit_val c + digit_val d"
    by (rule n_def)
  finally have e: "1000 * (n div 1000 mod 10) + 100 * (n div 100 mod 10) + 10 * (n div 10 mod 10) + n mod 10
      = 1000 * digit_val a + 100 * digit_val b + 10 * digit_val c + digit_val d" .
  have q: "n div 1000 mod 10 = digit_val a \<and> n div 100 mod 10 = digit_val b \<and>
      n div 10 mod 10 = digit_val c \<and> n mod 10 = digit_val d"
    by (rule digits4_unique [OF m l e])
  have "pad4 (int n) = [digit_char (n div 1000 mod 10), digit_char (n div 100 mod 10),
      digit_char (n div 10 mod 10), digit_char (n mod 10)]"
    by (simp only: pad4_def nat_int)
  also have "\<dots> = [a, b, c, d]"
    using q assms by (simp only: digit_char_digit_val)
  finally show ?thesis unfolding n_def .
qed

lemma pad2_digits:
  assumes "is_dec a" "is_dec b"
  shows "pad2 (int (10 * digit_val a + digit_val b)) = [a, b]"
proof -
  define n where "n = 10 * digit_val a + digit_val b"
  have l: "digit_val a < 10" "digit_val b < 10" using assms by (simp_all add: digit_val_less)
  then have q: "n div 10 mod 10 = digit_val a" "n mod 10 = digit_val b" by (simp_all add: n_def)
  have "pad2 (int n) = [digit_char (n div 10 mod 10), digit_char (n mod 10)]"
    by (simp only: pad2_def nat_int)
  also have "\<dots> = [a, b]"
    using q assms by (simp only: digit_char_digit_val)
  finally show ?thesis unfolding n_def .
qed

lemma valid_yyyymmdd_zero_padded:
  assumes "valid_yyyymmdd s"
  shows "\<exists>d. valid_date d \<and> s = zero_padded [] d"
proof -
  from assms obtain a b c d e f g h where s: "s = [a, b, c, d, e, f, g, h]"
    by (auto simp: valid_yyyymmdd_def split: list.splits)
  let ?D = "mk_date (int (1000 * digit_val a + 100 * digit_val b + 10 * digit_val c + digit_val d))
               (int (10 * digit_val e + digit_val f)) (int (10 * digit_val g + digit_val h))"
  from assms s have dec: "is_dec a" "is_dec b" "is_dec c" "is_dec d" "is_dec e" "is_dec f" "is_dec g" "is_dec h"
    and v: "valid_date ?D"
    by (simp_all add: valid_yyyymmdd_def)
  have "zero_padded [] ?D = s"
    unfolding s zero_padded_def mk_date_def
    using pad4_digits [OF dec(1-4)] pad2_digits [OF dec(5,6)] pad2_digits [OF dec(7,8)]
    by simp
  with v show ?thesis by metis
qed

lemma length_pad: "length (pad4 y) = 4" "length (pad2 m) = 2"
  by (simp_all add: pad4_def pad2_def)

lemma zero_padded_less:
  assumes "valid_date a" "valid_date b"
  shows "zero_padded [] a < zero_padded [] b \<longleftrightarrow> date_le a b \<and> a \<noteq> b"
    and "zero_padded [] a \<le> zero_padded [] b \<longleftrightarrow> date_le a b"
proof -
  from assms have ra: "0 \<le> year a" "year a < 10000" "0 \<le> month a" "month a < 100" "0 \<le> day a" "day a < 100"
    and rb: "0 \<le> year b" "year b < 10000" "0 \<le> month b" "month b < 100" "0 \<le> day b" "day b < 100"
    by (auto simp: valid_date_def days_in_month_def split: if_splits)
  note y = pad4_less [OF ra(1,2) rb(1,2)]
  note m = pad2_less [OF ra(3,4) rb(3,4)]
  note d = pad2_less [OF ra(5,6) rb(5,6)]
  have eq: "a = b \<longleftrightarrow> year a = year b \<and> month a = month b \<and> day a = day b" by auto
  have l: "zero_padded [] a < zero_padded [] b \<longleftrightarrow>
      year a < year b \<or> year a = year b \<and> (month a < month b \<or> month a = month b \<and> day a < day b)"
    by (simp add: zero_padded_def list_less_append length_pad y m d)
  have e: "zero_padded [] a = zero_padded [] b \<longleftrightarrow> a = b"
    unfolding eq by (simp add: zero_padded_def length_pad y m d)
  show lt: "zero_padded [] a < zero_padded [] b \<longleftrightarrow> date_le a b \<and> a \<noteq> b"
    unfolding l eq date_le_def by linarith
  have "zero_padded [] a \<le> zero_padded [] b \<longleftrightarrow> zero_padded [] a < zero_padded [] b \<or> zero_padded [] a = zero_padded [] b"
    by (rule le_less)
  also have "\<dots> \<longleftrightarrow> (date_le a b \<and> a \<noteq> b) \<or> a = b" unfolding lt e ..
  also have "\<dots> \<longleftrightarrow> date_le a b" by (auto simp: date_le_def)
  finally show "zero_padded [] a \<le> zero_padded [] b \<longleftrightarrow> date_le a b" .
qed

lemma add_one_day_least:
  assumes "valid_date a" "valid_date b" "date_le a b" "a \<noteq> b"
  shows "\<exists>a'. add_one_day a = Inr a' \<and> valid_date a' \<and> date_le a' b"
proof -
  have eq: "a = b \<longleftrightarrow> year a = year b \<and> month a = month b \<and> day a = day b" by auto
  have dim: "\<And>y m. 28 \<le> days_in_month y m" by (simp add: days_in_month_def)
  show ?thesis
  proof (cases "day a < days_in_month (year a) (month a)")
    case True
    with assms show ?thesis unfolding eq
      by (auto simp: add_one_day_def valid_date_def date_le_def mk_date_def)
  next
    case False
    note F = this
    show ?thesis
    proof (cases "month a < 12")
      case True
      with F assms dim [of "year a" "month a + 1"] show ?thesis unfolding eq
        by (auto simp: add_one_day_def valid_date_def date_le_def mk_date_def)
    next
      case False
      with F assms dim [of "year a + 1" 1] show ?thesis unfolding eq
        by (auto simp: add_one_day_def valid_date_def date_le_def mk_date_def)
    qed
  qed
qed

lemma digit_char_simps:
  "digit_char 0 = CHR ''0''" "digit_char 1 = CHR ''1''" "digit_char (Suc 0) = CHR ''1''"
  "digit_char 2 = CHR ''2''"
  "digit_char 3 = CHR ''3''" "digit_char 4 = CHR ''4''" "digit_char 5 = CHR ''5''"
  "digit_char 6 = CHR ''6''" "digit_char 7 = CHR ''7''" "digit_char 8 = CHR ''8''"
  "digit_char 9 = CHR ''9''"
  by (simp_all add: digit_char_def char_of_eq_iff)

lemma dec_of_nat_4digits:
  assumes "1000 \<le> n" and "n < 10000"
  shows "dec_of_nat n = [digit_char (n div 1000 mod 10), digit_char (n div 100 mod 10),
                         digit_char (n div 10 mod 10), digit_char (n mod 10)]"
proof -
  define q1 where "q1 = n div 10"
  define q2 where "q2 = q1 div 10"
  define q3 where "q3 = q2 div 10"
  have s1: "n div 100 = q2" by (simp add: q2_def q1_def div_mult2_eq)
  have s2: "n div 1000 = q3" by (simp add: q3_def q2_def q1_def div_mult2_eq)
  have r1: "\<not> n < 10" "\<not> q1 < 10" "\<not> q2 < 10" "q3 < 10"
    using assms unfolding q3_def q2_def q1_def by simp_all
  have "dec_of_nat n = dec_of_nat q1 @ [digit_char (n mod 10)]"
    using r1(1) by (subst dec_of_nat.simps) (simp add: q1_def)
  also have "dec_of_nat q1 = dec_of_nat q2 @ [digit_char (q1 mod 10)]"
    using r1(2) by (subst dec_of_nat.simps) (simp add: q2_def)
  also have "dec_of_nat q2 = dec_of_nat q3 @ [digit_char (q2 mod 10)]"
    using r1(3) by (subst dec_of_nat.simps) (simp add: q3_def)
  also have "dec_of_nat q3 = [digit_char q3]"
    using r1(4) by (subst dec_of_nat.simps) simp
  finally have "dec_of_nat n = [digit_char q3, digit_char (q2 mod 10), digit_char (q1 mod 10),
      digit_char (n mod 10)]" by simp
  moreover have "q3 mod 10 = q3" using r1(4) by simp
  ultimately show ?thesis by (simp add: s1 s2 q1_def [symmetric])
qed

lemma py_str_pad4: "1000 \<le> y \<Longrightarrow> y \<le> 9999 \<Longrightarrow> py_str y = pad4 y"
  using dec_of_nat_4digits [of "nat y"] by (simp add: py_str_def pad4_def)

lemma strftime_zero_padded:
  "1000 \<le> year d \<Longrightarrow> year d \<le> 9999 \<Longrightarrow> strftime sep d = zero_padded sep d"
  by (simp add: strftime_def zero_padded_def py_str_pad4)

lemma add_one_day_year: "add_one_day a = Inr a' \<Longrightarrow> year a \<le> year a'"
  by (auto simp: add_one_day_def mk_date_def split: if_splits)

lemma zero_padded_1000: "zero_padded [] (mk_date 1000 1 1) = ''10000101''"
  by (simp add: zero_padded_def mk_date_def pad4_def pad2_def digit_char_simps)

lemma valid_1000: "valid_date (mk_date 1000 1 1)"
  by (simp add: valid_date_def mk_date_def days_in_month_def)

lemma fetch_window_valid:
  assumes "valid_yyyymmdd last_date" and "valid_yyyymmdd target"
    and "''10000101'' \<le> last_date" and "last_date < target"
  shows "\<exists>from_date. from_date_str last_date = Inr from_date \<and> from_date \<le> target \<and>
           fetch_window last_date target = Inr (Inr from_date)"
proof -
  from valid_yyyymmdd_zero_padded [OF assms(1)] obtain a where
    a: "valid_date a" "last_date = zero_padded [] a" by blast
  from valid_yyyymmdd_zero_padded [OF assms(2)] obtain b where
    b: "valid_date b" "target = zero_padded [] b" by blast
  from assms(3) have "date_le (mk_date 1000 1 1) a"
    unfolding a(2) zero_padded_1000 [symmetric]
    using zero_padded_less(2) [OF valid_1000 a(1)] by simp
  then have ya: "1000 \<le> year a" by (auto simp: date_le_def mk_date_def)
  from assms(4) have "date_le a b \<and> a \<noteq> b"
    unfolding a(2) b(2) using zero_padded_less(1) [OF a(1) b(1)] by simp
  with add_one_day_least [OF a(1) b(1)] obtain a' where
    a': "add_one_day a = Inr a'" "valid_date a'" "date_le a' b" by blast
  have ya': "1000 \<le> year a'" "year a' \<le> 9999"
    using add_one_day_year [OF a'(1)] ya a'(2) by (auto simp: valid_date_def)
  have e: "strftime [] a' = zero_padded [] a'" by (rule strftime_zero_padded [OF ya'])
  have p: "strptime [] last_date = Inr a" unfolding a(2) by (rule strptime_zero_padded [OF a(1)])
  have f: "from_date_str last_date = Inr (strftime [] a')"
    by (simp add: from_date_str_def p a'(1))
  have le: "strftime [] a' \<le> target"
    unfolding b(2) e using zero_padded_less(2) [OF a'(2) b(1)] a'(3) by simp
  have n1: "\<not> target \<le> last_date" using assms(4) by (simp add: not_le)
  have n2: "\<not> target < strftime [] a'" using le by (simp add: not_less)
  have "fetch_window last_date target = Inr (Inr (strftime [] a'))"
    using n1 n2 by (simp add: fetch_window_def f)
  with f le show ?thesis by blast
qed

text \<open>
  C10, for the years in which it holds. For valid \<open>YYYYMMDD\<close> strings from 1 January 1000
  on, with the last-updated date strictly below the target end date, the start of the fetch
  window (the last-updated date plus one day) is computed without an exception and is at most
  the target end date, so lines 274 to 283 yield the window and not \<open>DATE_CALC_ERROR\<close>
  (nor \<open>ALREADY_LATEST\<close>).
\<close>

theorem fetch_window_start_within:
  assumes "valid_yyyymmdd last_date" and "valid_yyyymmdd target"
    and "''10000101'' \<le> last_date" and "last_date < target"
  shows "\<exists>from_date. from_date_str last_date = Inr from_date \<and> from_date \<le> target \<and>
           fetch_window last_date target = Inr (Inr from_date)"
  using assms by (rule fetch_window_valid)

lemma valid_ex1: "valid_yyyymmdd ''20250331''"
  by (simp add: valid_yyyymmdd_def is_dec_def digit_val_def valid_date_def mk_date_def days_in_month_def)
lemma valid_ex2: "valid_yyyymmdd ''20250401''"
  by (simp add: valid_yyyymmdd_def is_dec_def digit_val_def valid_date_def mk_date_def days_in_month_def)

theorem fetch_window_start_within_witness:
  "valid_yyyymmdd ''20250331'' \<and> valid_yyyymmdd ''20250401'' \<and>
   ''10000101'' \<le> ''20250331'' \<and> ''20250331'' < ''20250401'' \<and>
   from_date_str ''20250331'' = Inr ''20250401'' \<and> ''20250401'' \<le> ''20250401'' \<and>
   fetch_window ''20250331'' ''20250401'' = Inr (Inr ''20250401'')"
proof -
  have ge: "''10000101'' \<le> ''20250331''" by simp
  have lt: "''20250331'' < ''20250401''" by simp
  have f: "from_date_str ''20250331'' = Inr ''20250401''"
    by (simp add: from_date_str_def strptime_def re_year_def re_month_def re_day_def strip_prefix_def
        is_dec_def in_range_def digit_val_def valid_date_def mk_date_def days_in_month_def
        add_one_day_def strftime_def pad2_def py_str_def dec_of_nat.simps digit_char_simps)
  from fetch_window_start_within [OF valid_ex1 valid_ex2 ge lt] f valid_ex1 valid_ex2 ge lt
  show ?thesis by auto
qed

subsection \<open>The atomic writer\<close>

lemma temp_path_neq: "filepath \<noteq> temp_path filepath"
  by (simp add: temp_path_def)

lemma cleanup_files:
  "files (cleanup env tp w) q = (if q = tp \<and> \<not> remove_fails env tp then None else files w q)"
  "dirs (cleanup env tp w) = dirs w" "file_map (cleanup env tp w) = file_map w"
  by (auto simp: cleanup_def os_path_exists_def os_remove_def log_def)

lemma atomic_save_result:
  "fst (atomic_save env df filepath w) =
     (if to_csv_outcome env (temp_path filepath) \<noteq> Written \<or> replace_fails env (temp_path filepath)
      then Inl OSError else Inr ())"
  by (cases "to_csv_outcome env (temp_path filepath)")
    (simp_all add: atomic_save_def to_csv_def os_path_exists_def os_replace_def os_rename_def
      log_def Let_def)

lemma atomic_save_failure_frame:
  assumes "atomic_save env df filepath w = (Inl e, w')"
  shows "files w' filepath = files w filepath \<and>
         (\<forall>q. q \<noteq> temp_path filepath \<longrightarrow> files w' q = files w q) \<and>
         (\<not> remove_fails env (temp_path filepath) \<longrightarrow> files w' (temp_path filepath) = None) \<and>
         dirs w' = dirs w \<and> file_map w' = file_map w"
proof -
  note n = temp_path_neq [of filepath]
  show ?thesis
  proof (cases "to_csv_outcome env (temp_path filepath)")
    case Written
    with assms n show ?thesis
      by (auto simp: atomic_save_def to_csv_def os_path_exists_def os_replace_def os_rename_def
          log_def cleanup_files Let_def split: if_splits prod.splits sum.splits)
  next
    case Fails_clean
    with assms n show ?thesis
      by (auto simp: atomic_save_def to_csv_def log_def cleanup_files Let_def)
  next
    case (Fails_leaving c)
    with assms n show ?thesis
      by (auto simp: atomic_save_def to_csv_def log_def cleanup_files Let_def)
  qed
qed

text \<open>
  C3, as the code has it. \<open>atomic_save\<close> raises an error to its caller exactly when
  the write of the temporary file fails or, the write having succeeded, the rename fails. The
  file at the target path, and every file other than the temporary one, is
  then unchanged. The temporary file is gone provided its removal succeeds; a failing removal
  is ignored by the handler (\<open>except OSError: pass\<close>) and leaves the temporary file
  behind.
\<close>

theorem atomic_save_failure:
  "fst (atomic_save env df filepath w) =
     (if to_csv_outcome env (temp_path filepath) \<noteq> Written \<or> replace_fails env (temp_path filepath)
      then Inl OSError else Inr ()) \<and>
   (to_csv_outcome env (temp_path filepath) \<noteq> Written \<or> replace_fails env (temp_path filepath) \<longrightarrow>
      files (snd (atomic_save env df filepath w)) filepath = files w filepath \<and>
      (\<forall>q. q \<noteq> temp_path filepath \<longrightarrow>
         files (snd (atomic_save env df filepath w)) q = files w q) \<and>
      (\<not> remove_fails env (temp_path filepath) \<longrightarrow>
         files (snd (atomic_save env df filepath w)) (temp_path filepath) = None) \<and>
      dirs (snd (atomic_save env df filepath w)) = dirs w \<and>
      file_map (snd (atomic_save env df filepath w)) = file_map w)"
proof -
  let ?F = "to_csv_outcome env (temp_path filepath) \<noteq> Written \<or> replace_fails env (temp_path filepath)"
  have 1: "fst (atomic_save env df filepath w) = (if ?F then Inl OSError else Inr ())"
    by (rule atomic_save_result)
  have 2: "?F \<longrightarrow>
      files (snd (atomic_save env df filepath w)) filepath = files w filepath \<and>
      (\<forall>q. q \<noteq> temp_path filepath \<longrightarrow>
         files (snd (atomic_save env df filepath w)) q = files w q) \<and>
      (\<not> remove_fails env (temp_path filepath) \<longrightarrow>
         files (snd (atomic_save env df filepath w)) (temp_path filepath) = None) \<and>
      dirs (snd (atomic_save env df filepath w)) = dirs w \<and>
      file_map (snd (atomic_save env df filepath w)) = file_map w"
  proof
    assume ?F
    then have "fst (atomic_save env df filepath w) = Inl OSError"
      by (simp add: atomic_save_result)
    then have "atomic_save env df filepath w = (Inl OSError, snd (atomic_save env df filepath w))"
      by (metis prod.collapse)
    from atomic_save_failure_frame [OF this]
    show "files (snd (atomic_save env df filepath w)) filepath = files w filepath \<and>
      (\<forall>q. q \<noteq> temp_path filepath \<longrightarrow>
         files (snd (atomic_save env df filepath w)) q = files w q) \<and>
      (\<not> remove_fails env (temp_path filepath) \<longrightarrow>
         files (snd (atomic_save env df filepath w)) (temp_path filepath) = None) \<and>
      dirs (snd (atomic_save env df filepath w)) = dirs w \<and>
      file_map (snd (atomic_save env df filepath w)) = file_map w" .
  qed
  from 1 2 show ?thesis by (rule conjI)
qed

theorem atomic_save_failure_witness:
  "to_csv_outcome disk_full_env (temp_path ''/q/3050/72030_2024fy_20250321.csv'') \<noteq> Written \<and>
   fst (atomic_save disk_full_env [(''2025-03-21'', 3)] ''/q/3050/72030_2024fy_20250321.csv''
          one_file_world) = Inl OSError \<and>
   files (snd (atomic_save disk_full_env [(''2025-03-21'', 3)] ''/q/3050/72030_2024fy_20250321.csv''
          one_file_world)) (temp_path ''/q/3050/72030_2024fy_20250321.csv'') = None \<and>
   files (snd (atomic_save disk_full_env [(''2025-03-21'', 3)] ''/q/3050/72030_2024fy_20250321.csv''
          one_file_world)) ''/q/3050/72030_2024fy_20250320.csv''
     = Some (Csv [(''2025-03-19'', 1), (''2025-03-20'', 2)]) \<and>
   to_csv_outcome rename_blocked_env (temp_path ''/q/3050/72030_2024fy_20250320.csv'') = Written \<and>
   replace_fails rename_blocked_env (temp_path ''/q/3050/72030_2024fy_20250320.csv'') \<and>
   fst (atomic_save rename_blocked_env [(''2025-03-21'', 3)] ''/q/3050/72030_2024fy_20250320.csv''
          one_file_world) = Inl OSError \<and>
   files (snd (atomic_save rename_blocked_env [(''2025-03-21'', 3)] ''/q/3050/72030_2024fy_20250320.csv''
          one_file_world)) (temp_path ''/q/3050/72030_2024fy_20250320.csv'') = None \<and>
   files (snd (atomic_save rename_blocked_env [(''2025-03-21'', 3)] ''/q/3050/72030_2024fy_20250320.csv''
          one_file_world)) ''/q/3050/72030_2024fy_20250320.csv''
     = Some (Csv [(''2025-03-19'', 1), (''2025-03-20'', 2)])"
proof -
  have h1: "to_csv_outcome disk_full_env (temp_path ''/q/3050/72030_2024fy_20250321.csv'') \<noteq> Written"
    by (simp add: disk_full_env_def)
  have r1: "\<not> remove_fails disk_full_env (temp_path ''/q/3050/72030_2024fy_20250321.csv'')"
    by (simp add: disk_full_env_def no_faults_def)
  have n1: "''/q/3050/72030_2024fy_20250320.csv'' \<noteq> temp_path ''/q/3050/72030_2024fy_20250321.csv''"
    by (simp add: temp_path_def)
  have h2: "to_csv_outcome rename_blocked_env (temp_path ''/q/3050/72030_2024fy_20250320.csv'') = Written"
    "replace_fails rename_blocked_env (temp_path ''/q/3050/72030_2024fy_20250320.csv'')"
    by (simp_all add: rename_blocked_env_def no_faults_def)
  have r2: "\<not> remove_fails rename_blocked_env (temp_path ''/q/3050/72030_2024fy_20250320.csv'')"
    by (simp add: rename_blocked_env_def no_faults_def)
  have o: "files one_file_world ''/q/3050/72030_2024fy_20250320.csv''
      = Some (Csv [(''2025-03-19'', 1), (''2025-03-20'', 2)])"
    by (simp add: one_file_world_def)
  from atomic_save_failure [where env = disk_full_env
      and filepath = "''/q/3050/72030_2024fy_20250321.csv''"
      and df = "[(''2025-03-21'', 3)]" and w = one_file_world]
    atomic_save_failure [where env = rename_blocked_env
      and filepath = "''/q/3050/72030_2024fy_20250320.csv''"
      and df = "[(''2025-03-21'', 3)]" and w = one_file_world]
    h1 r1 n1 h2 r2 o
  show ?thesis by simp
qed

text \<open>
  C3 as stated fails: when the write leaves a partial file and that file cannot be removed,
  the error propagates while the temporary file is still there.
\<close>

theorem atomic_save_leaves_temp_file:
  "fst (atomic_save locked_temp_env [(''2025-03-21'', 3)] ''/q/3050/72030_2024fy_20250321.csv''
          one_file_world) = Inl OSError \<and>
   files (snd (atomic_save locked_temp_env [(''2025-03-21'', 3)] ''/q/3050/72030_2024fy_20250321.csv''
          one_file_world)) (temp_path ''/q/3050/72030_2024fy_20250321.csv'') = Some Unreadable"
  by (simp add: atomic_save_def to_csv_def locked_temp_env_def disk_full_env_def no_faults_def
      cleanup_def os_path_exists_def os_remove_def log_def one_file_world_def temp_path_def Let_def)

subsection \<open>The update engine: early exits\<close>

lemma log_simps [simp]:
  "files (log e w) = files w" "dirs (log e w) = dirs w" "file_map (log e w) = file_map w"
  "trace (log e w) = trace w @ [e]"
  by (simp_all add: log_def)

lemma read_csv_frame:
  "files (snd (read_csv w p)) = files w" "dirs (snd (read_csv w p)) = dirs w"
  "file_map (snd (read_csv w p)) = file_map w" "trace (snd (read_csv w p)) = trace w @ [Read p]"
  by (simp_all add: read_csv_def split: option.splits content.splits)

lemma read_csv_cong: "files w1 = files w \<Longrightarrow> fst (read_csv w1 p) = fst (read_csv w p)"
  by (simp add: read_csv_def split: option.splits content.splits)

lemma last_updated_of_frame:
  "files (snd (last_updated_of w p)) = files w"
  "dirs (snd (last_updated_of w p)) = dirs w"
  "file_map (snd (last_updated_of w p)) = file_map w"
  "trace (snd (last_updated_of w p)) =
     trace w @ (if length (split_on CHR ''_'' (os_path_basename p)) \<ge> 3 then [] else [Read p])"
  by (simp_all add: last_updated_of_def Let_def case_prod_beta read_csv_frame split: sum.splits)

lemma last_updated_of_cong:
  "files w1 = files w \<Longrightarrow> fst (last_updated_of w1 p) = fst (last_updated_of w p)"
  using read_csv_cong [of w1 w p]
  by (simp add: last_updated_of_def Let_def case_prod_beta split: sum.splits)

lemma update_prefix:
  assumes "fst (os_path_exists w (os_path_join dq sector))"
    and "get_latest_file (file_map w) code = Inr (Some p)" and "p \<noteq> []"
    and "fst (last_updated_of w p) = Inr (Some last_date)" and "last_date \<noteq> []"
  shows "update_file_for_code env code sector dq target tm w =
     (case fetch_window last_date target of
        Inl e \<Rightarrow> (Inl e, snd (last_updated_of (log (Stat (os_path_join dq sector)) w) p))
      | Inr (Inl r) \<Rightarrow> (Inr r, snd (last_updated_of (log (Stat (os_path_join dq sector)) w) p))
      | Inr (Inr from_date) \<Rightarrow>
          (case try_body env code (os_path_join dq sector) target tm p from_date
                  (snd (last_updated_of (log (Stat (os_path_join dq sector)) w) p)) of
             (Inl e, w3) \<Rightarrow> (Inr ERROR, w3)
           | (Inr r, w3) \<Rightarrow> (Inr r, w3)))"
proof -
  let ?sd = "os_path_join dq sector"
  have c: "fst (last_updated_of (log (Stat ?sd) w) p) = Inr (Some last_date)"
    using last_updated_of_cong [of "log (Stat ?sd) w" w p] assms(4) by simp
  have e: "os_path_exists w ?sd = (True, log (Stat ?sd) w)"
    using assms(1) by (simp add: os_path_exists_def)
  show ?thesis
    using assms(2,3,5) c
    by (simp add: update_file_for_code_def Let_def e case_prod_beta)
qed

lemma fetch_window_fresh: "target \<le> last_date \<Longrightarrow> fetch_window last_date target = Inr (Inl ALREADY_LATEST)"
  by (simp add: fetch_window_def)

lemma already_latest_once:
  assumes "fst (os_path_exists w (os_path_join dq sector))"
    and "get_latest_file (file_map w) code = Inr (Some p)" and "p \<noteq> []"
    and "fst (last_updated_of w p) = Inr (Some last_date)"
    and "target \<noteq> []" and "target \<le> last_date"
  shows "update_file_for_code env code sector dq target tm w =
           (Inr ALREADY_LATEST, snd (last_updated_of (log (Stat (os_path_join dq sector)) w) p))"
proof -
  from assms(5,6) have ne: "last_date \<noteq> []" by auto
  show ?thesis
    by (simp add: update_prefix [OF assms(1-4) ne] fetch_window_fresh [OF assms(6)])
qed

lemma one_file_latest:
  "get_latest_file (file_map one_file_world) ''72030'' = Inr (Some ''/q/3050/72030_2024fy_20250320.csv'')"
  by (simp add: one_file_world_def get_latest_file_def sorted_reverse_def sort_key_path_def
      os_path_basename_def last_item_def first_item_def isdigit_def isdigit_char_def is_dec_def
      py_int_def strip_def is_space_def dec_literal_def digit_val_def)

lemma one_file_last_updated:
  "fst (last_updated_of one_file_world ''/q/3050/72030_2024fy_20250320.csv'') = Inr (Some ''20250320'')"
  by (simp add: last_updated_of_def os_path_basename_def last_item_def first_item_def Let_def)

lemma one_file_dir: "fst (os_path_exists one_file_world (os_path_join ''/q'' ''3050''))"
  by (simp add: os_path_exists_def os_path_join_def one_file_world_def endswith_def)

lemma valid_yyyymmdd_nonempty: "valid_yyyymmdd s \<Longrightarrow> s \<noteq> []"
  by (auto simp: valid_yyyymmdd_def)

text \<open>
  C7, as the code has it. In dry-run mode, for an instrument whose sector directory exists and
  whose last archived date is a valid date, not before the year 1000 and strictly before the
  valid target end date, the update returns \<open>UPDATED\<close>, performs no fetch and no write and
  leaves files and repository unchanged. It reads no file when the partition's name carries
  the date; when the name carries none (an archived partition) it reads that one file to find
  the date.
\<close>

theorem dry_run_no_fetch_no_write:
  assumes "fst (os_path_exists w (os_path_join dq sector))"
    and "get_latest_file (file_map w) code = Inr (Some p)" and "p \<noteq> []"
    and "fst (last_updated_of w p) = Inr (Some last_date)"
    and "valid_yyyymmdd last_date" and "valid_yyyymmdd target"
    and "''10000101'' \<le> last_date" and "last_date < target"
  shows "fst (update_file_for_code env code sector dq target True w) = Inr UPDATED \<and>
         files (snd (update_file_for_code env code sector dq target True w)) = files w \<and>
         file_map (snd (update_file_for_code env code sector dq target True w)) = file_map w \<and>
         trace (snd (update_file_for_code env code sector dq target True w)) =
           trace w @ Stat (os_path_join dq sector) # locate_reads p"
proof -
  let ?sd = "os_path_join dq sector"
  let ?w1 = "snd (last_updated_of (log (Stat ?sd) w) p)"
  from fetch_window_valid [OF assms(5-8)] obtain from_date where
    fw: "fetch_window last_date target = Inr (Inr from_date)" by blast
  have ne: "last_date \<noteq> []" using assms(5) by (rule valid_yyyymmdd_nonempty)
  have u: "update_file_for_code env code sector dq target True w = (Inr UPDATED, ?w1)"
    by (simp add: update_prefix [OF assms(1-4) ne] fw try_body_def)
  show ?thesis
    by (simp add: u last_updated_of_frame locate_reads_def)
qed

lemma valid_20250320: "valid_yyyymmdd ''20250320''"
  by (simp add: valid_yyyymmdd_def is_dec_def digit_val_def valid_date_def mk_date_def days_in_month_def)

lemma valid_20250325: "valid_yyyymmdd ''20250325''"
  by (simp add: valid_yyyymmdd_def is_dec_def digit_val_def valid_date_def mk_date_def days_in_month_def)

theorem dry_run_no_fetch_no_write_witness:
  "fst (os_path_exists one_file_world (os_path_join ''/q'' ''3050'')) \<and>
   get_latest_file (file_map one_file_world) ''72030'' = Inr (Some ''/q/3050/72030_2024fy_20250320.csv'') \<and>
   fst (last_updated_of one_file_world ''/q/3050/72030_2024fy_20250320.csv'') = Inr (Some ''20250320'') \<and>
   valid_yyyymmdd ''20250320'' \<and> valid_yyyymmdd ''20250325'' \<and>
   ''10000101'' \<le> ''20250320'' \<and> ''20250320'' < ''20250325'' \<and>
   fst (update_file_for_code (no_faults api_empty) ''72030'' ''3050'' ''/q'' ''20250325'' True
          one_file_world) = Inr UPDATED \<and>
   files (snd (update_file_for_code (no_faults api_empty) ''72030'' ''3050'' ''/q'' ''20250325'' True
          one_file_world)) = files one_file_world \<and>
   trace (snd (update_file_for_code (no_faults api_empty) ''72030'' ''3050'' ''/q'' ''20250325'' True
          one_file_world)) = [Stat ''/q/3050'']"
proof -
  have ne: "''/q/3050/72030_2024fy_20250320.csv'' \<noteq> []" by simp
  have ge: "''10000101'' \<le> ''20250320''" by simp
  have lt: "''20250320'' < ''20250325''" by simp
  have lr: "locate_reads ''/q/3050/72030_2024fy_20250320.csv'' = []"
    by (simp add: locate_reads_def os_path_basename_def)
  have sd: "os_path_join ''/q'' ''3050'' = ''/q/3050''" by (simp add: os_path_join_def endswith_def)
  have tr: "trace one_file_world = []" by (simp add: one_file_world_def)
  from dry_run_no_fetch_no_write [OF one_file_dir one_file_latest ne one_file_last_updated
      valid_20250320 valid_20250325 ge lt, of "no_faults api_empty"]
    one_file_dir one_file_latest one_file_last_updated valid_20250320 valid_20250325 ge lt
  show ?thesis by (simp add: lr sd tr)
qed

lemma archived_latest:
  "get_latest_file (file_map archived_world) ''72030'' = Inr (Some ''/q/3050/72030_2024fy.csv'')"
  by (simp add: archived_world_def get_latest_file_def sorted_reverse_def sort_key_path_def
      os_path_basename_def last_item_def first_item_def isdigit_def)

lemma archived_last_updated:
  "last_updated_of (log (Stat ''/q/3050'') archived_world) ''/q/3050/72030_2024fy.csv'' =
     (Inr (Some ''20250320''), log (Read ''/q/3050/72030_2024fy.csv'') (log (Stat ''/q/3050'') archived_world))"
  by (simp add: last_updated_of_def os_path_basename_def Let_def read_csv_def archived_world_def
      max_date_def remove_dashes_def max_def)

lemma year999_latest:
  "get_latest_file (file_map year999_world) ''72030'' = Inr (Some ''/q/3050/72030_0998fy_09990101.csv'')"
  by (simp add: year999_world_def get_latest_file_def sorted_reverse_def sort_key_path_def
      os_path_basename_def last_item_def first_item_def isdigit_def isdigit_char_def is_dec_def
      py_int_def strip_def is_space_def dec_literal_def digit_val_def)

lemma year999_last_updated:
  "last_updated_of (log (Stat ''/q/3050'') year999_world) ''/q/3050/72030_0998fy_09990101.csv'' =
     (Inr (Some ''09990101''), log (Stat ''/q/3050'') year999_world)"
  by (simp add: last_updated_of_def os_path_basename_def last_item_def first_item_def Let_def)

text \<open>
  C7 as stated fails: for an instrument with only an archived partition the dry run returns
  \<open>UPDATED\<close> after reading the partition file. And a partition dated before the year
  1000, one day after which is printed with fewer than eight digits, lets the dry run return
  \<open>DATE_CALC_ERROR\<close> instead.
\<close>

theorem dry_run_reads_archived_file:
  "fst (update_file_for_code (no_faults api_empty) ''72030'' ''3050'' ''/q'' ''20250325'' True
          archived_world) = Inr UPDATED \<and>
   Read ''/q/3050/72030_2024fy.csv''
     \<in> set (trace (snd (update_file_for_code (no_faults api_empty) ''72030'' ''3050'' ''/q''
            ''20250325'' True archived_world))) \<and>
   fst (update_file_for_code (no_faults api_empty) ''72030'' ''3050'' ''/q'' ''09990105'' True
          year999_world) = Inr DATE_CALC_ERROR"
proof -
  have sd: "os_path_join ''/q'' ''3050'' = ''/q/3050''" by (simp add: os_path_join_def endswith_def)
  have ex: "os_path_exists archived_world ''/q/3050'' = (True, log (Stat ''/q/3050'') archived_world)"
    by (simp add: os_path_exists_def archived_world_def)
  have fw: "fetch_window ''20250320'' ''20250325'' = Inr (Inr ''20250321'')"
    by (simp add: fetch_window_def from_date_str_def strptime_def re_year_def re_month_def re_day_def
        strip_prefix_def is_dec_def in_range_def digit_val_def valid_date_def mk_date_def
        days_in_month_def add_one_day_def strftime_def pad2_def py_str_def dec_of_nat.simps digit_char_simps)
  have u: "update_file_for_code (no_faults api_empty) ''72030'' ''3050'' ''/q'' ''20250325'' True
          archived_world =
        (Inr UPDATED, log (Read ''/q/3050/72030_2024fy.csv'') (log (Stat ''/q/3050'') archived_world))"
    by (simp add: update_file_for_code_def sd ex archived_latest archived_last_updated fw try_body_def)
  have ex9: "os_path_exists year999_world ''/q/3050'' = (True, log (Stat ''/q/3050'') year999_world)"
    by (simp add: os_path_exists_def year999_world_def)
  have fw9: "fetch_window ''09990101'' ''09990105'' = Inr (Inl DATE_CALC_ERROR)"
    by (simp add: fetch_window_def from_date_str_def strptime_def re_year_def re_month_def re_day_def
        strip_prefix_def is_dec_def in_range_def digit_val_def valid_date_def mk_date_def
        days_in_month_def add_one_day_def strftime_def pad2_def py_str_def dec_of_nat.simps digit_char_simps)
  have u9: "fst (update_file_for_code (no_faults api_empty) ''72030'' ''3050'' ''/q'' ''09990105'' True
          year999_world) = Inr DATE_CALC_ERROR"
    by (simp add: update_file_for_code_def sd ex9 year999_latest year999_last_updated fw9)
  from u u9 show ?thesis by simp
qed

text \<open>
  C10 as stated fails before the year 1000. The day after \<open>09990101\<close> is printed as
  \<open>9990102\<close>, which as a string lies above the target \<open>09990105\<close>: the update of a
  partition dated \<open>09990101\<close> returns \<open>DATE_CALC_ERROR\<close>.
\<close>

theorem date_calc_error_before_year_1000:
  "valid_yyyymmdd ''09990101'' \<and> valid_yyyymmdd ''09990105'' \<and> ''09990101'' < ''09990105'' \<and>
   from_date_str ''09990101'' = Inr ''9990102'' \<and> \<not> ''9990102'' \<le> ''09990105'' \<and>
   fetch_window ''09990101'' ''09990105'' = Inr (Inl DATE_CALC_ERROR) \<and>
   fst (update_file_for_code (no_faults api_empty) ''72030'' ''3050'' ''/q'' ''09990105'' False
          year999_world) = Inr DATE_CALC_ERROR"
proof -
  have v: "valid_yyyymmdd ''09990101''" "valid_yyyymmdd ''09990105''"
    by (simp_all add: valid_yyyymmdd_def is_dec_def digit_val_def valid_date_def mk_date_def
        days_in_month_def)
  have f: "from_date_str ''09990101'' = Inr ''9990102''"
    by (simp add: from_date_str_def strptime_def re_year_def re_month_def re_day_def strip_prefix_def
        is_dec_def in_range_def digit_val_def valid_date_def mk_date_def days_in_month_def
        add_one_day_def strftime_def pad2_def py_str_def dec_of_nat.simps digit_char_simps)
  have fw: "fetch_window ''09990101'' ''09990105'' = Inr (Inl DATE_CALC_ERROR)"
    by (simp add: fetch_window_def f)
  have sd: "os_path_join ''/q'' ''3050'' = ''/q/3050''" by (simp add: os_path_join_def endswith_def)
  have ex: "os_path_exists year999_world ''/q/3050'' = (True, log (Stat ''/q/3050'') year999_world)"
    by (simp add: os_path_exists_def year999_world_def)
  have u: "fst (update_file_for_code (no_faults api_empty) ''72030'' ''3050'' ''/q'' ''09990105'' False
          year999_world) = Inr DATE_CALC_ERROR"
    by (simp add: update_file_for_code_def sd ex year999_latest year999_last_updated fw)
  from v f fw u show ?thesis by simp
qed

lemma feb30_latest:
  "get_latest_file (file_map feb30_world) ''72030'' = Inr (Some ''/q/3050/72030_2024fy_20250230.csv'')"
  by (simp add: feb30_world_def get_latest_file_def sorted_reverse_def sort_key_path_def
      os_path_basename_def last_item_def first_item_def isdigit_def isdigit_char_def is_dec_def
      py_int_def strip_def is_space_def dec_literal_def digit_val_def)

lemma feb30_last_updated:
  "last_updated_of (log (Stat ''/q/3050'') feb30_world) ''/q/3050/72030_2024fy_20250230.csv'' =
     (Inr (Some ''20250230''), log (Stat ''/q/3050'') feb30_world)"
  by (simp add: last_updated_of_def os_path_basename_def last_item_def first_item_def Let_def)

lemma strptime_feb30: "strptime [] ''20250230'' = Inl ValueError"
  by (simp add: strptime_def re_year_def re_month_def re_day_def strip_prefix_def is_dec_def
      in_range_def digit_val_def valid_date_def mk_date_def days_in_month_def is_leap_def)

text \<open>
  C4. No exception is to leave the per-instrument update. One does: the date suffix of the
  file name is parsed by \<open>strptime\<close> on line 278, outside every \<open>try\<close> statement. For
  a partition named \<open>72030_2024fy_20250230.csv\<close> the update raises \<open>ValueError\<close>.
\<close>

theorem update_file_for_code_raises:
  "fst (update_file_for_code (no_faults api_empty) ''72030'' ''3050'' ''/q'' ''20250325'' False
          feb30_world) = Inl ValueError"
proof -
  have sd: "os_path_join ''/q'' ''3050'' = ''/q/3050''" by (simp add: os_path_join_def endswith_def)
  have ex: "os_path_exists feb30_world ''/q/3050'' = (True, log (Stat ''/q/3050'') feb30_world)"
    by (simp add: os_path_exists_def feb30_world_def)
  have fw: "fetch_window ''20250230'' ''20250325'' = Inl ValueError"
    by (simp add: fetch_window_def from_date_str_def strptime_feb30)
  show ?thesis
    by (simp add: update_file_for_code_def sd ex feb30_latest feb30_last_updated fw)
qed

subsection \<open>The update engine: merging\<close>

lemma ddl_subset: "set (drop_duplicates_last xs) \<subseteq> set xs"
  by (induction xs) auto

lemma ddl_dates: "fst ` set (drop_duplicates_last xs) = fst ` set xs"
  by (induction xs) auto

lemma ddl_distinct: "distinct (map fst (drop_duplicates_last xs))"
proof (induction xs)
  case Nil
  then show ?case by simp
next
  case (Cons r rs)
  have "fst ` set (drop_duplicates_last rs) = fst ` set rs" by (rule ddl_dates)
  with Cons show ?case by auto
qed

lemma ddl_append_last:
  "r \<in> set (drop_duplicates_last (xs @ ys)) \<Longrightarrow> fst r \<in> fst ` set ys \<Longrightarrow> r \<in> set ys"
proof (induction xs)
  case Nil
  then show ?case using ddl_subset by fastforce
next
  case (Cons x xs)
  then show ?case by (auto split: if_splits)
qed

lemma ddl_append_first:
  "r \<in> set (drop_duplicates_last (xs @ ys)) \<Longrightarrow> fst r \<notin> fst ` set ys \<Longrightarrow> r \<in> set xs"
  using ddl_subset [of "xs @ ys"] by force

lemma sort_values_set: "set (sort_values df) = set df"
  by (simp add: sort_values_def)

lemma sort_values_sorted: "sorted (map fst (sort_values df))"
  by (simp add: sort_values_def)

lemma sort_values_distinct: "distinct (map fst df) \<Longrightarrow> distinct (map fst (sort_values df))"
  by (simp add: distinct_map sort_values_def)

text \<open>The merge of lines 399 to 406 and of lines 351 to 359: concatenate, keep the last row
  of each date, sort by date.\<close>

lemma merge_properties:
  fixes old' new' :: "'a table"
  defines "res \<equiv> sort_values (drop_duplicates_last (old' @ new'))"
  shows "distinct (map fst res)" and "sorted (map fst res)"
    and "fst ` set res = fst ` set old' \<union> fst ` set new'"
    and "\<forall>r \<in> set res. if fst r \<in> fst ` set new' then r \<in> set new' else r \<in> set old'"
proof -
  show "distinct (map fst res)" unfolding res_def by (rule sort_values_distinct [OF ddl_distinct])
  show "sorted (map fst res)" unfolding res_def by (rule sort_values_sorted)
  show "fst ` set res = fst ` set old' \<union> fst ` set new'"
    unfolding res_def by (simp add: sort_values_set ddl_dates image_Un)
  show "\<forall>r \<in> set res. if fst r \<in> fst ` set new' then r \<in> set new' else r \<in> set old'"
    unfolding res_def sort_values_set
    using ddl_append_last [of _ old' new'] ddl_append_first [of _ old' new'] by auto
qed

lemma iso_date_nonempty: "iso_date s \<Longrightarrow> s \<noteq> []"
  by (auto simp: iso_date_def strptime_def re_year_def)

lemma iso_column_nonempty:
  "list_all iso_date (map fst df) \<Longrightarrow> r \<in> set df \<Longrightarrow> fst r \<noteq> []"
  by (auto simp: list_all_iff dest: iso_date_nonempty)

lemma normalize_dates_iso: "list_all iso_date (map fst df) \<Longrightarrow> normalize_dates env df = Inr df"
  by (simp add: normalize_dates_def to_datetime_strftime_def zip_map_fst_snd)

lemma normalize_dates_rejected:
  "\<not> list_all iso_date (map fst df) \<Longrightarrow> to_datetime env (map fst df) = Inl e \<Longrightarrow>
   normalize_dates env df = Inl e"
  by (simp add: normalize_dates_def to_datetime_strftime_def)

lemma sort_values_na_last_dated:
  "\<forall>r \<in> set df. fst r \<noteq> [] \<Longrightarrow> sort_values_na_last df = sort_values df"
  by (simp add: sort_values_na_last_def filter_True filter_False)

lemma fault_free_simps:
  assumes "fault_free env"
  shows "to_csv_outcome env p = Written" "replace_fails env p = False" "remove_fails env p = False"
  using assms by (simp_all add: fault_free_def)

lemma no_faults_simps [simp]:
  "get_daily_quotes (no_faults api) = api" "fault_free (no_faults api)"
  by (simp_all add: no_faults_def fault_free_def)

lemma atomic_save_ok:
  assumes "fault_free env"
  shows "fst (atomic_save env df p w) = Inr ()"
    and "files (snd (atomic_save env df p w)) = ((files w)(temp_path p := None))(p \<mapsto> Csv df)"
    and "dirs (snd (atomic_save env df p w)) = dirs w"
    and "file_map (snd (atomic_save env df p w)) = file_map w"
proof -
  note n = temp_path_neq [of p]
  note ff = fault_free_simps [OF assms]
  show "fst (atomic_save env df p w) = Inr ()"
    by (simp add: atomic_save_def to_csv_def os_path_exists_def os_replace_def os_rename_def Let_def ff)
  show "files (snd (atomic_save env df p w)) = ((files w)(temp_path p := None))(p \<mapsto> Csv df)"
    using n
    by (auto simp add: atomic_save_def to_csv_def os_path_exists_def os_replace_def os_rename_def
        Let_def fun_eq_iff ff)
  show "dirs (snd (atomic_save env df p w)) = dirs w"
    by (simp add: atomic_save_def to_csv_def os_path_exists_def os_replace_def os_rename_def Let_def ff)
  show "file_map (snd (atomic_save env df p w)) = file_map w"
    by (simp add: atomic_save_def to_csv_def os_path_exists_def os_replace_def os_rename_def Let_def ff)
qed

lemma remove_old_files:
  assumes "fault_free env"
  shows "files (remove_old env code cur w) = (files w)(cur := None)"
    and "dirs (remove_old env code cur w) = dirs w"
  by (auto simp: remove_old_def os_remove_def Let_def fun_eq_iff fault_free_simps [OF assms])

lemma remove_old_file_map:
  assumes "fault_free env" and "files w cur \<noteq> None"
  shows "file_map (remove_old env code cur w) = remove_file (file_map w) code cur"
  using assms(2) by (auto simp: remove_old_def os_remove_def Let_def fault_free_simps [OF assms(1)])

lemma repo_add_file_map [simp]: "file_map (repo_add code p w) = add_file (file_map w) code p"
  by (simp add: repo_add_def)

lemma repo_add_files [simp]:
  "files (repo_add code p w) = files w" "dirs (repo_add code p w) = dirs w"
  by (simp_all add: repo_add_def)

lemma last_item_last: "xs \<noteq> [] \<Longrightarrow> last_item xs = Inr (last xs)"
  by (cases xs rule: rev_cases) (simp_all add: last_item_def)

lemma foldr_max_ge: "z \<in> set zs \<Longrightarrow> z \<le> foldr max zs ([] :: string)"
  by (induction zs) (auto simp: max_def)

lemma foldr_max_mem: "zs \<noteq> [] \<Longrightarrow> foldr max zs ([] :: string) \<in> set zs"
proof (induction zs)
  case Nil
  then show ?case by simp
next
  case (Cons z zs)
  show ?case
  proof (cases "zs = []")
    case True
    then show ?thesis by (simp add: max_def)
  next
    case False
    with Cons show ?thesis by (auto simp: max_def)
  qed
qed

lemma sorted_last_ge:
  assumes "sorted (zs :: string list)" and "z \<in> set zs"
  shows "z \<le> last zs"
proof -
  from assms(2) have "zs \<noteq> []" by auto
  then have "zs = butlast zs @ [last zs]" by simp
  then have "sorted (butlast zs @ [last zs])" and "z \<in> set (butlast zs @ [last zs])"
    using assms by simp_all
  then show ?thesis by (auto simp: sorted_append)
qed

lemma last_sort_values_max:
  assumes "df \<noteq> []"
  shows "last_item (sort_values df) = Inr (last (sort_values df))"
    and "fst (last (sort_values df)) = max_date df"
    and "last (sort_values df) \<in> set df"
proof -
  let ?s = "sort_values df"
  have ne: "?s \<noteq> []" using assms by (metis sort_values_set set_empty)
  show "last_item ?s = Inr (last ?s)" by (rule last_item_last [OF ne])
  show m: "last ?s \<in> set df" using last_in_set [OF ne] by (simp add: sort_values_set)
  have l: "fst (last ?s) = last (map fst ?s)" using ne by (simp add: last_map)
  have zs: "map fst df \<noteq> []" using assms by simp
  have s: "set (map fst ?s) = set (map fst df)" by (simp add: sort_values_set)
  have 1: "max_date df \<le> last (map fst ?s)"
    using sorted_last_ge [OF sort_values_sorted, of "max_date df" df] foldr_max_mem [OF zs] s
    by (simp add: max_date_def)
  have "last (map fst ?s) \<in> set (map fst df)"
    using last_in_set [of "map fst ?s"] ne s by auto
  then have 2: "last (map fst ?s) \<le> max_date df"
    unfolding max_date_def by (rule foldr_max_ge)
  from 1 2 l show "fst (last ?s) = max_date df" by simp
qed

lemma read_csv_ok: "files w p = Some (Csv t) \<Longrightarrow> read_csv w p = (Inr t, log (Read p) w)"
  by (simp add: read_csv_def)

lemma try_body_branches:
  assumes "get_daily_quotes env code from_date target = Inr fetched" and "fetched \<noteq> []"
    and "files w cur = Some (Csv df_old)"
    and "strptime ''-'' (max_date fetched) = Inr d"
    and "current_fy_of cur (get_current_fy d) = Inr cfy"
  shows "try_body env code sd target False cur from_date w =
     (if cfy < get_current_fy d
      then rollover_update env code sd cur cfy (get_current_fy d) (max_date fetched)
             df_old (sort_values fetched)
             (log (Read cur) (log (Fetch code from_date target) (log Sleep w)))
      else normal_update env code sd cur cfy (max_date fetched)
             df_old (sort_values fetched)
             (log (Read cur) (log (Fetch code from_date target) (log Sleep w))))"
proof -
  let ?w1 = "log (Fetch code from_date target) (log Sleep w)"
  have r: "read_csv ?w1 cur = (Inr df_old, log (Read cur) ?w1)"
    using assms(3) by (simp add: read_csv_ok)
  note l = last_sort_values_max [OF assms(2)]
  show ?thesis
    by (simp add: try_body_def assms(1,2) Let_def r l(1) l(2) assms(4) assms(5))
qed

text \<open>A column that pandas rejects makes the merge raise before anything is written.\<close>

lemma normal_update_rejected:
  "normalize_dates env (df_old @ df_new) = Inl e \<Longrightarrow>
   normal_update env code sd cur cfy latest df_old df_new w = (Inl e, w)"
  by (simp add: normal_update_def)

lemma normal_update_ok:
  assumes "fault_free env"
    and "list_all iso_date (map fst df_old)" and "list_all iso_date (map fst df_new)"
  shows "fst (normal_update env code sd cur cfy latest df_old df_new w) = Inr UPDATED"
    and "files (snd (normal_update env code sd cur cfy latest df_old df_new w))
           (os_path_join sd (code @ ''_'' @ py_str cfy @ ''fy_'' @ remove_dashes latest @ ''.csv''))
         = Some (Csv (sort_values (drop_duplicates_last (df_old @ df_new))))"
proof -
  have i: "list_all iso_date (map fst (df_old @ df_new))" using assms(2,3) by simp
  note n = normalize_dates_iso [OF i, of env]
  have "\<forall>r \<in> set (drop_duplicates_last (df_old @ df_new)). fst r \<noteq> []"
    using iso_column_nonempty [OF i] ddl_subset [of "df_old @ df_new"] by blast
  note s = sort_values_na_last_dated [OF this]
  show "fst (normal_update env code sd cur cfy latest df_old df_new w) = Inr UPDATED"
    by (simp add: normal_update_def n Let_def case_prod_beta atomic_save_ok [OF assms(1)])
  show "files (snd (normal_update env code sd cur cfy latest df_old df_new w))
           (os_path_join sd (code @ ''_'' @ py_str cfy @ ''fy_'' @ remove_dashes latest @ ''.csv''))
         = Some (Csv (sort_values (drop_duplicates_last (df_old @ df_new))))"
    by (simp add: normal_update_def n s Let_def case_prod_beta atomic_save_ok [OF assms(1)]
        remove_old_files [OF assms(1)])
qed

lemma normal_update_repo:
  assumes "fault_free env"
    and "list_all iso_date (map fst df_old)" and "list_all iso_date (map fst df_new)"
    and "files w cur \<noteq> None"
    and "cur \<noteq> os_path_join sd (code @ ''_'' @ py_str cfy @ ''fy_'' @ remove_dashes latest @ ''.csv'')"
    and "cur \<noteq> temp_path
           (os_path_join sd (code @ ''_'' @ py_str cfy @ ''fy_'' @ remove_dashes latest @ ''.csv''))"
  shows "file_map (snd (normal_update env code sd cur cfy latest df_old df_new w)) =
           add_file (remove_file (file_map w) code cur) code
             (os_path_join sd (code @ ''_'' @ py_str cfy @ ''fy_'' @ remove_dashes latest @ ''.csv''))"
    and "dirs (snd (normal_update env code sd cur cfy latest df_old df_new w)) = dirs w"
proof -
  let ?N = "os_path_join sd (code @ ''_'' @ py_str cfy @ ''fy_'' @ remove_dashes latest @ ''.csv'')"
  let ?res = "sort_values_na_last (drop_duplicates_last (df_old @ df_new))"
  have i: "list_all iso_date (map fst (df_old @ df_new))" using assms(2,3) by simp
  note n = normalize_dates_iso [OF i, of env]
  note ok = atomic_save_ok [OF assms(1)]
  have ex: "files (snd (atomic_save env ?res ?N w)) cur \<noteq> None"
    using assms(4,5,6) by (auto simp add: ok(2))
  have rm: "file_map (remove_old env code cur (snd (atomic_save env ?res ?N w))) =
      remove_file (file_map w) code cur"
    using remove_old_file_map [OF assms(1) ex, of code] by (simp add: ok(4))
  have nu: "snd (normal_update env code sd cur cfy latest df_old df_new w) =
      repo_add code ?N (remove_old env code cur (snd (atomic_save env ?res ?N w)))"
    using assms(5) by (simp add: normal_update_def n Let_def case_prod_beta ok(1))
  show "file_map (snd (normal_update env code sd cur cfy latest df_old df_new w)) =
           add_file (remove_file (file_map w) code cur) code ?N"
    unfolding nu by (simp only: repo_add_file_map rm)
  show "dirs (snd (normal_update env code sd cur cfy latest df_old df_new w)) = dirs w"
    unfolding nu by (simp add: ok(3) remove_old_files [OF assms(1)])
qed

lemma update_reaches_try_body:
  assumes "fst (os_path_exists w (os_path_join dq sector))"
    and "get_latest_file (file_map w) code = Inr (Some p)" and "p \<noteq> []"
    and "fst (last_updated_of w p) = Inr (Some last_date)" and "last_date \<noteq> []"
    and "fetch_window last_date target = Inr (Inr from_date)"
    and "fst (try_body env code (os_path_join dq sector) target tm p from_date
                (snd (last_updated_of (log (Stat (os_path_join dq sector)) w) p))) = Inr r"
  shows "update_file_for_code env code sector dq target tm w =
           (Inr r, snd (try_body env code (os_path_join dq sector) target tm p from_date
                (snd (last_updated_of (log (Stat (os_path_join dq sector)) w) p))))"
  using assms(7)
  by (simp add: update_prefix [OF assms(1-5)] assms(6) case_prod_beta)

lemma sort_values_iso:
  "list_all iso_date (map fst df) \<Longrightarrow> list_all iso_date (map fst (sort_values df))"
  by (simp add: list_all_iff sort_values_set)

lemma normal_update_file:
  assumes "fault_free env"
    and "fst (os_path_exists w (os_path_join dq sector))"
    and "get_latest_file (file_map w) code = Inr (Some p)" and "p \<noteq> []"
    and "fst (last_updated_of w p) = Inr (Some last_date)" and "last_date \<noteq> []"
    and "fetch_window last_date target = Inr (Inr from_date)"
    and "get_daily_quotes env code from_date target = Inr fetched" and "fetched \<noteq> []"
    and "files w p = Some (Csv df_old)"
    and "list_all iso_date (map fst df_old)" and "list_all iso_date (map fst fetched)"
    and "strptime ''-'' (max_date fetched) = Inr d"
    and "current_fy_of p (get_current_fy d) = Inr cfy" and "\<not> cfy < get_current_fy d"
  shows "fst (update_file_for_code env code sector dq target False w) = Inr UPDATED"
    and "files (snd (update_file_for_code env code sector dq target False w))
        (os_path_join (os_path_join dq sector)
           (code @ ''_'' @ py_str cfy @ ''fy_'' @ remove_dashes (max_date fetched) @ ''.csv''))
        = Some (Csv (sort_values (drop_duplicates_last (df_old @ sort_values fetched))))"
proof -
  let ?sd = "os_path_join dq sector"
  let ?w2 = "snd (last_updated_of (log (Stat ?sd) w) p)"
  let ?w3 = "log (Read p) (log (Fetch code from_date target) (log Sleep ?w2))"
  let ?nu = "normal_update env code ?sd p cfy (max_date fetched) df_old
               (sort_values fetched) ?w3"
  have f2: "files ?w2 p = Some (Csv df_old)" using assms(10) by (simp add: last_updated_of_frame)
  have tb: "try_body env code ?sd target False p from_date ?w2 = ?nu"
    using try_body_branches [where env = env and code = code and from_date = from_date
        and target = target, OF assms(8,9) f2 assms(13,14)] assms(15) by simp
  note ok = normal_update_ok [OF assms(1,11) sort_values_iso [OF assms(12)],
      of code ?sd p cfy "max_date fetched" ?w3]
  have u: "update_file_for_code env code sector dq target False w = (Inr UPDATED, snd ?nu)"
    using update_reaches_try_body [OF assms(2-7), of env False UPDATED] tb ok(1) by simp
  show "fst (update_file_for_code env code sector dq target False w) = Inr UPDATED"
    by (simp add: u)
  show "files (snd (update_file_for_code env code sector dq target False w))
        (os_path_join ?sd (code @ ''_'' @ py_str cfy @ ''fy_'' @ remove_dashes (max_date fetched) @ ''.csv''))
        = Some (Csv (sort_values (drop_duplicates_last (df_old @ sort_values fetched))))"
    using ok(2) by (simp add: u)
qed

text \<open>
  C2. A non-rollover update: the engine reaches the merge (the sector directory exists, the
  latest partition \<open>p\<close> carries the last date, the fetch window is valid), no file
  operation fails, the old table and the fetched rows carry ISO dates, which may overlap, and
  the latest fetched date lies in a fiscal year not beyond the partition's. Then the update
  returns \<open>UPDATED\<close> and the partition written, named after the latest fetched date, holds
  a table with pairwise distinct dates, sorted ascending by date, whose dates are exactly
  those of the old table and of the fetched rows, each row being a fetched row when its date
  occurs among the fetched rows and a row of the old table otherwise.
\<close>

theorem normal_update_merges:
  assumes "fault_free env"
    and "fst (os_path_exists w (os_path_join dq sector))"
    and "get_latest_file (file_map w) code = Inr (Some p)" and "p \<noteq> []"
    and "fst (last_updated_of w p) = Inr (Some last_date)" and "last_date \<noteq> []"
    and "fetch_window last_date target = Inr (Inr from_date)"
    and "get_daily_quotes env code from_date target = Inr fetched" and "fetched \<noteq> []"
    and "files w p = Some (Csv df_old)"
    and "list_all iso_date (map fst df_old)" and "list_all iso_date (map fst fetched)"
    and "strptime ''-'' (max_date fetched) = Inr d"
    and "current_fy_of p (get_current_fy d) = Inr cfy" and "\<not> cfy < get_current_fy d"
  shows "\<exists>res.
      fst (update_file_for_code env code sector dq target False w) = Inr UPDATED \<and>
      files (snd (update_file_for_code env code sector dq target False w))
        (os_path_join (os_path_join dq sector)
           (code @ ''_'' @ py_str cfy @ ''fy_'' @ remove_dashes (max_date fetched) @ ''.csv''))
        = Some (Csv res) \<and>
      distinct (map fst res) \<and> sorted (map fst res) \<and>
      fst ` set res = fst ` set df_old \<union> fst ` set fetched \<and>
      (\<forall>r \<in> set res. if fst r \<in> fst ` set fetched then r \<in> set fetched else r \<in> set df_old)"
proof -
  let ?res = "sort_values (drop_duplicates_last (df_old @ sort_values fetched))"
  note f = normal_update_file [OF assms]
  note m = merge_properties [of df_old "sort_values fetched"]
  have "distinct (map fst ?res)" "sorted (map fst ?res)" by (rule m)+
  moreover have "fst ` set ?res = fst ` set df_old \<union> fst ` set fetched"
    using m(3) by (simp add: sort_values_set)
  moreover have "\<forall>r \<in> set ?res. if fst r \<in> fst ` set fetched then r \<in> set fetched else r \<in> set df_old"
    using m(4) unfolding sort_values_set by simp
  ultimately show ?thesis using f by blast
qed

lemma iso_date_examples:
  "iso_date ''2025-03-19''" "iso_date ''2025-03-20''" "iso_date ''2025-03-21''"
  "iso_date ''2025-03-28''" "iso_date ''2025-04-01''" "iso_date ''2025-04-03''"
  by (simp_all add: iso_date_def strptime_def re_year_def re_month_def re_day_def strip_prefix_def
      is_dec_def in_range_def digit_val_def valid_date_def mk_date_def days_in_month_def
      strftime_def pad2_def py_str_def dec_of_nat.simps digit_char_simps)

lemma fetch_window_example: "fetch_window ''20250320'' ''20250321'' = Inr (Inr ''20250321'')"
  by (simp add: fetch_window_def from_date_str_def strptime_def re_year_def re_month_def re_day_def
      strip_prefix_def is_dec_def in_range_def digit_val_def valid_date_def mk_date_def
      days_in_month_def add_one_day_def strftime_def pad2_def py_str_def dec_of_nat.simps digit_char_simps)

lemma current_fy_of_example:
  "current_fy_of ''/q/3050/72030_2024fy_20250320.csv'' new_fy = Inr 2024"
  by (simp add: current_fy_of_def os_path_basename_def py_int_def strip_def is_space_def
      dec_literal_def is_dec_def digit_val_def)

lemma py_str_2024: "py_str 2024 = ''2024''"
  by (simp add: py_str_def dec_of_nat.simps digit_char_simps)

theorem normal_update_merges_witness:
  "fault_free (no_faults api_overlap) \<and>
   fst (os_path_exists one_file_world (os_path_join ''/q'' ''3050'')) \<and>
   get_latest_file (file_map one_file_world) ''72030'' = Inr (Some ''/q/3050/72030_2024fy_20250320.csv'') \<and>
   fst (last_updated_of one_file_world ''/q/3050/72030_2024fy_20250320.csv'') = Inr (Some ''20250320'') \<and>
   fetch_window ''20250320'' ''20250321'' = Inr (Inr ''20250321'') \<and>
   get_daily_quotes (no_faults api_overlap) ''72030'' ''20250321'' ''20250321''
     = Inr [(''2025-03-21'', 3), (''2025-03-20'', 20)] \<and>
   files one_file_world ''/q/3050/72030_2024fy_20250320.csv''
     = Some (Csv [(''2025-03-19'', 1), (''2025-03-20'', 2)]) \<and>
   list_all iso_date (map fst [(''2025-03-19'', 1::int), (''2025-03-20'', 2)]) \<and>
   list_all iso_date (map fst [(''2025-03-21'', 3::int), (''2025-03-20'', 20)]) \<and>
   strptime ''-'' (max_date [(''2025-03-21'', 3::int), (''2025-03-20'', 20)]) = Inr (mk_date 2025 3 21) \<and>
   current_fy_of ''/q/3050/72030_2024fy_20250320.csv'' (get_current_fy (mk_date 2025 3 21)) = Inr 2024 \<and>
   \<not> 2024 < get_current_fy (mk_date 2025 3 21) \<and>
   fst (update_file_for_code (no_faults api_overlap) ''72030'' ''3050'' ''/q'' ''20250321'' False
          one_file_world) = Inr UPDATED \<and>
   files (snd (update_file_for_code (no_faults api_overlap) ''72030'' ''3050'' ''/q'' ''20250321'' False
          one_file_world)) ''/q/3050/72030_2024fy_20250321.csv''
     = Some (Csv [(''2025-03-19'', 1), (''2025-03-20'', 20), (''2025-03-21'', 3)])"
proof -
  have ne: "''/q/3050/72030_2024fy_20250320.csv'' \<noteq> []" "''20250320'' \<noteq> []"
    "[(''2025-03-21'', 3::int), (''2025-03-20'', 20)] \<noteq> []" by simp_all
  have ff: "fault_free (no_faults api_overlap)" by simp
  have a: "get_daily_quotes (no_faults api_overlap) ''72030'' ''20250321'' ''20250321''
      = Inr [(''2025-03-21'', 3), (''2025-03-20'', 20)]"
    by (simp add: api_overlap_def)
  have f: "files one_file_world ''/q/3050/72030_2024fy_20250320.csv''
     = Some (Csv [(''2025-03-19'', 1), (''2025-03-20'', 2)])"
    by (simp add: one_file_world_def)
  have i1: "list_all iso_date (map fst [(''2025-03-19'', 1::int), (''2025-03-20'', 2)])"
    by (simp add: iso_date_examples)
  have i2: "list_all iso_date (map fst [(''2025-03-21'', 3::int), (''2025-03-20'', 20)])"
    by (simp add: iso_date_examples)
  have md: "max_date [(''2025-03-21'', 3::int), (''2025-03-20'', 20)] = ''2025-03-21''"
    by (simp add: max_date_def max_def)
  have sp: "strptime ''-'' (max_date [(''2025-03-21'', 3::int), (''2025-03-20'', 20)]) = Inr (mk_date 2025 3 21)"
    unfolding md
    by (simp add: strptime_def re_year_def re_month_def re_day_def strip_prefix_def
      is_dec_def in_range_def digit_val_def valid_date_def mk_date_def days_in_month_def)
  have fy: "get_current_fy (mk_date 2025 3 21) = 2024" by (simp add: get_current_fy_def mk_date_def)
  have c: "current_fy_of ''/q/3050/72030_2024fy_20250320.csv'' (get_current_fy (mk_date 2025 3 21)) = Inr 2024"
    by (rule current_fy_of_example)
  have nr: "\<not> 2024 < get_current_fy (mk_date 2025 3 21)" by (simp add: fy)
  have u: "fst (update_file_for_code (no_faults api_overlap) ''72030'' ''3050'' ''/q'' ''20250321'' False
          one_file_world) = Inr UPDATED"
    using normal_update_merges [OF ff one_file_dir one_file_latest ne(1) one_file_last_updated ne(2)
        fetch_window_example a ne(3) f i1 i2 sp c nr] by blast
  have r: "files (snd (update_file_for_code (no_faults api_overlap) ''72030'' ''3050'' ''/q'' ''20250321'' False
          one_file_world)) ''/q/3050/72030_2024fy_20250321.csv''
     = Some (Csv [(''2025-03-19'', 1), (''2025-03-20'', 20), (''2025-03-21'', 3)])"
    using normal_update_file(2) [OF ff one_file_dir one_file_latest ne(1) one_file_last_updated ne(2)
        fetch_window_example a ne(3) f i1 i2 sp c nr]
    by (simp add: md py_str_2024 os_path_join_def endswith_def remove_dashes_def sort_values_def)
  from ff one_file_dir one_file_latest one_file_last_updated fetch_window_example a f i1 i2 sp c nr u r
  show ?thesis by simp
qed

subsection \<open>The update engine: running twice\<close>

lemma normal_update_file_map:
  assumes "fault_free env"
    and "fst (os_path_exists w (os_path_join dq sector))"
    and "get_latest_file (file_map w) code = Inr (Some p)" and "p \<noteq> []"
    and "fst (last_updated_of w p) = Inr (Some last_date)" and "last_date \<noteq> []"
    and "fetch_window last_date target = Inr (Inr from_date)"
    and "get_daily_quotes env code from_date target = Inr fetched" and "fetched \<noteq> []"
    and "files w p = Some (Csv df_old)"
    and "list_all iso_date (map fst df_old)" and "list_all iso_date (map fst fetched)"
    and "strptime ''-'' (max_date fetched) = Inr d"
    and "current_fy_of p (get_current_fy d) = Inr cfy" and "\<not> cfy < get_current_fy d"
    and "p \<noteq> os_path_join (os_path_join dq sector)
           (code @ ''_'' @ py_str cfy @ ''fy_'' @ remove_dashes (max_date fetched) @ ''.csv'')"
    and "p \<noteq> temp_path (os_path_join (os_path_join dq sector)
           (code @ ''_'' @ py_str cfy @ ''fy_'' @ remove_dashes (max_date fetched) @ ''.csv''))"
  shows "file_map (snd (update_file_for_code env code sector dq target False w)) =
           add_file (remove_file (file_map w) code p) code
             (os_path_join (os_path_join dq sector)
                (code @ ''_'' @ py_str cfy @ ''fy_'' @ remove_dashes (max_date fetched) @ ''.csv''))"
    and "dirs (snd (update_file_for_code env code sector dq target False w)) = dirs w"
proof -
  let ?sd = "os_path_join dq sector"
  let ?w2 = "snd (last_updated_of (log (Stat ?sd) w) p)"
  let ?w3 = "log (Read p) (log (Fetch code from_date target) (log Sleep ?w2))"
  let ?nu = "normal_update env code ?sd p cfy (max_date fetched) df_old
               (sort_values fetched) ?w3"
  have f2: "files ?w2 p = Some (Csv df_old)" using assms(10) by (simp add: last_updated_of_frame)
  have f3: "files ?w3 p \<noteq> None" using f2 by simp
  have tb: "try_body env code ?sd target False p from_date ?w2 = ?nu"
    using try_body_branches [where env = env and code = code and from_date = from_date
        and target = target, OF assms(8,9) f2 assms(13,14)] assms(15) by simp
  note ok = normal_update_ok [OF assms(1,11) sort_values_iso [OF assms(12)],
      of code ?sd p cfy "max_date fetched" ?w3]
  note rp = normal_update_repo [OF assms(1,11) sort_values_iso [OF assms(12)] f3 assms(16,17)]
  have u: "update_file_for_code env code sector dq target False w = (Inr UPDATED, snd ?nu)"
    using update_reaches_try_body [OF assms(2-7), of env False UPDATED] tb ok(1) by simp
  show "file_map (snd (update_file_for_code env code sector dq target False w)) =
           add_file (remove_file (file_map w) code p) code
             (os_path_join ?sd (code @ ''_'' @ py_str cfy @ ''fy_'' @ remove_dashes (max_date fetched) @ ''.csv''))"
    by (simp add: u rp(1) last_updated_of_frame)
  show "dirs (snd (update_file_for_code env code sector dq target False w)) = dirs w"
    by (simp add: u rp(2) last_updated_of_frame)
qed

text \<open>A run for which the upstream API has no rows: nothing is written.\<close>

lemma try_body_no_new_data:
  assumes "\<forall>f t. get_daily_quotes env code f t = Inr []"
  shows "try_body env code sd target tm cur from_date w =
           (if tm then (Inr UPDATED, w)
            else (Inr NO_NEW_DATA, log (Fetch code from_date target) (log Sleep w)))"
  using assms by (simp add: try_body_def Let_def)

lemma no_new_data_frame:
  assumes "\<forall>f t. get_daily_quotes env code f t = Inr []"
  shows "files (snd (update_file_for_code env code sector dq target tm w)) = files w"
    and "file_map (snd (update_file_for_code env code sector dq target tm w)) = file_map w"
    and "dirs (snd (update_file_for_code env code sector dq target tm w)) = dirs w"
  by (simp_all add: update_file_for_code_def os_path_exists_def Let_def case_prod_beta
      try_body_no_new_data [OF assms] last_updated_of_frame
      split: sum.splits option.splits)

lemma no_new_data_outcome:
  assumes "\<forall>f t. get_daily_quotes env code f t = Inr []"
    and "fst (os_path_exists w (os_path_join dq sector))"
    and "get_latest_file (file_map w) code = Inr (Some p)" and "p \<noteq> []"
    and "fst (last_updated_of w p) = Inr (Some last_date)"
    and "valid_yyyymmdd last_date" and "valid_yyyymmdd target"
    and "''10000101'' \<le> last_date" and "last_date < target"
  shows "fst (update_file_for_code env code sector dq target False w) = Inr NO_NEW_DATA"
proof -
  from fetch_window_valid [OF assms(6-9)] obtain from_date where
    fw: "fetch_window last_date target = Inr (Inr from_date)" by blast
  have ne: "last_date \<noteq> []" using assms(6) by (rule valid_yyyymmdd_nonempty)
  show ?thesis
    by (simp add: update_prefix [OF assms(2-5) ne] fw try_body_no_new_data [OF assms(1)])
qed

text \<open>
  C6, as the code has it. First, for an instrument whose sector directory exists and whose
  last archived date is at or after the (non-empty) target end date, the update returns
  \<open>ALREADY_LATEST\<close>; it performs no fetch and no write (the trace grows by the directory
  check and, for a dateless file name, the read that finds the date), and files and
  repository are unchanged. Second, two runs in succession: whatever the first run did, a
  second run for which the upstream API has no rows leaves every file and the repository as
  the first run left them. When the sector directory exists and the first run left the
  instrument's latest partition dated at or after the target end date, the second run
  returns \<open>ALREADY_LATEST\<close>; when it left the partition dated before the target end date
  (both valid dates, from the year 1000 on), the second run returns \<open>NO_NEW_DATA\<close>.
\<close>

theorem already_latest_idempotent:
  "(fst (os_path_exists w (os_path_join dq sector)) \<and>
    get_latest_file (file_map w) code = Inr (Some p) \<and> p \<noteq> [] \<and>
    fst (last_updated_of w p) = Inr (Some last_date) \<and> target \<noteq> [] \<and> target \<le> last_date \<longrightarrow>
      fst (update_file_for_code env code sector dq target tm w) = Inr ALREADY_LATEST \<and>
      files (snd (update_file_for_code env code sector dq target tm w)) = files w \<and>
      file_map (snd (update_file_for_code env code sector dq target tm w)) = file_map w \<and>
      trace (snd (update_file_for_code env code sector dq target tm w)) =
        trace w @ Stat (os_path_join dq sector) # locate_reads p) \<and>
   ((\<forall>f t. get_daily_quotes env_b code f t = Inr []) \<longrightarrow>
      files (snd (update_file_for_code env_b code sector dq target False
                   (snd (update_file_for_code env_a code sector dq target tm_a w_a))))
        = files (snd (update_file_for_code env_a code sector dq target tm_a w_a)) \<and>
      file_map (snd (update_file_for_code env_b code sector dq target False
                   (snd (update_file_for_code env_a code sector dq target tm_a w_a))))
        = file_map (snd (update_file_for_code env_a code sector dq target tm_a w_a)) \<and>
      (fst (os_path_exists (snd (update_file_for_code env_a code sector dq target tm_a w_a))
              (os_path_join dq sector)) \<and>
       get_latest_file (file_map (snd (update_file_for_code env_a code sector dq target tm_a w_a))) code
         = Inr (Some p_b) \<and> p_b \<noteq> [] \<and>
       fst (last_updated_of (snd (update_file_for_code env_a code sector dq target tm_a w_a)) p_b)
         = Inr (Some last_b) \<and> target \<noteq> [] \<longrightarrow>
         (target \<le> last_b \<longrightarrow>
            fst (update_file_for_code env_b code sector dq target False
                   (snd (update_file_for_code env_a code sector dq target tm_a w_a)))
              = Inr ALREADY_LATEST) \<and>
         (valid_yyyymmdd last_b \<and> valid_yyyymmdd target \<and> ''10000101'' \<le> last_b \<and> last_b < target \<longrightarrow>
            fst (update_file_for_code env_b code sector dq target False
                   (snd (update_file_for_code env_a code sector dq target tm_a w_a)))
              = Inr NO_NEW_DATA)))"
proof -
  let ?sd = "os_path_join dq sector"
  define w_b where "w_b = snd (update_file_for_code env_a code sector dq target tm_a w_a)"
  have A: "fst (os_path_exists w ?sd) \<and>
    get_latest_file (file_map w) code = Inr (Some p) \<and> p \<noteq> [] \<and>
    fst (last_updated_of w p) = Inr (Some last_date) \<and> target \<noteq> [] \<and> target \<le> last_date \<longrightarrow>
      fst (update_file_for_code env code sector dq target tm w) = Inr ALREADY_LATEST \<and>
      files (snd (update_file_for_code env code sector dq target tm w)) = files w \<and>
      file_map (snd (update_file_for_code env code sector dq target tm w)) = file_map w \<and>
      trace (snd (update_file_for_code env code sector dq target tm w)) =
        trace w @ Stat ?sd # locate_reads p"
  proof
    assume h: "fst (os_path_exists w ?sd) \<and>
      get_latest_file (file_map w) code = Inr (Some p) \<and> p \<noteq> [] \<and>
      fst (last_updated_of w p) = Inr (Some last_date) \<and> target \<noteq> [] \<and> target \<le> last_date"
    have u: "update_file_for_code env code sector dq target tm w =
        (Inr ALREADY_LATEST, snd (last_updated_of (log (Stat ?sd) w) p))"
      using h by (intro already_latest_once) blast+
    show "fst (update_file_for_code env code sector dq target tm w) = Inr ALREADY_LATEST \<and>
      files (snd (update_file_for_code env code sector dq target tm w)) = files w \<and>
      file_map (snd (update_file_for_code env code sector dq target tm w)) = file_map w \<and>
      trace (snd (update_file_for_code env code sector dq target tm w)) =
        trace w @ Stat ?sd # locate_reads p"
      by (simp add: u last_updated_of_frame locate_reads_def)
  qed
  have B: "(\<forall>f t. get_daily_quotes env_b code f t = Inr []) \<longrightarrow>
      files (snd (update_file_for_code env_b code sector dq target False w_b)) = files w_b \<and>
      file_map (snd (update_file_for_code env_b code sector dq target False w_b)) = file_map w_b \<and>
      (fst (os_path_exists w_b ?sd) \<and> get_latest_file (file_map w_b) code = Inr (Some p_b) \<and> p_b \<noteq> [] \<and>
       fst (last_updated_of w_b p_b) = Inr (Some last_b) \<and> target \<noteq> [] \<longrightarrow>
         (target \<le> last_b \<longrightarrow>
            fst (update_file_for_code env_b code sector dq target False w_b) = Inr ALREADY_LATEST) \<and>
         (valid_yyyymmdd last_b \<and> valid_yyyymmdd target \<and> ''10000101'' \<le> last_b \<and> last_b < target \<longrightarrow>
            fst (update_file_for_code env_b code sector dq target False w_b) = Inr NO_NEW_DATA))"
  proof
    assume nn: "\<forall>f t. get_daily_quotes env_b code f t = Inr []"
    note fr = no_new_data_frame [OF nn, of sector dq target False w_b]
    have C: "fst (os_path_exists w_b ?sd) \<and> get_latest_file (file_map w_b) code = Inr (Some p_b) \<and> p_b \<noteq> [] \<and>
       fst (last_updated_of w_b p_b) = Inr (Some last_b) \<and> target \<noteq> [] \<longrightarrow>
         (target \<le> last_b \<longrightarrow>
            fst (update_file_for_code env_b code sector dq target False w_b) = Inr ALREADY_LATEST) \<and>
         (valid_yyyymmdd last_b \<and> valid_yyyymmdd target \<and> ''10000101'' \<le> last_b \<and> last_b < target \<longrightarrow>
            fst (update_file_for_code env_b code sector dq target False w_b) = Inr NO_NEW_DATA)"
    proof (intro impI conjI)
      assume h: "fst (os_path_exists w_b ?sd) \<and> get_latest_file (file_map w_b) code = Inr (Some p_b) \<and>
        p_b \<noteq> [] \<and> fst (last_updated_of w_b p_b) = Inr (Some last_b) \<and> target \<noteq> []"
      {
        assume le: "target \<le> last_b"
        have "update_file_for_code env_b code sector dq target False w_b =
          (Inr ALREADY_LATEST, snd (last_updated_of (log (Stat ?sd) w_b) p_b))"
          using h le by (intro already_latest_once) blast+
        then show "fst (update_file_for_code env_b code sector dq target False w_b) = Inr ALREADY_LATEST"
          by simp
      }
      {
        assume v: "valid_yyyymmdd last_b \<and> valid_yyyymmdd target \<and> ''10000101'' \<le> last_b \<and> last_b < target"
        show "fst (update_file_for_code env_b code sector dq target False w_b) = Inr NO_NEW_DATA"
          using h v by (intro no_new_data_outcome [OF nn]) blast+
      }
    qed
    from fr(1) fr(2) C
    show "files (snd (update_file_for_code env_b code sector dq target False w_b)) = files w_b \<and>
      file_map (snd (update_file_for_code env_b code sector dq target False w_b)) = file_map w_b \<and>
      (fst (os_path_exists w_b ?sd) \<and> get_latest_file (file_map w_b) code = Inr (Some p_b) \<and> p_b \<noteq> [] \<and>
       fst (last_updated_of w_b p_b) = Inr (Some last_b) \<and> target \<noteq> [] \<longrightarrow>
         (target \<le> last_b \<longrightarrow>
            fst (update_file_for_code env_b code sector dq target False w_b) = Inr ALREADY_LATEST) \<and>
         (valid_yyyymmdd last_b \<and> valid_yyyymmdd target \<and> ''10000101'' \<le> last_b \<and> last_b < target \<longrightarrow>
            fst (update_file_for_code env_b code sector dq target False w_b) = Inr NO_NEW_DATA))"
      by blast
  qed
  from A B show ?thesis unfolding w_b_def by (rule conjI)
qed

lemma fetch_window_example2: "fetch_window ''20250320'' ''20250325'' = Inr (Inr ''20250321'')"
  by (simp add: fetch_window_def from_date_str_def strptime_def re_year_def re_month_def re_day_def
      strip_prefix_def is_dec_def in_range_def digit_val_def valid_date_def mk_date_def
      days_in_month_def add_one_day_def strftime_def pad2_def py_str_def dec_of_nat.simps digit_char_simps)

lemma api_empty_no_rows: "\<forall>f t. get_daily_quotes (no_faults api_empty) ''72030'' f t = Inr []"
  by (simp add: api_empty_def)

text \<open>A first run that merges the rows of 20 and 21 March 2025 into the partition of
  \<open>one_file_world\<close>, and the lookups of a second run in the state it leaves.\<close>

lemma first_run_overlap:
  assumes "fetch_window ''20250320'' t = Inr (Inr f)"
  shows "fst (update_file_for_code (no_faults api_overlap) ''72030'' ''3050'' ''/q'' t False
            one_file_world) = Inr UPDATED"
    and "file_map (snd (update_file_for_code (no_faults api_overlap) ''72030'' ''3050'' ''/q'' t False
            one_file_world)) = [''72030'' \<mapsto> [''/q/3050/72030_2024fy_20250321.csv'']]"
    and "dirs (snd (update_file_for_code (no_faults api_overlap) ''72030'' ''3050'' ''/q'' t False
            one_file_world)) = {''/q/3050''}"
proof -
  have ne: "''/q/3050/72030_2024fy_20250320.csv'' \<noteq> []" "''20250320'' \<noteq> []"
    "[(''2025-03-21'', 3::int), (''2025-03-20'', 20)] \<noteq> []" by simp_all
  have ff: "fault_free (no_faults api_overlap)" by simp
  have a: "get_daily_quotes (no_faults api_overlap) ''72030'' f t
      = Inr [(''2025-03-21'', 3), (''2025-03-20'', 20)]"
    by (simp add: api_overlap_def)
  have fl: "files one_file_world ''/q/3050/72030_2024fy_20250320.csv''
     = Some (Csv [(''2025-03-19'', 1), (''2025-03-20'', 2)])"
    by (simp add: one_file_world_def)
  have i1: "list_all iso_date (map fst [(''2025-03-19'', 1::int), (''2025-03-20'', 2)])"
    by (simp add: iso_date_examples)
  have i2: "list_all iso_date (map fst [(''2025-03-21'', 3::int), (''2025-03-20'', 20)])"
    by (simp add: iso_date_examples)
  have md: "max_date [(''2025-03-21'', 3::int), (''2025-03-20'', 20)] = ''2025-03-21''"
    by (simp add: max_date_def max_def)
  have sp: "strptime ''-'' (max_date [(''2025-03-21'', 3::int), (''2025-03-20'', 20)]) = Inr (mk_date 2025 3 21)"
    unfolding md
    by (simp add: strptime_def re_year_def re_month_def re_day_def strip_prefix_def
      is_dec_def in_range_def digit_val_def valid_date_def mk_date_def days_in_month_def)
  have fy: "get_current_fy (mk_date 2025 3 21) = 2024" by (simp add: get_current_fy_def mk_date_def)
  have c: "current_fy_of ''/q/3050/72030_2024fy_20250320.csv'' (get_current_fy (mk_date 2025 3 21)) = Inr 2024"
    by (rule current_fy_of_example)
  have nr: "\<not> 2024 < get_current_fy (mk_date 2025 3 21)" by (simp add: fy)
  have nm: "os_path_join (os_path_join ''/q'' ''3050'')
        (''72030'' @ ''_'' @ py_str 2024 @ ''fy_'' @
         remove_dashes (max_date [(''2025-03-21'', 3::int), (''2025-03-20'', 20)]) @ ''.csv'')
      = ''/q/3050/72030_2024fy_20250321.csv''"
    by (simp add: md py_str_2024 os_path_join_def endswith_def remove_dashes_def)
  have d1: "''/q/3050/72030_2024fy_20250320.csv'' \<noteq> os_path_join (os_path_join ''/q'' ''3050'')
        (''72030'' @ ''_'' @ py_str 2024 @ ''fy_'' @
         remove_dashes (max_date [(''2025-03-21'', 3::int), (''2025-03-20'', 20)]) @ ''.csv'')"
    unfolding nm by simp
  have d2: "''/q/3050/72030_2024fy_20250320.csv'' \<noteq> temp_path (os_path_join (os_path_join ''/q'' ''3050'')
        (''72030'' @ ''_'' @ py_str 2024 @ ''fy_'' @
         remove_dashes (max_date [(''2025-03-21'', 3::int), (''2025-03-20'', 20)]) @ ''.csv''))"
    unfolding nm by (simp add: temp_path_def)
  show "fst (update_file_for_code (no_faults api_overlap) ''72030'' ''3050'' ''/q'' t False
            one_file_world) = Inr UPDATED"
    by (rule normal_update_file(1) [OF ff one_file_dir one_file_latest ne(1) one_file_last_updated ne(2)
        assms a ne(3) fl i1 i2 sp c nr])
  show "file_map (snd (update_file_for_code (no_faults api_overlap) ''72030'' ''3050'' ''/q'' t False
            one_file_world)) = [''72030'' \<mapsto> [''/q/3050/72030_2024fy_20250321.csv'']]"
    unfolding normal_update_file_map(1) [OF ff one_file_dir one_file_latest ne(1) one_file_last_updated ne(2)
        assms a ne(3) fl i1 i2 sp c nr d1 d2] nm
    by (simp add: add_file_def remove_file_def one_file_world_def)
  show "dirs (snd (update_file_for_code (no_faults api_overlap) ''72030'' ''3050'' ''/q'' t False
            one_file_world)) = {''/q/3050''}"
    unfolding normal_update_file_map(2) [OF ff one_file_dir one_file_latest ne(1) one_file_last_updated ne(2)
        assms a ne(3) fl i1 i2 sp c nr d1 d2]
    by (simp add: one_file_world_def)
qed

lemma second_run_lookup:
  assumes "file_map w1 = [''72030'' \<mapsto> [''/q/3050/72030_2024fy_20250321.csv'']]"
    and "dirs w1 = {''/q/3050''}"
  shows "fst (os_path_exists w1 (os_path_join ''/q'' ''3050''))"
    and "get_latest_file (file_map w1) ''72030'' = Inr (Some ''/q/3050/72030_2024fy_20250321.csv'')"
    and "fst (last_updated_of w1 ''/q/3050/72030_2024fy_20250321.csv'') = Inr (Some ''20250321'')"
proof -
  show "fst (os_path_exists w1 (os_path_join ''/q'' ''3050''))"
    by (simp add: os_path_exists_def os_path_join_def endswith_def assms(2))
  show "get_latest_file (file_map w1) ''72030'' = Inr (Some ''/q/3050/72030_2024fy_20250321.csv'')"
    unfolding assms(1)
    by (simp add: get_latest_file_def sorted_reverse_def sort_key_path_def
      os_path_basename_def last_item_def first_item_def isdigit_def isdigit_char_def is_dec_def
      py_int_def strip_def is_space_def dec_literal_def digit_val_def)
  show "fst (last_updated_of w1 ''/q/3050/72030_2024fy_20250321.csv'') = Inr (Some ''20250321'')"
    by (simp add: last_updated_of_def os_path_basename_def last_item_def first_item_def Let_def)
qed

lemma valid_20250321: "valid_yyyymmdd ''20250321''"
  by (simp add: valid_yyyymmdd_def is_dec_def digit_val_def valid_date_def mk_date_def days_in_month_def)

theorem already_latest_idempotent_witness:
  "fst (os_path_exists one_file_world (os_path_join ''/q'' ''3050'')) \<and>
   get_latest_file (file_map one_file_world) ''72030'' = Inr (Some ''/q/3050/72030_2024fy_20250320.csv'') \<and>
   fst (last_updated_of one_file_world ''/q/3050/72030_2024fy_20250320.csv'') = Inr (Some ''20250320'') \<and>
   ''20250320'' \<le> ''20250320'' \<and>
   fst (update_file_for_code (no_faults api_empty) ''72030'' ''3050'' ''/q'' ''20250320'' False one_file_world) = Inr ALREADY_LATEST \<and>
   files (snd (update_file_for_code (no_faults api_empty) ''72030'' ''3050'' ''/q'' ''20250320'' False one_file_world)) = files one_file_world \<and>
   trace (snd (update_file_for_code (no_faults api_empty) ''72030'' ''3050'' ''/q'' ''20250320'' False one_file_world)) = [Stat ''/q/3050''] \<and>
   (\<forall>f t. get_daily_quotes (no_faults api_empty) ''72030'' f t = Inr []) \<and>
   fst (update_file_for_code (no_faults api_overlap) ''72030'' ''3050'' ''/q'' ''20250321'' False one_file_world) = Inr UPDATED \<and>
   get_latest_file (file_map (snd (update_file_for_code (no_faults api_overlap) ''72030'' ''3050'' ''/q'' ''20250321'' False one_file_world))) ''72030'' = Inr (Some ''/q/3050/72030_2024fy_20250321.csv'') \<and>
   fst (last_updated_of (snd (update_file_for_code (no_faults api_overlap) ''72030'' ''3050'' ''/q'' ''20250321'' False one_file_world)) ''/q/3050/72030_2024fy_20250321.csv'') = Inr (Some ''20250321'') \<and>
   ''20250321'' \<le> ''20250321'' \<and>
   fst (update_file_for_code (no_faults api_empty) ''72030'' ''3050'' ''/q'' ''20250321'' False (snd (update_file_for_code (no_faults api_overlap) ''72030'' ''3050'' ''/q'' ''20250321'' False one_file_world))) = Inr ALREADY_LATEST \<and>
   files (snd (update_file_for_code (no_faults api_empty) ''72030'' ''3050'' ''/q'' ''20250321'' False (snd (update_file_for_code (no_faults api_overlap) ''72030'' ''3050'' ''/q'' ''20250321'' False one_file_world)))) = files (snd (update_file_for_code (no_faults api_overlap) ''72030'' ''3050'' ''/q'' ''20250321'' False one_file_world)) \<and>
   fst (update_file_for_code (no_faults api_overlap) ''72030'' ''3050'' ''/q'' ''20250325'' False one_file_world) = Inr UPDATED \<and>
   fst (last_updated_of (snd (update_file_for_code (no_faults api_overlap) ''72030'' ''3050'' ''/q'' ''20250325'' False one_file_world)) ''/q/3050/72030_2024fy_20250321.csv'') = Inr (Some ''20250321'') \<and>
   valid_yyyymmdd ''20250321'' \<and> valid_yyyymmdd ''20250325'' \<and>
   ''10000101'' \<le> ''20250321'' \<and> ''20250321'' < ''20250325'' \<and>
   fst (update_file_for_code (no_faults api_empty) ''72030'' ''3050'' ''/q'' ''20250325'' False (snd (update_file_for_code (no_faults api_overlap) ''72030'' ''3050'' ''/q'' ''20250325'' False one_file_world))) = Inr NO_NEW_DATA \<and>
   files (snd (update_file_for_code (no_faults api_empty) ''72030'' ''3050'' ''/q'' ''20250325'' False (snd (update_file_for_code (no_faults api_overlap) ''72030'' ''3050'' ''/q'' ''20250325'' False one_file_world)))) = files (snd (update_file_for_code (no_faults api_overlap) ''72030'' ''3050'' ''/q'' ''20250325'' False one_file_world))"
proof -
  have ne: "''/q/3050/72030_2024fy_20250320.csv'' \<noteq> []" "''20250320'' \<noteq> []"
    "''/q/3050/72030_2024fy_20250321.csv'' \<noteq> []" "''20250321'' \<noteq> []" "''20250325'' \<noteq> []"
    by simp_all
  have le: "''20250320'' \<le> ''20250320''" "''20250321'' \<le> ''20250321''"
    "''10000101'' \<le> ''20250321''" "''20250321'' < ''20250325''" by simp_all
  have lr: "locate_reads ''/q/3050/72030_2024fy_20250320.csv'' = []"
    by (simp add: locate_reads_def os_path_basename_def)
  have sd: "os_path_join ''/q'' ''3050'' = ''/q/3050''" by (simp add: os_path_join_def endswith_def)
  have tr: "trace one_file_world = []" by (simp add: one_file_world_def)
  note f21 = first_run_overlap [OF fetch_window_example]
  note l21 = second_run_lookup [OF f21(2,3)]
  note f25 = first_run_overlap [OF fetch_window_example2]
  note l25 = second_run_lookup [OF f25(2,3)]
  note A = already_latest_idempotent [where w = one_file_world and dq = "''/q''" and sector = "''3050''"
      and code = "''72030''" and p = "''/q/3050/72030_2024fy_20250320.csv''"
      and last_date = "''20250320''" and target = "''20250320''" and env = "no_faults api_empty"
      and tm = False, THEN conjunct1]
  note B21 = already_latest_idempotent [where dq = "''/q''" and sector = "''3050''"
      and code = "''72030''" and target = "''20250321''" and env_b = "no_faults api_empty"
      and env_a = "no_faults api_overlap" and tm_a = False and w_a = one_file_world
      and p_b = "''/q/3050/72030_2024fy_20250321.csv''" and last_b = "''20250321''", THEN conjunct2]
  note B25 = already_latest_idempotent [where dq = "''/q''" and sector = "''3050''"
      and code = "''72030''" and target = "''20250325''" and env_b = "no_faults api_empty"
      and env_a = "no_faults api_overlap" and tm_a = False and w_a = one_file_world
      and p_b = "''/q/3050/72030_2024fy_20250321.csv''" and last_b = "''20250321''", THEN conjunct2]
  from A one_file_dir one_file_latest one_file_last_updated ne le
  have a: "fst (update_file_for_code (no_faults api_empty) ''72030'' ''3050'' ''/q'' ''20250320'' False one_file_world) = Inr ALREADY_LATEST \<and>
   files (snd (update_file_for_code (no_faults api_empty) ''72030'' ''3050'' ''/q'' ''20250320'' False one_file_world)) = files one_file_world \<and>
   trace (snd (update_file_for_code (no_faults api_empty) ''72030'' ''3050'' ''/q'' ''20250320'' False one_file_world)) = [Stat ''/q/3050'']"
    by (simp add: lr sd tr)
  from B21 api_empty_no_rows f21 l21 ne le
  have b21: "fst (update_file_for_code (no_faults api_empty) ''72030'' ''3050'' ''/q'' ''20250321'' False (snd (update_file_for_code (no_faults api_overlap) ''72030'' ''3050'' ''/q'' ''20250321'' False one_file_world))) = Inr ALREADY_LATEST \<and>
   files (snd (update_file_for_code (no_faults api_empty) ''72030'' ''3050'' ''/q'' ''20250321'' False (snd (update_file_for_code (no_faults api_overlap) ''72030'' ''3050'' ''/q'' ''20250321'' False one_file_world)))) = files (snd (update_file_for_code (no_faults api_overlap) ''72030'' ''3050'' ''/q'' ''20250321'' False one_file_world))"
    by simp
  from B25 api_empty_no_rows f25 l25 ne le valid_20250321 valid_20250325
  have b25: "fst (update_file_for_code (no_faults api_empty) ''72030'' ''3050'' ''/q'' ''20250325'' False (snd (update_file_for_code (no_faults api_overlap) ''72030'' ''3050'' ''/q'' ''20250325'' False one_file_world))) = Inr NO_NEW_DATA \<and>
   files (snd (update_file_for_code (no_faults api_empty) ''72030'' ''3050'' ''/q'' ''20250325'' False (snd (update_file_for_code (no_faults api_overlap) ''72030'' ''3050'' ''/q'' ''20250325'' False one_file_world)))) = files (snd (update_file_for_code (no_faults api_overlap) ''72030'' ''3050'' ''/q'' ''20250325'' False one_file_world))"
    by simp
  from a b21 b25 one_file_dir one_file_latest one_file_last_updated le api_empty_no_rows
    f21(1) l21(2,3) f25(1) l25(3) valid_20250321 valid_20250325
  show ?thesis by simp
qed

text \<open>
  C6 as stated fails, in two ways. The check of the sector directory comes first: the
  instrument's last archived date equals the target end date, yet with a sector whose
  directory does not exist the update returns \<open>DIR_NOT_FOUND\<close>. And a second run need not
  find the partition up to date: when the first run merges the rows the upstream has, the
  latest of 21 March 2025, for the target end date 25 March 2025, the second run, for which
  the upstream has no new rows, fetches again and returns \<open>NO_NEW_DATA\<close>.
\<close>

theorem missing_sector_dir_not_already_latest:
  "get_latest_file (file_map one_file_world) ''72030'' = Inr (Some ''/q/3050/72030_2024fy_20250320.csv'') \<and>
   fst (last_updated_of one_file_world ''/q/3050/72030_2024fy_20250320.csv'') = Inr (Some ''20250320'') \<and>
   ''20250320'' \<le> ''20250320'' \<and>
   fst (update_file_for_code (no_faults api_empty) ''72030'' ''3051'' ''/q'' ''20250320'' False
          one_file_world) = Inr DIR_NOT_FOUND \<and>
   fst (update_file_for_code (no_faults api_overlap) ''72030'' ''3050'' ''/q'' ''20250325'' False one_file_world) = Inr UPDATED \<and>
   fst (update_file_for_code (no_faults api_empty) ''72030'' ''3050'' ''/q'' ''20250325'' False (snd (update_file_for_code (no_faults api_overlap) ''72030'' ''3050'' ''/q'' ''20250325'' False one_file_world))) = Inr NO_NEW_DATA"
proof -
  have d: "fst (update_file_for_code (no_faults api_empty) ''72030'' ''3051'' ''/q'' ''20250320'' False
          one_file_world) = Inr DIR_NOT_FOUND"
    by (simp add: update_file_for_code_def os_path_exists_def os_path_join_def one_file_world_def
        endswith_def Let_def)
  note f25 = first_run_overlap [OF fetch_window_example2]
  note l25 = second_run_lookup [OF f25(2,3)]
  have ne: "''/q/3050/72030_2024fy_20250321.csv'' \<noteq> []" by simp
  have le: "''10000101'' \<le> ''20250321''" "''20250321'' < ''20250325''" by simp_all
  have s: "fst (update_file_for_code (no_faults api_empty) ''72030'' ''3050'' ''/q'' ''20250325'' False (snd (update_file_for_code (no_faults api_overlap) ''72030'' ''3050'' ''/q'' ''20250325'' False one_file_world))) = Inr NO_NEW_DATA"
    by (rule no_new_data_outcome [OF api_empty_no_rows l25(1) l25(2) ne l25(3)
        valid_20250321 valid_20250325 le])
  from one_file_latest one_file_last_updated d f25(1) s show ?thesis by simp
qed

subsection \<open>The update engine: rollover\<close>

lemma same_prefix_less: "(sep @ u < sep @ v) = (u < (v :: string))"
  by (induction sep) auto

lemma same_prefix_le: "(sep @ u \<le> sep @ v) = (u \<le> (v :: string))"
  by (induction sep) auto

lemma zero_padded_le_sep:
  assumes "valid_date a" "valid_date b"
  shows "zero_padded sep a \<le> zero_padded sep b \<longleftrightarrow> date_le a b"
proof -
  from assms have ra: "0 \<le> year a" "year a < 10000" "0 \<le> month a" "month a < 100" "0 \<le> day a" "day a < 100"
    and rb: "0 \<le> year b" "year b < 10000" "0 \<le> month b" "month b < 100" "0 \<le> day b" "day b < 100"
    by (auto simp: valid_date_def days_in_month_def split: if_splits)
  note y = pad4_less [OF ra(1,2) rb(1,2)]
  note m = pad2_less [OF ra(3,4) rb(3,4)]
  note d = pad2_less [OF ra(5,6) rb(5,6)]
  have "zero_padded sep a \<le> zero_padded sep b \<longleftrightarrow>
      year a < year b \<or> year a = year b \<and> (month a < month b \<or> month a = month b \<and> (day a < day b \<or> day a = day b))"
    by (simp add: zero_padded_def list_le_append list_less_append length_pad y m d same_prefix_le
        same_prefix_less order.order_iff_strict [of "pad2 (day a)"])
  then show ?thesis unfolding date_le_def by linarith
qed

lemma strptime_valid: "strptime sep s = Inr d \<Longrightarrow> valid_date d"
  by (auto simp: strptime_def split: option.splits prod.splits if_splits)

lemma fy_start_le:
  assumes "valid_date d"
  shows "date_le (mk_date (get_current_fy d) 4 1) d" and "valid_date (mk_date (get_current_fy d) 4 1) \<or> get_current_fy d < 1"
  using assms
  by (auto simp: get_current_fy_def valid_date_def date_le_def mk_date_def days_in_month_def
      split: if_splits)

lemma dec_of_nat_digits: "c \<in> set (dec_of_nat n) \<Longrightarrow> is_dec c"
proof (induction n rule: dec_of_nat.induct)
  case (1 n)
  show ?case
  proof (cases "n < 10")
    case True
    with "1.prems" show ?thesis by (subst (asm) dec_of_nat.simps) (simp add: is_dec_digit_char)
  next
    case False
    with "1.prems" have "c \<in> set (dec_of_nat (n div 10)) \<or> c = digit_char (n mod 10)"
      by (subst (asm) dec_of_nat.simps) auto
    with "1.IH" False show ?thesis by (auto simp: is_dec_digit_char)
  qed
qed

lemma py_str_no_f: "CHR ''f'' \<notin> set (py_str i)"
proof
  assume "CHR ''f'' \<in> set (py_str i)"
  then have "is_dec CHR ''f''"
    by (auto simp: py_str_def dest: dec_of_nat_digits split: if_splits)
  then show False by (simp add: is_dec_def)
qed

lemma first_occurrence_split:
  "c \<notin> set xs \<Longrightarrow> c \<notin> set ys \<Longrightarrow> xs @ c # r1 = ys @ c # r2 \<Longrightarrow> xs = ys \<and> r1 = r2"
proof (induction xs arbitrary: ys)
  case Nil
  then show ?case by (cases ys) auto
next
  case (Cons x xs)
  then show ?case by (cases ys) auto
qed

lemma partition_names_differ:
  "code @ ''_'' @ py_str a @ ''fy.csv'' \<noteq> code @ ''_'' @ py_str b @ ''fy_'' @ x @ ''.csv''"
proof
  assume "code @ ''_'' @ py_str a @ ''fy.csv'' = code @ ''_'' @ py_str b @ ''fy_'' @ x @ ''.csv''"
  then have "py_str a @ CHR ''f'' # ''y.csv'' = py_str b @ CHR ''f'' # (''y_'' @ x @ ''.csv'')"
    by simp
  from first_occurrence_split [OF py_str_no_f py_str_no_f this]
  show False by simp
qed

lemma os_path_join_inject:
  assumes "os_path_join sd (c # a) = os_path_join sd (c # b)"
  shows "a = b"
  using assms by (auto simp: os_path_join_def split: if_splits)

lemma archive_path_neq_new_path:
  "os_path_join sd (code @ ''_'' @ py_str a @ ''fy.csv'')
     \<noteq> os_path_join sd (code @ ''_'' @ py_str b @ ''fy_'' @ x @ ''.csv'')"
proof
  let ?l = "''_'' @ py_str a @ ''fy.csv''" and ?r = "''_'' @ py_str b @ ''fy_'' @ x @ ''.csv''"
  assume e: "os_path_join sd (code @ ?l) = os_path_join sd (code @ ?r)"
  obtain c u where l: "code @ ?l = c # u" by (cases "code @ ?l") auto
  obtain c' v where r: "code @ ?r = c' # v" by (cases "code @ ?r") auto
  have "c = c'" using l r by (cases code) auto
  with e l r have "os_path_join sd (c # u) = os_path_join sd (c # v)" by simp
  then have "u = v" by (rule os_path_join_inject)
  with l r \<open>c = c'\<close> have "code @ ?l = code @ ?r" by simp
  with partition_names_differ [of code a b x] show False by simp
qed

lemma archive_path_neq_temp:
  "os_path_join sd (code @ ''_'' @ py_str a @ ''fy.csv'') \<noteq> temp_path q"
proof -
  have "endswith (code @ ''_'' @ py_str a @ ''fy.csv'') ''.csv''"
    using endswith_append [of "''.csv''" "''.csv''" "code @ ''_'' @ py_str a @ ''fy''"]
    by (simp add: endswith_def)
  then have "endswith (os_path_join sd (code @ ''_'' @ py_str a @ ''fy.csv'')) ''.csv''"
    by (rule endswith_join) simp
  then have "\<not> endswith (os_path_join sd (code @ ''_'' @ py_str a @ ''fy.csv'')) ''.tmp''"
    by (rule csv_not_tmp)
  moreover have "endswith (temp_path q) ''.tmp''" by (simp add: temp_path_def endswith_def)
  ultimately show ?thesis by auto
qed

lemma rollover_update_ok:
  fixes df_new df_old :: "'a table" and new_fy cfy :: int and sd code latest p :: string
    and w :: "'a world" and env :: "'a env"
  defines "start \<equiv> strftime ''-'' (mk_date new_fy 4 1)"
  defines "archive_path \<equiv> os_path_join sd (code @ ''_'' @ py_str cfy @ ''fy.csv'')"
  defines "new_path \<equiv>
     os_path_join sd (code @ ''_'' @ py_str new_fy @ ''fy_'' @ remove_dashes latest @ ''.csv'')"
  defines "rows_before \<equiv> filter (\<lambda>r. fst r < start) df_new"
  defines "rows_from \<equiv> filter (\<lambda>r. start \<le> fst r) df_new"
  defines "res \<equiv> rollover_update env code sd p cfy new_fy latest df_old df_new w"
  assumes ff: "fault_free env"
    and fy: "1 \<le> new_fy" "new_fy \<le> 9999"
    and nxt: "rows_from \<noteq> []" "list_all iso_date (map fst rows_from)"
    and cur: "p \<noteq> archive_path" "p \<noteq> new_path"
  shows "fst res = Inr UPDATED"
    and "files (snd res) archive_path
         = Some (Csv (if rows_before \<noteq> [] then sort_values (drop_duplicates_last (df_old @ rows_before))
                      else df_old))"
    and "files (snd res) new_path = Some (Csv rows_from)"
    and "files (snd res) p = None"
proof -
  have a1: "archive_path \<noteq> new_path"
    unfolding archive_path_def new_path_def by (rule archive_path_neq_new_path)
  have a2: "archive_path \<noteq> temp_path new_path"
    unfolding archive_path_def by (rule archive_path_neq_temp)
  note ok = atomic_save_ok [OF ff]
  note rm = remove_old_files [OF ff]
  note nd = normalize_dates_iso [OF nxt(2), of env]
  let ?old_updated = "if rows_before \<noteq> [] then sort_values (drop_duplicates_last (df_old @ rows_before)) else df_old"
  let ?w1 = "snd (atomic_save env ?old_updated archive_path w)"
  let ?w3 = "repo_add code archive_path (remove_old env code p ?w1)"
  let ?w4 = "snd (atomic_save env rows_from new_path ?w3)"
  have r: "res = (Inr UPDATED, repo_add code new_path ?w4)"
    unfolding res_def rollover_update_def Let_def
    unfolding start_def [symmetric]
    unfolding rows_before_def [symmetric] rows_from_def [symmetric]
      archive_path_def [symmetric] new_path_def [symmetric]
    using fy nxt(1) cur(1) nd by (simp add: case_prod_beta ok(1))
  show "fst res = Inr UPDATED"
    by (simp add: r)
  show "files (snd res) archive_path = Some (Csv ?old_updated)"
    using a1 a2 cur by (simp add: r ok(2) rm)
  show "files (snd res) new_path = Some (Csv rows_from)"
    by (simp add: r ok(2))
  show "files (snd res) p = None"
    using cur by (simp add: r ok(2) rm)
qed

lemma iso_date_strptime:
  assumes "iso_date s" and "strptime ''-'' s = Inr d"
  shows "strftime ''-'' d = s" and "1678 \<le> year d" and "year d \<le> 2261"
  using assms by (simp_all add: iso_date_def)

lemma get_current_fy_bounds: "year d - 1 \<le> get_current_fy d" "get_current_fy d \<le> year d"
  by (simp_all add: get_current_fy_def)

lemma rollover_rows_from:
  assumes "fetched \<noteq> []" and "list_all iso_date (map fst fetched)"
    and "strptime ''-'' (max_date fetched) = Inr d"
  shows "filter (\<lambda>r. strftime ''-'' (mk_date (get_current_fy d) 4 1) \<le> fst r) (sort_values fetched) \<noteq> []"
    and "1 \<le> get_current_fy d" and "get_current_fy d \<le> 9999"
proof -
  let ?l = "last (sort_values fetched)"
  let ?s = "mk_date (get_current_fy d) 4 1"
  note l = last_sort_values_max [OF assms(1)]
  have "iso_date (fst ?l)" using l(3) assms(2) by (auto simp: list_all_iff)
  then have i: "iso_date (max_date fetched)" by (simp add: l(2))
  note p = iso_date_strptime [OF i assms(3)]
  have vd: "valid_date d" using assms(3) by (rule strptime_valid)
  note b = get_current_fy_bounds [of d]
  show fy1: "1 \<le> get_current_fy d" using b(1) p(2) by linarith
  show fy2: "get_current_fy d \<le> 9999" using b(2) p(3) by linarith
  have ys: "year ?s = get_current_fy d" by (simp add: mk_date_def)
  have vs: "valid_date ?s" using fy_start_le(2) [OF vd] fy1 by auto
  have e1: "strftime ''-'' ?s = zero_padded ''-'' ?s"
    using b(1) p(2) fy2 by (intro strftime_zero_padded) (simp_all add: ys)
  have e2: "strftime ''-'' d = zero_padded ''-'' d"
    using p(2,3) by (intro strftime_zero_padded) simp_all
  have "zero_padded ''-'' ?s \<le> zero_padded ''-'' d"
    using zero_padded_le_sep [OF vs vd] fy_start_le(1) [OF vd] by simp
  then have le: "strftime ''-'' ?s \<le> fst ?l"
    by (simp add: e1 l(2) p(1) [symmetric] e2)
  have ne: "sort_values fetched \<noteq> []" using assms(1) by (metis sort_values_set set_empty)
  have "?l \<in> set (filter (\<lambda>r. strftime ''-'' ?s \<le> fst r) (sort_values fetched))"
    using le last_in_set [OF ne] by simp
  then show "filter (\<lambda>r. strftime ''-'' ?s \<le> fst r) (sort_values fetched) \<noteq> []"
    by (metis empty_iff empty_set)
qed

lemma rollover_update_file:
  assumes "fault_free env"
    and "fst (os_path_exists w (os_path_join dq sector))"
    and "get_latest_file (file_map w) code = Inr (Some p)" and "p \<noteq> []"
    and "fst (last_updated_of w p) = Inr (Some last_date)" and "last_date \<noteq> []"
    and "fetch_window last_date target = Inr (Inr from_date)"
    and "get_daily_quotes env code from_date target = Inr fetched" and "fetched \<noteq> []"
    and "files w p = Some (Csv df_old)"
    and "list_all iso_date (map fst fetched)"
    and "strptime ''-'' (max_date fetched) = Inr d"
    and "current_fy_of p (get_current_fy d) = Inr cfy" and "cfy < get_current_fy d"
    and "p \<noteq> (os_path_join (os_path_join dq sector) (code @ ''_'' @ py_str cfy @ ''fy.csv''))"
    and "p \<noteq> (os_path_join (os_path_join dq sector)
           (code @ ''_'' @ py_str (get_current_fy d) @ ''fy_'' @ remove_dashes (max_date fetched) @ ''.csv''))"
  shows "fst (update_file_for_code env code sector dq target False w) = Inr UPDATED"
    and "files (snd (update_file_for_code env code sector dq target False w)) (os_path_join (os_path_join dq sector) (code @ ''_'' @ py_str cfy @ ''fy.csv'')) =
       Some (Csv (if filter (\<lambda>r. fst r < (strftime ''-'' (mk_date (get_current_fy d) 4 1))) (sort_values fetched) \<noteq> []
                  then sort_values (drop_duplicates_last
                         (df_old @ filter (\<lambda>r. fst r < (strftime ''-'' (mk_date (get_current_fy d) 4 1))) (sort_values fetched)))
                  else df_old))"
    and "files (snd (update_file_for_code env code sector dq target False w)) (os_path_join (os_path_join dq sector)
           (code @ ''_'' @ py_str (get_current_fy d) @ ''fy_'' @ remove_dashes (max_date fetched) @ ''.csv'')) =
       Some (Csv (filter (\<lambda>r. (strftime ''-'' (mk_date (get_current_fy d) 4 1)) \<le> fst r) (sort_values fetched)))"
    and "files (snd (update_file_for_code env code sector dq target False w)) p = None"
proof -
  let ?sd = "os_path_join dq sector"
  let ?w2 = "snd (last_updated_of (log (Stat ?sd) w) p)"
  let ?w3 = "log (Read p) (log (Fetch code from_date target) (log Sleep ?w2))"
  let ?ru = "rollover_update env code ?sd p cfy (get_current_fy d) (max_date fetched) df_old
               (sort_values fetched) ?w3"
  have f2: "files ?w2 p = Some (Csv df_old)" using assms(10) by (simp add: last_updated_of_frame)
  have tb: "try_body env code ?sd target False p from_date ?w2 = ?ru"
    using try_body_branches [where env = env and code = code and from_date = from_date
        and target = target, OF assms(8,9) f2 assms(12,13)] assms(14) by simp
  note rf = rollover_rows_from [OF assms(9,11,12)]
  have iso: "list_all iso_date
      (map fst (filter (\<lambda>r. (strftime ''-'' (mk_date (get_current_fy d) 4 1)) \<le> fst r) (sort_values fetched)))"
    using assms(11) by (auto simp: list_all_iff sort_values_set)
  note ok = rollover_update_ok [OF assms(1) rf(2,3) rf(1) iso assms(15,16),
      where df_old = df_old and w = ?w3]
  have u: "update_file_for_code env code sector dq target False w = (Inr UPDATED, snd ?ru)"
    using update_reaches_try_body [OF assms(2-7), of env False UPDATED] tb ok(1) by simp
  show "fst (update_file_for_code env code sector dq target False w) = Inr UPDATED" by (simp add: u)
  show "files (snd (update_file_for_code env code sector dq target False w)) (os_path_join (os_path_join dq sector) (code @ ''_'' @ py_str cfy @ ''fy.csv'')) =
       Some (Csv (if filter (\<lambda>r. fst r < (strftime ''-'' (mk_date (get_current_fy d) 4 1))) (sort_values fetched) \<noteq> []
                  then sort_values (drop_duplicates_last
                         (df_old @ filter (\<lambda>r. fst r < (strftime ''-'' (mk_date (get_current_fy d) 4 1))) (sort_values fetched)))
                  else df_old))"
    unfolding u snd_conv by (rule ok(2))
  show "files (snd (update_file_for_code env code sector dq target False w)) (os_path_join (os_path_join dq sector)
           (code @ ''_'' @ py_str (get_current_fy d) @ ''fy_'' @ remove_dashes (max_date fetched) @ ''.csv'')) =
       Some (Csv (filter (\<lambda>r. (strftime ''-'' (mk_date (get_current_fy d) 4 1)) \<le> fst r) (sort_values fetched)))"
    unfolding u snd_conv by (rule ok(3))
  show "files (snd (update_file_for_code env code sector dq target False w)) p = None"
    unfolding u snd_conv by (rule ok(4))
qed

text \<open>
  C1. A rollover: the engine reaches the merge (the sector directory exists, the latest
  partition \<open>p\<close> carries the last date, the fetch window is valid), no file operation
  fails, the fetched rows carry ISO dates, and the fiscal year of the latest fetched date
  exceeds the fiscal year \<open>cfy\<close> in the name of \<open>p\<close>, a live partition (its path is neither
  that of the archive nor that of the new partition). Let the boundary be April 1 of the new
  fiscal year. Then the update returns \<open>UPDATED\<close>. The dateless archive file of fiscal year
  \<open>cfy\<close> holds the old table merged with the fetched rows dated before the boundary (one
  row per date, the fetched row winning, sorted by date), or the old table as it was when
  there is no such row. The new live partition, named after the new fiscal year and the
  latest fetched date, holds exactly the fetched rows dated at or after the boundary, in date
  order, of which there is at least one. No file is left at the path of \<open>p\<close>.
\<close>

theorem rollover_splits_at_april_first:
  assumes "fault_free env"
    and "fst (os_path_exists w (os_path_join dq sector))"
    and "get_latest_file (file_map w) code = Inr (Some p)" and "p \<noteq> []"
    and "fst (last_updated_of w p) = Inr (Some last_date)" and "last_date \<noteq> []"
    and "fetch_window last_date target = Inr (Inr from_date)"
    and "get_daily_quotes env code from_date target = Inr fetched" and "fetched \<noteq> []"
    and "files w p = Some (Csv df_old)"
    and "list_all iso_date (map fst fetched)"
    and "strptime ''-'' (max_date fetched) = Inr d"
    and "current_fy_of p (get_current_fy d) = Inr cfy" and "cfy < get_current_fy d"
    and "p \<noteq> (os_path_join (os_path_join dq sector) (code @ ''_'' @ py_str cfy @ ''fy.csv''))"
    and "p \<noteq> (os_path_join (os_path_join dq sector)
           (code @ ''_'' @ py_str (get_current_fy d) @ ''fy_'' @ remove_dashes (max_date fetched) @ ''.csv''))"
  shows "fst (update_file_for_code env code sector dq target False w) = Inr UPDATED \<and>
     files (snd (update_file_for_code env code sector dq target False w)) (os_path_join (os_path_join dq sector) (code @ ''_'' @ py_str cfy @ ''fy.csv'')) =
       Some (Csv (if filter (\<lambda>r. fst r < (strftime ''-'' (mk_date (get_current_fy d) 4 1))) (sort_values fetched) \<noteq> []
                  then sort_values (drop_duplicates_last
                         (df_old @ filter (\<lambda>r. fst r < (strftime ''-'' (mk_date (get_current_fy d) 4 1))) (sort_values fetched)))
                  else df_old)) \<and>
     files (snd (update_file_for_code env code sector dq target False w)) (os_path_join (os_path_join dq sector)
           (code @ ''_'' @ py_str (get_current_fy d) @ ''fy_'' @ remove_dashes (max_date fetched) @ ''.csv'')) =
       Some (Csv (filter (\<lambda>r. (strftime ''-'' (mk_date (get_current_fy d) 4 1)) \<le> fst r) (sort_values fetched))) \<and>
     filter (\<lambda>r. (strftime ''-'' (mk_date (get_current_fy d) 4 1)) \<le> fst r) (sort_values fetched) \<noteq> [] \<and>
     files (snd (update_file_for_code env code sector dq target False w)) p = None"
proof -
  note f = rollover_update_file [OF assms]
  note n = rollover_rows_from(1) [OF assms(9,11,12)]
  from f n show ?thesis by (intro conjI)
qed

lemma fetch_window_example3: "fetch_window ''20250320'' ''20250403'' = Inr (Inr ''20250321'')"
  by (simp add: fetch_window_def from_date_str_def strptime_def re_year_def re_month_def re_day_def
      strip_prefix_def is_dec_def in_range_def digit_val_def valid_date_def mk_date_def
      days_in_month_def add_one_day_def strftime_def pad2_def py_str_def dec_of_nat.simps digit_char_simps)

lemma py_str_2025: "py_str 2025 = ''2025''"
  by (simp add: py_str_def dec_of_nat.simps digit_char_simps)

theorem rollover_splits_at_april_first_witness:
  "fault_free (no_faults api_rollover) \<and>
   fst (os_path_exists one_file_world (os_path_join ''/q'' ''3050'')) \<and>
   get_latest_file (file_map one_file_world) ''72030'' = Inr (Some ''/q/3050/72030_2024fy_20250320.csv'') \<and>
   fst (last_updated_of one_file_world ''/q/3050/72030_2024fy_20250320.csv'') = Inr (Some ''20250320'') \<and>
   fetch_window ''20250320'' ''20250403'' = Inr (Inr ''20250321'') \<and>
   get_daily_quotes (no_faults api_rollover) ''72030'' ''20250321'' ''20250403'' = Inr [(''2025-03-28'', 4::int), (''2025-04-01'', 7), (''2025-04-03'', 9)] \<and>
   files one_file_world ''/q/3050/72030_2024fy_20250320.csv'' = Some (Csv [(''2025-03-19'', 1), (''2025-03-20'', 2)]) \<and>
   list_all iso_date (map fst [(''2025-03-28'', 4::int), (''2025-04-01'', 7), (''2025-04-03'', 9)]) \<and>
   strptime ''-'' (max_date [(''2025-03-28'', 4::int), (''2025-04-01'', 7), (''2025-04-03'', 9)]) = Inr (mk_date 2025 4 3) \<and>
   current_fy_of ''/q/3050/72030_2024fy_20250320.csv'' (get_current_fy (mk_date 2025 4 3)) = Inr 2024 \<and>
   2024 < get_current_fy (mk_date 2025 4 3) \<and>
   ''/q/3050/72030_2024fy_20250320.csv'' \<noteq> ''/q/3050/72030_2024fy.csv'' \<and>
   ''/q/3050/72030_2024fy_20250320.csv'' \<noteq> ''/q/3050/72030_2025fy_20250403.csv'' \<and>
   fst (update_file_for_code (no_faults api_rollover) ''72030'' ''3050'' ''/q'' ''20250403'' False one_file_world) = Inr UPDATED \<and>
   files (snd (update_file_for_code (no_faults api_rollover) ''72030'' ''3050'' ''/q'' ''20250403'' False one_file_world)) ''/q/3050/72030_2024fy.csv''
     = Some (Csv [(''2025-03-19'', 1), (''2025-03-20'', 2), (''2025-03-28'', 4)]) \<and>
   files (snd (update_file_for_code (no_faults api_rollover) ''72030'' ''3050'' ''/q'' ''20250403'' False one_file_world)) ''/q/3050/72030_2025fy_20250403.csv''
     = Some (Csv [(''2025-04-01'', 7), (''2025-04-03'', 9)]) \<and>
   files (snd (update_file_for_code (no_faults api_rollover) ''72030'' ''3050'' ''/q'' ''20250403'' False one_file_world)) ''/q/3050/72030_2024fy_20250320.csv'' = None"
proof -
  have ne: "''/q/3050/72030_2024fy_20250320.csv'' \<noteq> []" "''20250320'' \<noteq> []" "[(''2025-03-28'', 4::int), (''2025-04-01'', 7), (''2025-04-03'', 9)] \<noteq> []" by simp_all
  have ff: "fault_free (no_faults api_rollover)" by simp
  have a: "get_daily_quotes (no_faults api_rollover) ''72030'' ''20250321'' ''20250403'' = Inr [(''2025-03-28'', 4::int), (''2025-04-01'', 7), (''2025-04-03'', 9)]"
    by (simp add: api_rollover_def)
  have fl: "files one_file_world ''/q/3050/72030_2024fy_20250320.csv'' = Some (Csv [(''2025-03-19'', 1), (''2025-03-20'', 2)])"
    by (simp add: one_file_world_def)
  have i: "list_all iso_date (map fst [(''2025-03-28'', 4::int), (''2025-04-01'', 7), (''2025-04-03'', 9)])"
    by (simp add: iso_date_examples)
  have md: "max_date [(''2025-03-28'', 4::int), (''2025-04-01'', 7), (''2025-04-03'', 9)] = ''2025-04-03''"
    by (simp add: max_date_def max_def)
  have sp: "strptime ''-'' (max_date [(''2025-03-28'', 4::int), (''2025-04-01'', 7), (''2025-04-03'', 9)]) = Inr (mk_date 2025 4 3)"
    unfolding md
    by (simp add: strptime_def re_year_def re_month_def re_day_def strip_prefix_def
      is_dec_def in_range_def digit_val_def valid_date_def mk_date_def days_in_month_def)
  have fy: "get_current_fy (mk_date 2025 4 3) = 2025" by (simp add: get_current_fy_def mk_date_def)
  have c: "current_fy_of ''/q/3050/72030_2024fy_20250320.csv'' (get_current_fy (mk_date 2025 4 3)) = Inr 2024"
    by (rule current_fy_of_example)
  have lt: "2024 < get_current_fy (mk_date 2025 4 3)" by (simp add: fy)
  have ap: "(os_path_join (os_path_join ''/q'' ''3050'') (''72030'' @ ''_'' @ py_str 2024 @ ''fy.csv'')) = ''/q/3050/72030_2024fy.csv''"
    by (simp add: py_str_2024 os_path_join_def endswith_def)
  have np: "(os_path_join (os_path_join ''/q'' ''3050'')
           (''72030'' @ ''_'' @ py_str (get_current_fy (mk_date 2025 4 3)) @ ''fy_'' @ remove_dashes (max_date [(''2025-03-28'', 4::int), (''2025-04-01'', 7), (''2025-04-03'', 9)]) @ ''.csv'')) = ''/q/3050/72030_2025fy_20250403.csv''"
    by (simp add: md fy py_str_2025 os_path_join_def endswith_def remove_dashes_def)
  have d1: "''/q/3050/72030_2024fy_20250320.csv'' \<noteq> (os_path_join (os_path_join ''/q'' ''3050'') (''72030'' @ ''_'' @ py_str 2024 @ ''fy.csv''))" unfolding ap by simp
  have d2: "''/q/3050/72030_2024fy_20250320.csv'' \<noteq> (os_path_join (os_path_join ''/q'' ''3050'')
           (''72030'' @ ''_'' @ py_str (get_current_fy (mk_date 2025 4 3)) @ ''fy_'' @ remove_dashes (max_date [(''2025-03-28'', 4::int), (''2025-04-01'', 7), (''2025-04-03'', 9)]) @ ''.csv''))" unfolding np by simp
  have st: "strftime ''-'' (mk_date (get_current_fy (mk_date 2025 4 3)) 4 1) = ''2025-04-01''"
    unfolding fy by (simp add: strftime_def mk_date_def pad2_def py_str_2025 digit_char_simps)
  have sv: "sort_values [(''2025-03-28'', 4::int), (''2025-04-01'', 7), (''2025-04-03'', 9)] = [(''2025-03-28'', 4::int), (''2025-04-01'', 7), (''2025-04-03'', 9)]"
    by (simp add: sort_values_def)
  have sv2: "sort_values [(''2025-03-19'', 1::int), (''2025-03-20'', 2), (''2025-03-28'', 4)]
      = [(''2025-03-19'', 1), (''2025-03-20'', 2), (''2025-03-28'', 4)]"
    by (simp add: sort_values_def)
  note t = rollover_splits_at_april_first [OF ff one_file_dir one_file_latest ne(1)
      one_file_last_updated ne(2) fetch_window_example3 a ne(3) fl i sp c lt d1 d2]
  have r: "fst (update_file_for_code (no_faults api_rollover) ''72030'' ''3050'' ''/q'' ''20250403'' False one_file_world) = Inr UPDATED \<and>
   files (snd (update_file_for_code (no_faults api_rollover) ''72030'' ''3050'' ''/q'' ''20250403'' False one_file_world)) ''/q/3050/72030_2024fy.csv''
     = Some (Csv [(''2025-03-19'', 1), (''2025-03-20'', 2), (''2025-03-28'', 4)]) \<and>
   files (snd (update_file_for_code (no_faults api_rollover) ''72030'' ''3050'' ''/q'' ''20250403'' False one_file_world)) ''/q/3050/72030_2025fy_20250403.csv''
     = Some (Csv [(''2025-04-01'', 7), (''2025-04-03'', 9)]) \<and>
   files (snd (update_file_for_code (no_faults api_rollover) ''72030'' ''3050'' ''/q'' ''20250403'' False one_file_world)) ''/q/3050/72030_2024fy_20250320.csv'' = None"
    using t unfolding ap np st sv by (simp add: sv2)
  from ff one_file_dir one_file_latest one_file_last_updated fetch_window_example3 a fl i sp c lt r
  show ?thesis by simp
qed

end
